(* ===== verification/Prelude.thy ===== *)
theory Prelude
  imports Main "HOL-Library.AList" "HOL-Library.Char_ord" "HOL-Library.Multiset"
begin

text \<open>
  Shared vocabulary of the development: the exceptions of the modelled Python code and the
  result type that carries them, the sequencing of fallible operations, insertion-ordered
  dictionaries, the order-preserving removal of duplicates (\<^verbatim>\<open>dict.fromkeys\<close>), and the generic
  lemmas on lists that the components share.
\<close>

named_theorems result_simps \<open>evaluation and inversion of fallible computations\<close>
named_theorems dict_simps \<open>lookups in updated dictionaries\<close>

section \<open>Exceptions and results\<close>

text \<open>
  A raised exception is a value: \<open>Inl\<close> of one of these, \<open>Inr\<close> of the returned value otherwise.
  Only \<^verbatim>\<open>ValueError\<close> carries its message, since the code shows that one to the operator.
\<close>

datatype pyexn =
    ValueError string
  | TypeError
  | KeyError string
  | AttributeError
  | IndexError
  | OSError
  | OverflowError
  | UnboundLocalError
  | StopIteration

type_synonym 'a result = "pyexn + 'a"

definition rbind :: "'e + 'a \<Rightarrow> ('a \<Rightarrow> 'e + 'b) \<Rightarrow> 'e + 'b" where
  "rbind m f = (case m of Inl e \<Rightarrow> Inl e | Inr x \<Rightarrow> f x)"

lemma rbind_Inl [simp, result_simps]: "rbind (Inl e) f = Inl e"
  by (simp add: rbind_def)

lemma rbind_Inr [simp, result_simps]: "rbind (Inr x) f = f x"
  by (simp add: rbind_def)

lemma rbind_eq_Inr [result_simps]: "rbind m f = Inr y \<longleftrightarrow> (\<exists>x. m = Inr x \<and> f x = Inr y)"
  by (cases m) simp_all

lemma rbind_eq_Inl [result_simps]:
  "rbind m f = Inl e \<longleftrightarrow> m = Inl e \<or> (\<exists>x. m = Inr x \<and> f x = Inl e)"
  by (cases m) simp_all

lemma rbind_cong [fundef_cong]:
  "m = m' \<Longrightarrow> (\<And>x. m' = Inr x \<Longrightarrow> f x = g x) \<Longrightarrow> rbind m f = rbind m' g"
  by (cases m') simp_all

text \<open>A loop whose body may raise: the first exception ends it.\<close>

fun rmap :: "('a \<Rightarrow> 'e + 'b) \<Rightarrow> 'a list \<Rightarrow> 'e + 'b list" where
  "rmap f [] = Inr []"
| "rmap f (x # xs) = rbind (f x) (\<lambda>y. rbind (rmap f xs) (\<lambda>ys. Inr (y # ys)))"

fun rfold :: "('s \<Rightarrow> 'a \<Rightarrow> 'e + 's) \<Rightarrow> 's \<Rightarrow> 'a list \<Rightarrow> 'e + 's" where
  "rfold f s [] = Inr s"
| "rfold f s (x # xs) = rbind (f s x) (\<lambda>s'. rfold f s' xs)"

lemma rmap_eq_Inr: "rmap f xs = Inr ys \<longleftrightarrow> list_all2 (\<lambda>x y. f x = Inr y) xs ys"
  by (induction xs arbitrary: ys) (auto simp: rbind_eq_Inr list_all2_Cons1)

lemma rmap_Inr_set: "rmap f xs = Inr ys \<Longrightarrow> y \<in> set ys \<Longrightarrow> \<exists>x\<in>set xs. f x = Inr y"
  by (induction xs arbitrary: ys) (auto simp: rbind_eq_Inr)

lemma rmap_Inl_set: "rmap f xs = Inl e \<Longrightarrow> \<exists>x\<in>set xs. f x = Inl e"
  by (induction xs) (auto simp: rbind_eq_Inl)

lemma rmap_total: "(\<And>x. x \<in> set xs \<Longrightarrow> f x = Inr (g x)) \<Longrightarrow> rmap f xs = Inr (map g xs)"
  by (induction xs) auto

lemma rmap_fails_iff: "(\<exists>e. rmap f xs = Inl e) \<longleftrightarrow> (\<exists>x\<in>set xs. \<exists>e. f x = Inl e)"
proof (induction xs)
  case Nil
  show ?case by simp
next
  case (Cons x xs)
  then show ?case by (cases "f x") (auto simp: rbind_eq_Inl)
qed

lemma rfold_append: "rfold f s (xs @ ys) = rbind (rfold f s xs) (\<lambda>s'. rfold f s' ys)"
proof (induction xs arbitrary: s)
  case Nil
  show ?case by simp
next
  case (Cons x xs)
  then show ?case by (cases "f s x") simp_all
qed

text \<open>The loop rule: an invariant that the body keeps holds when the loop returns.\<close>

lemma rfold_inv:
  assumes "rfold f s xs = Inr t" and "P s"
    and "\<And>s x s'. P s \<Longrightarrow> x \<in> set xs \<Longrightarrow> f s x = Inr s' \<Longrightarrow> P s'"
  shows "P t"
  using assms
proof (induction xs arbitrary: s)
  case Nil
  then show ?case by simp
next
  case (Cons x xs)
  from Cons.prems(1) obtain s' where s': "f s x = Inr s'" "rfold f s' xs = Inr t"
    by (auto simp: rbind_eq_Inr)
  from s'(2) show ?case
  proof (rule Cons.IH)
    show "P s'" using Cons.prems(2) s'(1) by (auto intro: Cons.prems(3))
    show "\<And>s x s'. P s \<Longrightarrow> x \<in> set xs \<Longrightarrow> f s x = Inr s' \<Longrightarrow> P s'"
      by (auto intro: Cons.prems(3))
  qed
qed

section \<open>Insertion-ordered dictionaries\<close>

text \<open>
  A Python dictionary keeps its keys in insertion order; assigning to a present key keeps its
  place. An association list updated with \<^const>\<open>AList.update\<close> behaves the same way.
\<close>

type_synonym 'v dict = "(string \<times> 'v) list"

definition dget :: "'v dict \<Rightarrow> string \<Rightarrow> 'v option" where
  "dget d k = map_of d k"

definition dget_or :: "'v dict \<Rightarrow> string \<Rightarrow> 'v \<Rightarrow> 'v" where
  "dget_or d k v = (case dget d k of None \<Rightarrow> v | Some w \<Rightarrow> w)"

definition dset :: "string \<Rightarrow> 'v \<Rightarrow> 'v dict \<Rightarrow> 'v dict" where
  "dset k v d = AList.update k v d"

definition dkeys :: "'v dict \<Rightarrow> string list" where
  "dkeys d = map fst d"

lemma dget_Nil [simp, dict_simps]: "dget [] k = None"
  by (simp add: dget_def)

lemma dget_Cons [simp, dict_simps]: "dget ((k', v) # d) k = (if k' = k then Some v else dget d k)"
  by (simp add: dget_def)

lemma dget_dset [simp, dict_simps]: "dget (dset k v d) k' = (if k' = k then Some v else dget d k')"
  by (simp add: dget_def dset_def update_conv')

lemma dget_or_dset [simp, dict_simps]:
  "dget_or (dset k v d) k' w = (if k' = k then v else dget_or d k' w)"
  by (simp add: dget_or_def)

lemma dkeys_dset: "set (dkeys (dset k v d)) = insert k (set (dkeys d))"
  by (simp add: dkeys_def dset_def dom_update)

lemma distinct_dkeys_dset: "distinct (dkeys d) \<Longrightarrow> distinct (dkeys (dset k v d))"
  by (simp add: dkeys_def dset_def distinct_update)

lemma dget_None_iff: "dget d k = None \<longleftrightarrow> k \<notin> set (dkeys d)"
  by (simp add: dget_def dkeys_def map_of_eq_None_iff)

lemma dset_same: "dget d k = Some v \<Longrightarrow> dset k v d = d"
  by (simp add: dget_def dset_def update_triv)

section \<open>Order-preserving removal of duplicates\<close>

text \<open>\<^verbatim>\<open>list(dict.fromkeys(xs))\<close>: each value once, at the place of its first occurrence.\<close>

fun fromkeys :: "'a list \<Rightarrow> 'a list" where
  "fromkeys [] = []"
| "fromkeys (x # xs) = x # filter (\<lambda>y. y \<noteq> x) (fromkeys xs)"

lemma set_fromkeys [simp]: "set (fromkeys xs) = set xs"
  by (induction xs) auto

lemma distinct_fromkeys [simp]: "distinct (fromkeys xs)"
  by (induction xs) auto

lemma fromkeys_id [simp]: "distinct xs \<Longrightarrow> fromkeys xs = xs"
proof (induction xs)
  case Nil
  show ?case by simp
next
  case (Cons x xs)
  then show ?case by (auto intro: filter_True)
qed

lemma fromkeys_eq_Nil [simp]: "fromkeys xs = [] \<longleftrightarrow> xs = []"
  by (cases xs) simp_all

lemma fromkeys_filter: "fromkeys (filter P xs) = filter P (fromkeys xs)"
proof (induction xs)
  case Nil
  show ?case by simp
next
  case (Cons x xs)
  have "filter P (filter (\<lambda>y. y \<noteq> x) (fromkeys xs)) = filter P (fromkeys xs)" if "\<not> P x"
    using that by (auto simp: filter_filter intro!: filter_cong)
  with Cons show ?case by (auto simp: filter_filter conj_commute intro!: filter_cong)
qed

section \<open>Stable sorting by a key\<close>

text \<open>
  Python's \<^verbatim>\<open>sorted(xs, key=f)\<close> is stable; on a linear order of keys its result is
  \<^const>\<open>sort_key\<close>. The contract that every ranking of the program rests on is stated once, for
  any key.
\<close>

locale ranking =
  fixes key :: "'a \<Rightarrow> 'k::linorder"
    and ranked :: "'a list \<Rightarrow> 'a list"
  assumes ranked_eq: "ranked xs = sort_key key xs"
begin

lemma ranked_mset: "mset (ranked xs) = mset xs"
  by (simp add: ranked_eq)

lemma ranked_set: "set (ranked xs) = set xs"
  by (simp add: ranked_eq)

lemma ranked_length: "length (ranked xs) = length xs"
  by (simp add: ranked_eq)

lemma ranked_sorted: "sorted (map key (ranked xs))"
  by (simp add: ranked_eq)

lemma ranked_stable: "filter (\<lambda>y. key y = k) (ranked xs) = filter (\<lambda>y. key y = k) xs"
  by (simp add: ranked_eq sort_key_stable)

lemma filter_swap: "filter P (filter Q xs) = filter Q (filter P xs)"
  by (induction xs) auto

lemma ranked_filter_stable:
  "filter (\<lambda>y. key y = k) (filter P (ranked xs)) = filter (\<lambda>y. key y = k) (filter P xs)"
  by (simp only: filter_swap [of _ P] ranked_stable)

lemma ranked_filter_sorted: "sorted (map key (filter P (ranked xs)))"
  by (rule sorted_filter) (rule ranked_sorted)

lemma ranked_nth_mono: "i \<le> j \<Longrightarrow> j < length xs \<Longrightarrow> key (ranked xs ! i) \<le> key (ranked xs ! j)"
  using ranked_sorted [of xs] ranked_length [of xs] sorted_nth_mono by fastforce

lemma ranked_idem: "ranked (ranked xs) = ranked xs"
  by (simp add: ranked_eq sort_key_id_if_sorted)

end

end
