(* ===== verification/PyText.thy ===== *)
theory PyText
  imports Prelude
begin

text \<open>
  The string operations of Python that the program calls. A \<open>char\<close> stands for a code point below
  256; the classes (\<open>str.isspace\<close>, \<open>\d\<close>, lower and upper case) are those of Unicode on that range.
  The only exceptions are the two letters whose upper case lies above it (U+00B5 and U+00FF), which
  \<open>upper\<close> leaves alone: the program looks for ASCII words in upper-cased text only.
\<close>

named_theorems text_defs \<open>definitions to unfold when a concrete text is evaluated\<close>

section \<open>Character classes\<close>

definition ord :: "char \<Rightarrow> nat" where
  "ord c = of_char c"

text \<open>The characters that cannot be written in a literal here.\<close>

definition NUL :: char where "NUL = char_of (0::nat)"
definition backslash :: char where "backslash = char_of (92::nat)"
definition squote :: char where "squote = char_of (39::nat)"
definition dquote :: char where "dquote = char_of (34::nat)"

lemma special_chars:
  "NUL = CHR 0x00" "backslash = CHR 0x5C" "squote = CHR 0x27" "dquote = CHR 0x22"
  by (unfold NUL_def backslash_def squote_def dquote_def) code_simp+

lemmas [text_defs] = special_chars

definition is_space :: "char \<Rightarrow> bool" where
  "is_space c = (let n = ord c in (9 \<le> n \<and> n \<le> 13) \<or> (28 \<le> n \<and> n \<le> 32) \<or> n = 133 \<or> n = 160)"

definition is_digit :: "char \<Rightarrow> bool" where
  "is_digit c = (48 \<le> ord c \<and> ord c \<le> 57)"

definition is_lower_az :: "char \<Rightarrow> bool" where
  "is_lower_az c = (97 \<le> ord c \<and> ord c \<le> 122)"

definition is_upper_az :: "char \<Rightarrow> bool" where
  "is_upper_az c = (65 \<le> ord c \<and> ord c \<le> 90)"

definition lower_char :: "char \<Rightarrow> char" where
  "lower_char c = (let n = ord c in
     if (65 \<le> n \<and> n \<le> 90) \<or> (192 \<le> n \<and> n \<le> 222 \<and> n \<noteq> 215) then char_of (n + 32) else c)"

definition upper_char :: "char \<Rightarrow> string" where
  "upper_char c = (let n = ord c in
     if n = 223 then ''SS''
     else if (97 \<le> n \<and> n \<le> 122) \<or> (224 \<le> n \<and> n \<le> 254 \<and> n \<noteq> 247) then [char_of (n - 32)]
     else [c])"

definition lower :: "string \<Rightarrow> string" where
  "lower s = map lower_char s"

definition upper :: "string \<Rightarrow> string" where
  "upper s = concat (map upper_char s)"

lemmas [text_defs] = ord_def is_space_def is_digit_def is_lower_az_def is_upper_az_def
  lower_char_def upper_char_def lower_def upper_def

lemma ord_char_of [simp]: "n < 256 \<Longrightarrow> ord (char_of n) = n"
  by (simp add: ord_def)

lemma lower_char_idem [simp]: "lower_char (lower_char c) = lower_char c"
  by (simp add: lower_char_def Let_def)

lemma lower_idem [simp]: "lower (lower s) = lower s"
  by (simp add: lower_def)

lemma length_lower [simp]: "length (lower s) = length s"
  by (simp add: lower_def)

section \<open>Prefixes and substrings\<close>

definition startswith :: "string \<Rightarrow> string \<Rightarrow> bool" where
  "startswith s p = (take (length p) s = p)"

lemma startswith_iff: "startswith s p \<longleftrightarrow> (\<exists>t. s = p @ t)"
proof
  assume "startswith s p"
  then have "s = p @ drop (length p) s"
    by (metis append_take_drop_id startswith_def)
  then show "\<exists>t. s = p @ t" ..
qed (auto simp: startswith_def)

lemma startswith_append [simp]: "startswith (p @ t) p"
  by (simp add: startswith_def)

lemma startswith_trans: "startswith s p \<Longrightarrow> startswith p q \<Longrightarrow> startswith s q"
  by (auto simp: startswith_iff)

lemma startswith_Cons [simp]: "startswith (x # s) (y # p) \<longleftrightarrow> x = y \<and> startswith s p"
  by (auto simp: startswith_def)

lemma startswith_Nil [simp]: "startswith s []"
  by (simp add: startswith_def)

lemma startswith_Nil2 [simp]: "startswith [] (y # p) = False"
  by (simp add: startswith_def)

text \<open>\<open>contains p s\<close> is Python's \<open>p in s\<close>.\<close>

fun contains :: "string \<Rightarrow> string \<Rightarrow> bool" where
  "contains p [] = (p = [])"
| "contains p (c # s) = (startswith (c # s) p \<or> contains p s)"

lemma contains_iff: "contains p s \<longleftrightarrow> (\<exists>u v. s = u @ p @ v)"
proof (induction s)
  case Nil
  show ?case by simp
next
  case (Cons c s)
  have "(\<exists>u v. c # s = u @ p @ v) \<longleftrightarrow> (\<exists>v. c # s = p @ v) \<or> (\<exists>u v. s = u @ p @ v)"
    by (metis Cons_eq_append_conv append_Cons append_Nil)
  with Cons show ?case by (simp add: startswith_iff)
qed

section \<open>Splitting and joining\<close>

text \<open>
  \<open>s.split(c)\<close> for a one-character separator; the result is never empty. Lists of arguments are
  split and joined the same way.
\<close>

fun split_on :: "'a \<Rightarrow> 'a list \<Rightarrow> 'a list list" where
  "split_on c [] = [[]]"
| "split_on c (x # xs) =
     (if x = c then [] # split_on c xs
      else (case split_on c xs of [] \<Rightarrow> [[x]] | y # ys \<Rightarrow> (x # y) # ys))"

fun join :: "'a list \<Rightarrow> 'a list list \<Rightarrow> 'a list" where
  "join sep [] = []"
| "join sep [x] = x"
| "join sep (x # y # ys) = x @ sep @ join sep (y # ys)"

lemma split_on_ne [simp]: "split_on c s \<noteq> []"
  by (induction s) (auto split: list.splits)

lemma join_Cons: "ys \<noteq> [] \<Longrightarrow> join sep (x # ys) = x @ sep @ join sep ys"
  by (cases ys) simp_all

lemma join_split_on [simp]: "join [c] (split_on c s) = s"
proof (induction s)
  case Nil
  show ?case by simp
next
  case (Cons x s)
  obtain y ys where y: "split_on c s = y # ys" by (cases "split_on c s") auto
  with Cons show ?case by (cases ys) (simp_all add: join_Cons)
qed

lemma join_member: "a \<in> set (join sep xs) \<Longrightarrow> a \<in> set sep \<or> (\<exists>x\<in>set xs. a \<in> set x)"
  by (induction sep xs rule: join.induct) auto

lemma join_snoc_Nil: "xs \<noteq> [] \<Longrightarrow> join sep xs @ sep = join sep (xs @ [[]])"
  by (induction sep xs rule: join.induct) (auto simp: join_Cons)

lemma split_on_no_sep: "c \<notin> set s \<Longrightarrow> split_on c s = [s]"
  by (induction s) auto

lemma split_on_parts: "p \<in> set (split_on c s) \<Longrightarrow> c \<notin> set p"
proof (induction s arbitrary: p)
  case Nil
  then show ?case by simp
next
  case (Cons x s)
  obtain y ys where y: "split_on c s = y # ys" by (cases "split_on c s") auto
  with Cons show ?case by (auto split: if_splits)
qed

lemma split_on_append_sep:
  "c \<notin> set s \<Longrightarrow> split_on c (s @ c # t) = s # split_on c t"
  by (induction s) auto

lemma split_on_join:
  "xs \<noteq> [] \<Longrightarrow> \<forall>x\<in>set xs. c \<notin> set x \<Longrightarrow> split_on c (join [c] xs) = xs"
proof (induction xs)
  case Nil
  then show ?case by simp
next
  case (Cons x xs)
  then show ?case
    by (cases xs) (simp_all add: split_on_no_sep join_Cons split_on_append_sep)
qed

text \<open>
  \<open>s.split("=", 1)[0]\<close> and the two outer parts of \<open>s.partition("=")\<close>: the text before the first
  separator, and the text after it (empty when there is none).
\<close>

definition before :: "char \<Rightarrow> string \<Rightarrow> string" where
  "before c s = takeWhile (\<lambda>x. x \<noteq> c) s"

definition after :: "char \<Rightarrow> string \<Rightarrow> string" where
  "after c s = drop 1 (dropWhile (\<lambda>x. x \<noteq> c) s)"

lemmas [text_defs] = before_def after_def

lemma before_append [simp]: "c \<notin> set k \<Longrightarrow> before c (k @ c # v) = k"
  by (simp add: before_def takeWhile_append)

lemma after_append [simp]: "c \<notin> set k \<Longrightarrow> after c (k @ c # v) = v"
  by (simp add: after_def dropWhile_append)

lemma before_after: "c \<in> set s \<Longrightarrow> s = before c s @ c # after c s"
  by (induction s) (auto simp: before_def after_def)

lemma before_none [simp]: "c \<notin> set s \<Longrightarrow> before c s = s"
  by (auto simp: before_def takeWhile_eq_all_conv)

lemma after_none [simp]: "c \<notin> set s \<Longrightarrow> after c s = []"
proof -
  assume "c \<notin> set s"
  then have "dropWhile (\<lambda>x. x \<noteq> c) s = []" by auto
  then show ?thesis by (simp only: after_def drop_Nil)
qed

lemma startswith_before: "c \<notin> set p \<Longrightarrow> startswith (before c s) p \<longleftrightarrow> startswith s p"
proof (induction p arbitrary: s)
  case Nil
  show ?case by simp
next
  case (Cons x p)
  then show ?case by (cases s) (auto simp: before_def)
qed

lemma before_prefix: "startswith s (before c s)"
  by (metis before_def startswith_append takeWhile_dropWhile_id)

section \<open>White space\<close>

text \<open>
  The words of a text with respect to a class of separators: the maximal runs of other characters.
  These are the non-empty pieces of \<open>re.split("[...]+", s)\<close>, and with white space as the class they
  are \<open>s.split()\<close>.
\<close>

fun words_go :: "(char \<Rightarrow> bool) \<Rightarrow> string \<Rightarrow> string \<Rightarrow> string list" where
  "words_go P w [] = (if w = [] then [] else [w])"
| "words_go P w (c # s) =
     (if P c then (if w = [] then words_go P [] s else w # words_go P [] s)
      else words_go P (w @ [c]) s)"

definition words_by :: "(char \<Rightarrow> bool) \<Rightarrow> string \<Rightarrow> string list" where
  "words_by P s = words_go P [] s"

definition split_ws :: "string \<Rightarrow> string list" where
  "split_ws s = words_by is_space s"

definition lstrip :: "(char \<Rightarrow> bool) \<Rightarrow> string \<Rightarrow> string" where
  "lstrip P s = dropWhile P s"

definition rstrip :: "(char \<Rightarrow> bool) \<Rightarrow> string \<Rightarrow> string" where
  "rstrip P s = rev (dropWhile P (rev s))"

definition strip_by :: "(char \<Rightarrow> bool) \<Rightarrow> string \<Rightarrow> string" where
  "strip_by P s = rstrip P (lstrip P s)"

definition strip :: "string \<Rightarrow> string" where
  "strip s = strip_by is_space s"

lemmas [text_defs] = words_by_def split_ws_def lstrip_def rstrip_def strip_by_def strip_def

lemma strip_by_id: "(s = [] \<or> (\<not> P (hd s) \<and> \<not> P (last s))) \<Longrightarrow> strip_by P s = s"
proof -
  assume s: "s = [] \<or> (\<not> P (hd s) \<and> \<not> P (last s))"
  then have "dropWhile P s = s" by (auto simp: dropWhile_eq_self_iff)
  moreover have "dropWhile P (rev s) = rev s" using s by (auto simp: dropWhile_eq_self_iff hd_rev)
  ultimately show ?thesis by (simp add: strip_by_def rstrip_def lstrip_def)
qed

lemma strip_by_ends:
  "strip_by P s = [] \<or> (\<not> P (hd (strip_by P s)) \<and> \<not> P (last (strip_by P s)))"
proof -
  define l where "l = dropWhile P s"
  define r where "r = dropWhile P (rev l)"
  have eq: "strip_by P s = rev r"
    by (simp add: strip_by_def rstrip_def lstrip_def l_def r_def)
  have last: "r \<noteq> [] \<Longrightarrow> \<not> P (hd r)" unfolding r_def by (rule hd_dropWhile)
  have first: "r \<noteq> [] \<Longrightarrow> \<not> P (last r)"
  proof -
    assume "r \<noteq> []"
    then have "last r = hd l"
      by (metis dropWhile_eq_Nil_conv hd_rev l_def last_appendR r_def rev_rev_ident takeWhile_dropWhile_id)
    moreover from \<open>r \<noteq> []\<close> have "l \<noteq> []" by (auto simp: r_def)
    ultimately show "\<not> P (last r)" using hd_dropWhile [of P s] by (simp add: l_def)
  qed
  show ?thesis using first last by (auto simp: eq hd_rev last_rev)
qed

lemma strip_idem [simp]: "strip (strip s) = strip s"
  using strip_by_ends [of is_space s] by (simp add: strip_def strip_by_id)

lemma strip_subset: "set (strip s) \<subseteq> set s"
  by (auto simp: strip_def strip_by_def lstrip_def rstrip_def dest!: set_dropWhileD)

lemma strip_no_space: "\<forall>c\<in>set s. \<not> is_space c \<Longrightarrow> strip s = s"
  unfolding strip_def by (rule strip_by_id) (metis hd_in_set last_in_set)

lemma words_go_words:
  "\<forall>c\<in>set w. \<not> P c \<Longrightarrow>
   \<forall>w'\<in>set (words_go P w s). w' \<noteq> [] \<and> (\<forall>c\<in>set w'. \<not> P c)"
proof (induction P w s rule: words_go.induct)
  case (1 P w)
  then show ?case by simp
next
  case (2 P w c s)
  show ?case
  proof (cases "P c")
    case True
    show ?thesis
    proof (cases "w = []")
      case w: True
      from "2.IH"(1) [OF True w] True w show ?thesis by simp
    next
      case w: False
      from "2.IH"(2) [OF True w] "2.prems" True w show ?thesis by simp
    qed
  next
    case False
    then have "\<forall>c'\<in>set (w @ [c]). \<not> P c'" using "2.prems" by auto
    from "2.IH"(3) [OF False this] False show ?thesis by (simp only: words_go.simps if_False)
  qed
qed

lemma words_by_words: "w \<in> set (words_by P s) \<Longrightarrow> w \<noteq> [] \<and> (\<forall>c\<in>set w. \<not> P c)"
  using words_go_words [of "[]" P s] by (simp add: words_by_def)

lemma words_go_word:
  "\<forall>c\<in>set v. \<not> P c \<Longrightarrow> words_go P w (v @ s) = words_go P (w @ v) s"
  by (induction v arbitrary: w) simp_all

lemma words_by_single: "v \<noteq> [] \<Longrightarrow> \<forall>c\<in>set v. \<not> P c \<Longrightarrow> words_by P v = [v]"
  using words_go_word [of v P "[]" "[]"] by (simp add: words_by_def)

lemma is_space_blank [simp]: "is_space CHR '' ''"
  by (simp add: is_space_def ord_def)

lemma split_ws_join:
  "\<forall>w\<in>set ws. w \<noteq> [] \<and> (\<forall>c\<in>set w. \<not> is_space c) \<Longrightarrow> split_ws (join '' '' ws) = ws"
proof (induction ws)
  case Nil
  show ?case by (simp add: split_ws_def words_by_def)
next
  case (Cons w ws)
  then show ?case
  proof (cases ws)
    case Nil
    with Cons.prems show ?thesis by (simp add: split_ws_def words_by_single)
  next
    case (Cons v vs)
    with Cons.prems Cons.IH words_go_word [of w is_space "[]" "CHR '' '' # join '' '' ws"]
    show ?thesis by (simp add: split_ws_def words_by_def join_Cons)
  qed
qed

end
