(* ===== verification/PyNumber.thy ===== *)
theory PyNumber
  imports PyText Complex_Main
begin

text \<open>
  Python's numbers and their texts. Integers are unbounded. A float is a rational number or one of
  the three special values; a finite float is identified with the decimal that Python prints for
  it, so comparisons and texts are exact and only the rounding of arithmetic to 53 bits is left out
  (the program adds seconds to a clock, multiplies a share by 100 for display, and otherwise only
  compares). A numeral beyond the range of binary64 keeps its value instead of becoming infinite.
\<close>

section \<open>Decimal texts of integers\<close>

definition digit_char :: "int \<Rightarrow> char" where
  "digit_char d = char_of (48 + nat d)"

definition digit_val :: "char \<Rightarrow> int" where
  "digit_val c = int (ord c) - 48"

function show_pos :: "int \<Rightarrow> string" where
  "show_pos n = (if n < 10 then [digit_char n] else show_pos (n div 10) @ [digit_char (n mod 10)])"
  by pat_completeness auto
termination
  by (relation "measure nat") auto

declare show_pos.simps [simp del]

definition show_int :: "int \<Rightarrow> string" where
  "show_int i = (if i < 0 then CHR ''-'' # show_pos (- i) else show_pos i)"

definition parse_digits :: "string \<Rightarrow> int" where
  "parse_digits s = foldl (\<lambda>n c. 10 * n + digit_val c) 0 s"

lemma digit_chars [text_defs]:
  "digit_char 0 = CHR ''0''" "digit_char 1 = CHR ''1''" "digit_char 2 = CHR ''2''"
  "digit_char 3 = CHR ''3''" "digit_char 4 = CHR ''4''" "digit_char 5 = CHR ''5''"
  "digit_char 6 = CHR ''6''" "digit_char 7 = CHR ''7''" "digit_char 8 = CHR ''8''"
  "digit_char 9 = CHR ''9''"
  by code_simp+

lemmas [text_defs] = digit_val_def show_pos.simps show_int_def parse_digits_def

lemma is_digit_digit_char [simp]: "0 \<le> d \<Longrightarrow> d < 10 \<Longrightarrow> is_digit (digit_char d)"
  by (simp add: is_digit_def digit_char_def)

lemma digit_val_digit_char [simp]: "0 \<le> d \<Longrightarrow> d < 10 \<Longrightarrow> digit_val (digit_char d) = d"
  by (simp add: digit_val_def digit_char_def)

lemma show_pos_digits: "0 \<le> n \<Longrightarrow> \<forall>c\<in>set (show_pos n). is_digit c"
proof (induction n rule: show_pos.induct)
  case (1 n)
  then show ?case by (subst show_pos.simps) auto
qed

lemma show_pos_ne [simp]: "show_pos n \<noteq> []"
  by (subst show_pos.simps) simp

lemma length_show_pos: "0 \<le> n \<Longrightarrow> n < 10 ^ Suc k \<Longrightarrow> length (show_pos n) \<le> Suc k"
proof (induction k arbitrary: n)
  case 0
  then show ?case by (subst show_pos.simps) simp
next
  case (Suc k)
  show ?case
  proof (cases "n < 10")
    case True
    then show ?thesis by (subst show_pos.simps) simp
  next
    case False
    with Suc.prems have "length (show_pos (n div 10)) \<le> Suc k" by (intro Suc.IH) auto
    with False show ?thesis by (subst show_pos.simps) simp
  qed
qed

lemma parse_show_pos [simp]: "0 \<le> n \<Longrightarrow> parse_digits (show_pos n) = n"
proof (induction n rule: show_pos.induct)
  case (1 n)
  then show ?case by (subst show_pos.simps) (auto simp: parse_digits_def)
qed

text \<open>
  \<open>int(text)\<close>: white space around, an optional sign, digits in which single underscores may stand
  between digits, at most 4300 of them (the interpreter's limit).
\<close>

definition digit_run :: "string \<Rightarrow> string option" where
  "digit_run s = (let gs = split_on CHR ''_'' s in
     if list_all (\<lambda>g. g \<noteq> [] \<and> list_all is_digit g) gs then Some (concat gs) else None)"

definition split_sign :: "string \<Rightarrow> int \<times> string" where
  "split_sign s = (case s of [] \<Rightarrow> (1, [])
     | c # t \<Rightarrow> if c = CHR ''-'' then (-1, t) else if c = CHR ''+'' then (1, t) else (1, s))"

definition int_of_text :: "string \<Rightarrow> int option" where
  "int_of_text s = (case split_sign (strip s) of (sg, t) \<Rightarrow>
     (case digit_run t of None \<Rightarrow> None
      | Some ds \<Rightarrow> if int (length ds) > 4300 then None else Some (sg * parse_digits ds)))"

text \<open>The regular expression \<^verbatim>\<open>[+-]?\d+\<close>, as a full match.\<close>

definition is_int_text :: "string \<Rightarrow> bool" where
  "is_int_text s = (case split_sign s of (sg, t) \<Rightarrow> t \<noteq> [] \<and> list_all is_digit t)"

lemmas [text_defs] = digit_run_def split_sign_def int_of_text_def is_int_text_def

lemma digit_run_digits: "s \<noteq> [] \<Longrightarrow> list_all is_digit s \<Longrightarrow> digit_run s = Some s"
proof -
  assume s: "s \<noteq> []" "list_all is_digit s"
  have "\<not> is_digit CHR ''_''" by (simp add: is_digit_def ord_def)
  with s(2) have "CHR ''_'' \<notin> set s" by (auto simp: list_all_iff)
  with s show ?thesis by (simp add: digit_run_def split_on_no_sep)
qed

lemma is_digit_not_space: "is_digit c \<Longrightarrow> \<not> is_space c"
  by (auto simp: is_digit_def is_space_def Let_def)

lemma is_digit_not_sign: "is_digit c \<Longrightarrow> c \<noteq> CHR ''-'' \<and> c \<noteq> CHR ''+''"
  by (auto simp: is_digit_def ord_def)

lemma split_sign_show_pos: "0 \<le> n \<Longrightarrow> split_sign (show_pos n) = (1, show_pos n)"
  using show_pos_digits [of n] show_pos_ne [of n]
  by (cases "show_pos n") (auto simp: split_sign_def is_digit_not_sign dest: is_digit_not_sign)

lemma split_sign_show_int:
  "split_sign (show_int i) = (if i < 0 then (-1, show_pos (- i)) else (1, show_pos i))"
  by (simp add: show_int_def split_sign_show_pos) (simp add: split_sign_def)

lemma is_int_text_show_int [simp]: "is_int_text (show_int i)"
  using show_pos_digits [of i] show_pos_digits [of "- i"]
  by (simp add: is_int_text_def split_sign_show_int list_all_iff)

lemma minus_not_space [simp]: "\<not> is_space CHR ''-''"
  by (simp add: is_space_def ord_def)

lemma show_int_no_space: "\<forall>c\<in>set (show_int i). \<not> is_space c"
  using show_pos_digits [of i] show_pos_digits [of "- i"]
  by (auto simp: show_int_def is_digit_not_space)

lemma int_of_text_show_int:
  "length (show_int i) \<le> 4300 \<Longrightarrow> int_of_text (show_int i) = Some i"
proof -
  assume len: "length (show_int i) \<le> 4300"
  have run: "0 \<le> n \<Longrightarrow> digit_run (show_pos n) = Some (show_pos n)" for n
    using show_pos_digits by (intro digit_run_digits) (simp_all add: list_all_iff)
  have neg: "i < 0 \<Longrightarrow> length (show_pos (- i)) \<le> 4300"
    and pos: "\<not> i < 0 \<Longrightarrow> length (show_pos i) \<le> 4300"
    using len by (simp_all add: show_int_def)
  then show ?thesis
    by (cases "i < 0")
      (simp_all add: int_of_text_def strip_no_space [OF show_int_no_space] split_sign_show_int run)
qed

lemma int_of_text_show_small: "\<bar>i\<bar> < 10 ^ 20 \<Longrightarrow> int_of_text (show_int i) = Some i"
proof (rule int_of_text_show_int)
  assume "\<bar>i\<bar> < 10 ^ 20"
  then have "length (show_pos \<bar>i\<bar>) \<le> Suc 19" by (intro length_show_pos) simp_all
  then show "length (show_int i) \<le> 4300" by (cases "i < 0") (simp_all add: show_int_def)
qed

lemma int_of_text_is_int_text:
  assumes "is_int_text s" and "length s \<le> 4300" and "\<forall>c\<in>set s. \<not> is_space c"
  shows "int_of_text s = Some (case split_sign s of (sg, t) \<Rightarrow> sg * parse_digits t)"
proof -
  obtain sg t where st: "split_sign s = (sg, t)" by (cases "split_sign s")
  then have "length t \<le> length s" by (auto simp: split_sign_def split: list.splits if_splits)
  with assms st show ?thesis
    by (simp add: int_of_text_def strip_no_space is_int_text_def digit_run_digits)
qed

section \<open>Floats\<close>

datatype pyfloat = NegInf | Finite rat | PosInf | NaN

text \<open>
  The library's linear order on floats puts NaN last; Python's own comparison \<open>py_less\<close> is false
  as soon as NaN takes part. The two agree on every other pair.
\<close>

fun float_rank :: "pyfloat \<Rightarrow> int" where
  "float_rank NegInf = 0"
| "float_rank (Finite q) = 1"
| "float_rank PosInf = 2"
| "float_rank NaN = 3"

fun float_val :: "pyfloat \<Rightarrow> rat" where
  "float_val (Finite q) = q"
| "float_val _ = 0"

instantiation pyfloat :: linorder
begin

definition less_eq_pyfloat :: "pyfloat \<Rightarrow> pyfloat \<Rightarrow> bool" where
  "less_eq_pyfloat a b = (float_rank a < float_rank b \<or>
     (float_rank a = float_rank b \<and> float_val a \<le> float_val b))"

definition less_pyfloat :: "pyfloat \<Rightarrow> pyfloat \<Rightarrow> bool" where
  "less_pyfloat a b = (float_rank a < float_rank b \<or>
     (float_rank a = float_rank b \<and> float_val a < float_val b))"

instance
proof
  fix a b c :: pyfloat
  show "(a < b) = (a \<le> b \<and> \<not> b \<le> a)" by (auto simp: less_eq_pyfloat_def less_pyfloat_def)
  show "a \<le> a" by (simp add: less_eq_pyfloat_def)
  show "a \<le> b \<Longrightarrow> b \<le> c \<Longrightarrow> a \<le> c" by (auto simp: less_eq_pyfloat_def)
  show "a \<le> b \<Longrightarrow> b \<le> a \<Longrightarrow> a = b" by (cases a; cases b) (auto simp: less_eq_pyfloat_def)
  show "a \<le> b \<or> b \<le> a" by (auto simp: less_eq_pyfloat_def)
qed

end

lemma Finite_le_iff [simp]: "Finite p \<le> Finite q \<longleftrightarrow> p \<le> q"
  by (simp add: less_eq_pyfloat_def)

lemma Finite_less_iff [simp]: "Finite p < Finite q \<longleftrightarrow> p < q"
  by (simp add: less_pyfloat_def)

definition py_less :: "pyfloat \<Rightarrow> pyfloat \<Rightarrow> bool" where
  "py_less a b = (a \<noteq> NaN \<and> b \<noteq> NaN \<and> a < b)"

text \<open>
  \<open>max(lo, x)\<close> and \<open>min(hi, x)\<close> return the first argument unless the second is strictly on the
  other side; with NaN as the second argument they return the bound.
\<close>

definition py_max :: "pyfloat \<Rightarrow> pyfloat \<Rightarrow> pyfloat" where
  "py_max a b = (if py_less a b then b else a)"

definition py_min :: "pyfloat \<Rightarrow> pyfloat \<Rightarrow> pyfloat" where
  "py_min a b = (if py_less b a then b else a)"

lemma py_less_Finite [simp]: "py_less (Finite p) (Finite q) \<longleftrightarrow> p < q"
  by (simp add: py_less_def)

lemma py_clamp_finite:
  assumes "lo \<le> hi"
  shows "\<exists>q. py_min (Finite hi) (py_max (Finite lo) x) = Finite q \<and> lo \<le> q \<and> q \<le> hi"
proof (cases x)
  case (Finite q)
  with assms show ?thesis by (cases "lo < q"; cases "q < hi") (auto simp: py_min_def py_max_def)
qed (use assms in \<open>auto simp: py_min_def py_max_def py_less_def less_pyfloat_def\<close>)

fun py_neg :: "pyfloat \<Rightarrow> pyfloat" where
  "py_neg (Finite q) = Finite (- q)"
| "py_neg PosInf = NegInf"
| "py_neg NegInf = PosInf"
| "py_neg NaN = NaN"

definition scale10 :: "rat \<Rightarrow> int \<Rightarrow> rat" where
  "scale10 q e = (if 0 \<le> e then q * 10 ^ nat e else q / 10 ^ nat (- e))"

text \<open>\<open>float(text)\<close>.\<close>

definition decimal_of_text :: "string \<Rightarrow> rat option" where
  "decimal_of_text l = (
     let m = before CHR ''e'' l; x = after CHR ''e'' l;
         ip = before CHR ''.'' m; fp = after CHR ''.'' m;
         run = (\<lambda>s. if s = [] then Some [] else digit_run s);
         ex = (if CHR ''e'' \<in> set l
               then (case split_sign x of (sg, t) \<Rightarrow> map_option (\<lambda>ds. sg * parse_digits ds) (digit_run t))
               else Some 0)
     in case (run ip, run fp, ex) of
          (Some i, Some f, Some e) \<Rightarrow>
            if i = [] \<and> f = [] then None
            else Some (scale10 (of_int (parse_digits (i @ f))) (e - int (length f)))
        | _ \<Rightarrow> None)"

definition float_of_text :: "string \<Rightarrow> pyfloat option" where
  "float_of_text s = (case split_sign (strip s) of (sg, t) \<Rightarrow>
     let l = lower t; signed = (\<lambda>x. if sg < 0 then py_neg x else x) in
     if l = ''inf'' \<or> l = ''infinity'' then Some (signed PosInf)
     else if l = ''nan'' then Some NaN
     else map_option (\<lambda>q. signed (Finite q)) (decimal_of_text l))"

text \<open>\<open>int(x)\<close> of a float drops the fraction.\<close>

definition trunc_rat :: "rat \<Rightarrow> int" where
  "trunc_rat q = (if 0 \<le> q then \<lfloor>q\<rfloor> else \<lceil>q\<rceil>)"

text \<open>\<open>"%.0f" % x\<close>: to the nearest integer, ties to the even one.\<close>

definition round_half_even :: "rat \<Rightarrow> int" where
  "round_half_even q = (let f = \<lfloor>q\<rfloor>; r = q - of_int f in
     if r < 1/2 then f else if r > 1/2 then f + 1 else if even f then f else f + 1)"

definition format_0f :: "pyfloat \<Rightarrow> string" where
  "format_0f x = (case x of Finite q \<Rightarrow>
       (if q < 0 \<and> round_half_even q = 0 then ''-0'' else show_int (round_half_even q))
     | PosInf \<Rightarrow> ''inf'' | NegInf \<Rightarrow> ''-inf'' | NaN \<Rightarrow> ''nan'')"

lemma round_half_even_bounds:
  "\<bar>of_int (round_half_even q) - q\<bar> \<le> 1/2"
proof -
  have "of_int \<lfloor>q\<rfloor> \<le> q" "q < of_int \<lfloor>q\<rfloor> + 1" by linarith+
  then show ?thesis
    by (cases "even \<lfloor>q\<rfloor>") (simp_all add: round_half_even_def Let_def abs_if; linarith)+
qed

text \<open>\<open>repr\<close> of a float: fixed notation for decimal exponents from -4 to 15, else scientific.\<close>

function count_factor :: "int \<Rightarrow> int \<Rightarrow> nat" where
  "count_factor p d = (if 1 < p \<and> 0 < d \<and> d mod p = 0 then Suc (count_factor p (d div p)) else 0)"
  by pat_completeness auto
termination
  by (relation "measure (\<lambda>(p, d). nat d)") (auto simp: int_div_less_self nat_less_eq_zless)

declare count_factor.simps [simp del]

text \<open>The digits after the point that the decimal of \<open>n / d\<close> needs.\<close>

definition decimal_places :: "int \<Rightarrow> nat" where
  "decimal_places d = max (count_factor 2 d) (count_factor 5 d)"

definition show_float_pos :: "rat \<Rightarrow> string" where
  "show_float_pos q = (case quotient_of q of (n, d) \<Rightarrow>
     let k = decimal_places d;
         ds0 = show_pos (n * 10 ^ k div d);
         ds = rstrip (\<lambda>c. c = CHR ''0'') ds0;
         p = int (length ds0) - int k
     in if q = 0 then ''0.0''
        else if -4 < p \<and> p \<le> 16 then
          (if p \<le> 0 then ''0.'' @ replicate (nat (- p)) CHR ''0'' @ ds
           else if int (length ds) \<le> p then ds @ replicate (nat p - length ds) CHR ''0'' @ ''.0''
           else take (nat p) ds @ ''.'' @ drop (nat p) ds)
        else
          (take 1 ds @ (if length ds = 1 then [] else CHR ''.'' # drop 1 ds)
             @ ''e'' @ (if p - 1 < 0 then ''-'' else ''+'')
             @ (if \<bar>p - 1\<bar> < 10 then ''0'' else []) @ show_pos \<bar>p - 1\<bar>))"

definition show_float :: "pyfloat \<Rightarrow> string" where
  "show_float x = (case x of
       Finite q \<Rightarrow> (if q < 0 then CHR ''-'' # show_float_pos (- q) else show_float_pos q)
     | PosInf \<Rightarrow> ''inf'' | NegInf \<Rightarrow> ''-inf'' | NaN \<Rightarrow> ''nan'')"

end
