(* ===== verification/PyValue.thy ===== *)
theory PyValue
  imports PyNumber
begin

text \<open>
  The values that the program reads from and writes to JSON: \<open>None\<close>, booleans, integers, floats,
  texts, lists and dictionaries, with the operations of the language the program applies to them
  without looking at their type first (truth, \<open>str\<close>, \<open>repr\<close>, \<open>int\<close>, \<open>float\<close>, \<open>or\<close>, \<open>get\<close>).
\<close>

datatype json =
    JNull
  | JBool bool
  | JInt int
  | JFloat pyfloat
  | JStr string
  | JList "json list"
  | JDict "(string \<times> json) list"

fun truthy :: "json \<Rightarrow> bool" where
  "truthy JNull = False"
| "truthy (JBool b) = b"
| "truthy (JInt i) = (i \<noteq> 0)"
| "truthy (JFloat x) = (x \<noteq> Finite 0)"
| "truthy (JStr s) = (s \<noteq> [])"
| "truthy (JList xs) = (xs \<noteq> [])"
| "truthy (JDict d) = (d \<noteq> [])"

text \<open>\<open>a or b\<close>.\<close>

definition py_or :: "json \<Rightarrow> json \<Rightarrow> json" where
  "py_or a b = (if truthy a then a else b)"

section \<open>Texts of values\<close>

definition hex_digit :: "nat \<Rightarrow> char" where
  "hex_digit n = (if n < 10 then char_of (48 + n) else char_of (87 + n))"

definition repr_char :: "char \<Rightarrow> char \<Rightarrow> string" where
  "repr_char q c = (let n = ord c in
     if c = q \<or> n = 92 then [backslash, c]
     else if n = 9 then [backslash, CHR ''t'']
     else if n = 10 then [backslash, CHR ''n'']
     else if n = 13 then [backslash, CHR ''r'']
     else if n < 32 \<or> (127 \<le> n \<and> n \<le> 160) \<or> n = 173
       then [backslash, CHR ''x'', hex_digit (n div 16), hex_digit (n mod 16)]
     else [c])"

definition repr_str :: "string \<Rightarrow> string" where
  "repr_str s = (let q = (if squote \<in> set s \<and> dquote \<notin> set s
                          then dquote else squote)
     in q # concat (map (repr_char q) s) @ [q])"

fun py_repr :: "json \<Rightarrow> string" where
  "py_repr JNull = ''None''"
| "py_repr (JBool b) = (if b then ''True'' else ''False'')"
| "py_repr (JInt i) = show_int i"
| "py_repr (JFloat x) = show_float x"
| "py_repr (JStr s) = repr_str s"
| "py_repr (JList xs) = ''['' @ join '', '' (map py_repr xs) @ '']''"
| "py_repr (JDict d) =
     ''{'' @ join '', '' (map (\<lambda>(k, v). repr_str k @ '': '' @ py_repr v) d) @ ''}''"

fun py_str :: "json \<Rightarrow> string" where
  "py_str (JStr s) = s"
| "py_str v = py_repr v"

section \<open>Conversions\<close>

text \<open>\<open>int(v)\<close> and \<open>float(v)\<close>.\<close>

fun py_int :: "json \<Rightarrow> int result" where
  "py_int (JBool b) = Inr (if b then 1 else 0)"
| "py_int (JInt i) = Inr i"
| "py_int (JFloat (Finite q)) = Inr (trunc_rat q)"
| "py_int (JFloat NaN) = Inl (ValueError ''cannot convert float NaN to integer'')"
| "py_int (JFloat x) = Inl OverflowError"
| "py_int (JStr s) = (case int_of_text s of
     Some i \<Rightarrow> Inr i
   | None \<Rightarrow> Inl (ValueError (''invalid literal for int() with base 10: '' @ repr_str s)))"
| "py_int v = Inl TypeError"

fun py_float :: "json \<Rightarrow> pyfloat result" where
  "py_float (JBool b) = Inr (Finite (if b then 1 else 0))"
| "py_float (JInt i) = Inr (Finite (of_int i))"
| "py_float (JFloat x) = Inr x"
| "py_float (JStr s) = (case float_of_text s of
     Some x \<Rightarrow> Inr x
   | None \<Rightarrow> Inl (ValueError (''could not convert string to float: '' @ repr_str s)))"
| "py_float v = Inl TypeError"

section \<open>Access\<close>

text \<open>\<open>d.get(k)\<close> and \<open>d.get(k, v)\<close> on a value that may not be a dictionary.\<close>

fun jget :: "json \<Rightarrow> string \<Rightarrow> json result" where
  "jget (JDict d) k = Inr (dget_or d k JNull)"
| "jget v k = Inl AttributeError"

fun jget_or :: "json \<Rightarrow> string \<Rightarrow> json \<Rightarrow> json result" where
  "jget_or (JDict d) k w = Inr (dget_or d k w)"
| "jget_or v k w = Inl AttributeError"

fun as_dict :: "json \<Rightarrow> json dict" where
  "as_dict (JDict d) = d"
| "as_dict _ = []"

fun is_dict :: "json \<Rightarrow> bool" where
  "is_dict (JDict d) = True"
| "is_dict _ = False"

fun is_list :: "json \<Rightarrow> bool" where
  "is_list (JList xs) = True"
| "is_list _ = False"

text \<open>
  Iteration over a value: a list gives its elements, a dictionary its keys, a text its characters;
  anything else raises.
\<close>

fun iter :: "json \<Rightarrow> json list result" where
  "iter (JList xs) = Inr xs"
| "iter (JDict d) = Inr (map (\<lambda>(k, v). JStr k) d)"
| "iter (JStr s) = Inr (map (\<lambda>c. JStr [c]) s)"
| "iter v = Inl TypeError"

lemma iter_empty [simp]: "\<not> truthy v \<Longrightarrow> iter (py_or v (JList [])) = Inr []"
  by (simp add: py_or_def)

lemma py_or_truthy [simp]: "truthy a \<Longrightarrow> py_or a b = a"
  by (simp add: py_or_def)

lemma py_or_falsy [simp]: "\<not> truthy a \<Longrightarrow> py_or a b = b"
  by (simp add: py_or_def)

lemma py_str_bracket:
  "py_str (JList xs) = ''['' @ join '', '' (map py_repr xs) @ '']''"
  by simp

end
