(* ===== verification/Settings.thy ===== *)
theory Settings
  imports PyValue "HOL-Library.List_Lexorder"
begin

text \<open>
  \<^verbatim>\<open>src/blockcheck.py\<close>, settings: the specification tables, the coercion of one raw value, the
  defaults taken from the environment, and \<open>normalize\<close> / \<open>normalize_schedule\<close>, which merge
  overrides over a base and report warnings and errors. A warning or an error is a constructor per
  message of the code, with the values the message shows as its arguments.
\<close>

section \<open>Specification tables\<close>

datatype kind = KBool | KInt | KFloat | KStr | KCsv | KEnum

text \<open>
  A table row: the kind, the default, the bounds (of the numeric kinds) and the choices (of
  enumerations). The bounds of the one float setting are whole numbers, so one type serves.
\<close>

record spec_item =
  s_kind :: kind
  s_default :: json
  s_lo :: "int option"
  s_hi :: "int option"
  s_choices :: "string list"

definition spec_bool :: "bool \<Rightarrow> spec_item" where
  "spec_bool b = \<lparr>s_kind = KBool, s_default = JBool b, s_lo = None, s_hi = None, s_choices = []\<rparr>"

definition spec_int :: "int \<Rightarrow> int \<Rightarrow> int \<Rightarrow> spec_item" where
  "spec_int d l h = \<lparr>s_kind = KInt, s_default = JInt d, s_lo = Some l, s_hi = Some h, s_choices = []\<rparr>"

definition spec_float :: "rat \<Rightarrow> int \<Rightarrow> int \<Rightarrow> spec_item" where
  "spec_float d l h = \<lparr>s_kind = KFloat, s_default = JFloat (Finite d), s_lo = Some l, s_hi = Some h,
     s_choices = []\<rparr>"

definition spec_str :: "string \<Rightarrow> spec_item" where
  "spec_str d = \<lparr>s_kind = KStr, s_default = JStr d, s_lo = None, s_hi = None, s_choices = []\<rparr>"

definition spec_csv :: "string list \<Rightarrow> spec_item" where
  "spec_csv d = \<lparr>s_kind = KCsv, s_default = JList (map JStr d), s_lo = None, s_hi = None,
     s_choices = []\<rparr>"

definition spec_enum :: "string \<Rightarrow> string list \<Rightarrow> spec_item" where
  "spec_enum d cs = \<lparr>s_kind = KEnum, s_default = JStr d, s_lo = None, s_hi = None, s_choices = cs\<rparr>"

lemmas spec_defs = spec_bool_def spec_int_def spec_float_def spec_str_def spec_csv_def spec_enum_def

type_synonym spec = "(string \<times> spec_item) list"

definition BCW_BIN_DEFAULT :: string where
  "BCW_BIN_DEFAULT = ''/opt/webzapret/bin/blockcheckw''"

definition BCW_QUEUE_FIXED :: int where
  "BCW_QUEUE_FIXED = 200"

definition PROTOCOLS :: "string list" where "PROTOCOLS = [''http'', ''tls12'', ''tls13'']"
definition DNS_MODES :: "string list" where "DNS_MODES = [''auto'', ''system'', ''doh'']"
definition GRID_MODES :: "string list" where "GRID_MODES = [''corpus'', ''file'']"

definition DAYS :: "string list" where
  "DAYS = [''mon'', ''tue'', ''wed'', ''thu'', ''fri'', ''sat'', ''sun'']"

definition SETTINGS_SPEC :: spec where
  "SETTINGS_SPEC = [
    (''enabled'', spec_bool True),
    (''bin'', spec_str BCW_BIN_DEFAULT),
    (''grid'', spec_enum ''corpus'' GRID_MODES),
    (''grid_file'', spec_str ''''),
    (''domains'', spec_csv [''youtube.com'']),
    (''protocols'', spec_csv [''tls12'', ''tls13'']),
    (''dns'', spec_enum ''auto'' DNS_MODES),
    (''workers'', spec_int 64 1 2048),
    (''profiles_per_instance'', spec_int 1024 1 65535),
    (''queue'', spec_int BCW_QUEUE_FIXED 1 65535),
    (''via'', spec_str ''''),
    (''alive_via'', spec_str ''''),
    (''scan_timeout'', spec_int 0 0 3600),
    (''scan_top'', spec_int 5 0 1000),
    (''passes'', spec_int 3 0 10),
    (''take'', spec_int 3 0 1000),
    (''check_timeout'', spec_int 3 1 60),
    (''idle_ms'', spec_int 1000 100 60000),
    (''probe_path'', spec_str ''/''),
    (''identity_path'', spec_str ''/robots.txt''),
    (''reference_via'', spec_str ''''),
    (''min_share'', spec_float 0 0 10),
    (''exclude_mirage'', spec_bool True),
    (''max_import'', spec_int 5 0 100),
    (''import_prefix'', spec_str ''bcw''),
    (''auto_import'', spec_bool False),
    (''auto_apply'', spec_bool False),
    (''job_timeout'', spec_int 3600 60 14400),
    (''log_lines'', spec_int 400 50 5000),
    (''raise_limits'', spec_bool True),
    (''nf_queue_maxlen'', spec_int 65536 1024 1048576),
    (''nf_conntrack_max'', spec_int 131072 1024 4194304)]"

definition SCHEDULE_SPEC :: spec where
  "SCHEDULE_SPEC = [
    (''enabled'', spec_bool False),
    (''mode'', spec_enum ''daily'' [''interval'', ''daily'', ''weekly'']),
    (''interval_min'', spec_int 360 5 10080),
    (''at'', spec_str ''04:00''),
    (''days'', spec_csv DAYS),
    (''run_on_start'', spec_bool False)]"

section \<open>Coercion of one value\<close>

definition TRUE_WORDS :: "string list" where
  "TRUE_WORDS = [''1'', ''true'', ''yes'', ''on'', ''enabled'', ''y'']"

definition FALSE_WORDS :: "string list" where
  "FALSE_WORDS = [''0'', ''false'', ''no'', ''off'', ''disabled'', ''n'', '''']"

definition as_bool :: "json \<Rightarrow> bool \<Rightarrow> bool" where
  "as_bool v dflt = (case v of JBool b \<Rightarrow> b | JNull \<Rightarrow> dflt
     | _ \<Rightarrow> (let txt = lower (strip (py_str v)) in
          if txt \<in> set TRUE_WORDS then True
          else if txt \<in> set FALSE_WORDS then False else dflt))"

definition not_a_number :: "json \<Rightarrow> pyexn" where
  "not_a_number v = ValueError (''not a number: '' @ py_repr v)"

definition clamp_int :: "int option \<Rightarrow> int option \<Rightarrow> int \<Rightarrow> int" where
  "clamp_int lo hi n = (let n1 = (case lo of None \<Rightarrow> n | Some l \<Rightarrow> max l n)
     in case hi of None \<Rightarrow> n1 | Some h \<Rightarrow> min h n1)"

fun is_bool :: "json \<Rightarrow> bool" where
  "is_bool (JBool b) = True"
| "is_bool _ = False"

definition as_int :: "json \<Rightarrow> int option \<Rightarrow> int option \<Rightarrow> int result" where
  "as_int v lo hi = (if is_bool v then Inl (not_a_number v)
     else (let txt = strip (py_str v) in
       if \<not> is_int_text txt then Inl (not_a_number v)
       else rbind (py_int (JStr txt)) (\<lambda>n. Inr (clamp_int lo hi n))))"

definition clamp_float :: "int option \<Rightarrow> int option \<Rightarrow> pyfloat \<Rightarrow> pyfloat" where
  "clamp_float lo hi x = (let x1 = (case lo of None \<Rightarrow> x | Some l \<Rightarrow> py_max (Finite (of_int l)) x)
     in case hi of None \<Rightarrow> x1 | Some h \<Rightarrow> py_min (Finite (of_int h)) x1)"

definition as_float :: "json \<Rightarrow> int option \<Rightarrow> int option \<Rightarrow> pyfloat result" where
  "as_float v lo hi = (if is_bool v then Inl (not_a_number v)
     else (case float_of_text (strip (py_str v)) of
         None \<Rightarrow> Inl (not_a_number v)
       | Some x \<Rightarrow> Inr (clamp_float lo hi x)))"

definition csv_sep :: "char \<Rightarrow> bool" where
  "csv_sep c = (c = CHR '','' \<or> is_space c)"

definition as_csv :: "json \<Rightarrow> string list" where
  "as_csv v = (let items = (case v of JList xs \<Rightarrow> map py_str xs
       | _ \<Rightarrow> words_by csv_sep (py_str (py_or v (JStr []))))
     in filter (\<lambda>x. x \<noteq> []) (map strip items))"

definition coerce :: "spec_item \<Rightarrow> json \<Rightarrow> json result" where
  "coerce item raw = (case s_kind item of
       KBool \<Rightarrow> Inr (JBool (as_bool raw (truthy (s_default item))))
     | KInt \<Rightarrow> rbind (as_int raw (s_lo item) (s_hi item)) (\<lambda>n. Inr (JInt n))
     | KFloat \<Rightarrow> rbind (as_float raw (s_lo item) (s_hi item)) (\<lambda>x. Inr (JFloat x))
     | KCsv \<Rightarrow> (if raw = JNull then Inr (s_default item) else Inr (JList (map JStr (as_csv raw))))
     | KEnum \<Rightarrow> (let txt = lower (strip (py_str (if raw = JNull then JStr [] else raw))) in
         Inr (if txt \<in> set (s_choices item) then JStr txt else s_default item))
     | KStr \<Rightarrow> Inr (JStr (strip (py_str (if raw = JNull then s_default item else raw)))))"

section \<open>Defaults from the environment\<close>

definition env_name :: "string \<Rightarrow> string \<Rightarrow> string" where
  "env_name key pre = pre @ upper key"

definition env_value :: "(string \<Rightarrow> string option) \<Rightarrow> string \<Rightarrow> string \<times> spec_item \<Rightarrow> json" where
  "env_value environ pre ki = (case ki of (key, item) \<Rightarrow>
     (case environ (env_name key pre) of
        None \<Rightarrow> s_default item
      | Some raw \<Rightarrow> (case coerce item (JStr raw) of Inl e \<Rightarrow> s_default item | Inr v \<Rightarrow> v)))"

definition env_defaults :: "(string \<Rightarrow> string option) \<Rightarrow> spec \<Rightarrow> string \<Rightarrow> json dict" where
  "env_defaults environ spec pre =
     foldl (\<lambda>out ki. dset (fst ki) (env_value environ pre ki) out) [] spec"

section \<open>Normalization\<close>

datatype warning =
    Keeping string pyexn json
  | Clamped string json json
  | IgnoringUnknownSettings "string list"
  | IgnoringProtocols "string list"
  | QueueHasNoEffect json
  | IgnoringDays

datatype problem =
    ProtocolRequired
  | InvalidDomain string
  | DomainRequired
  | GridFileRequired
  | ViaExclusive
  | PathNotAbsolute string
  | WorkersExceedProfiles json json
  | TimeExpected json

definition clamp_warning :: "string \<Rightarrow> json \<Rightarrow> json \<Rightarrow> warning list" where
  "clamp_warning key raw v = (case (float_of_text (strip (py_str raw)), py_float v) of
       (Some (Finite q), Inr (Finite w)) \<Rightarrow> if \<bar>q - w\<bar> > 1 / 10 ^ 9 then [Clamped key raw v] else []
     | (Some NaN, _) \<Rightarrow> []
     | (Some x, Inr (Finite w)) \<Rightarrow> [Clamped key raw v]
     | _ \<Rightarrow> [])"

definition numeric_kind :: "kind \<Rightarrow> bool" where
  "numeric_kind k = (k = KInt \<or> k = KFloat)"

text \<open>One round of the loop over the table.\<close>

definition norm_key ::
  "json dict \<Rightarrow> json dict \<Rightarrow> json dict \<times> warning list \<Rightarrow> string \<times> spec_item \<Rightarrow> json dict \<times> warning list"
where
  "norm_key values base st ki = (case (st, ki) of ((out, ws), (key, item)) \<Rightarrow>
     (case dget values key of
        None \<Rightarrow> (out, ws)
      | Some raw \<Rightarrow>
          (case coerce item raw of
             Inl e \<Rightarrow> (out, ws @ [Keeping key e (dget_or base key JNull)])
           | Inr v \<Rightarrow> (dset key v out,
               ws @ (if numeric_kind (s_kind item) then clamp_warning key raw v else [])))))"

definition norm_keys :: "spec \<Rightarrow> json dict \<Rightarrow> json dict \<Rightarrow> json dict \<times> warning list" where
  "norm_keys spec values base = foldl (norm_key values base) (base, []) spec"

fun strs :: "json \<Rightarrow> string list" where
  "strs (JList xs) = map py_str xs"
| "strs _ = []"

definition domain_char :: "char \<Rightarrow> bool" where
  "domain_char c = (is_lower_az c \<or> is_upper_az c \<or> is_digit c \<or> c \<in> set ''._:-'')"

definition valid_domain :: "string \<Rightarrow> bool" where
  "valid_domain d = (1 \<le> length d \<and> length d \<le> 253 \<and> list_all domain_char d)"

fun json_gt :: "json \<Rightarrow> json \<Rightarrow> bool" where
  "json_gt (JInt a) (JInt b) = (a > b)"
| "json_gt _ _ = False"

text \<open>The cross-field rules, in the order of the code: protocols, domains, then the rest.\<close>

definition norm_protocols :: "json dict \<Rightarrow> json dict \<times> warning list \<times> problem list" where
  "norm_protocols out = (let given = strs (dget_or out ''protocols'' (JList []));
       bad = filter (\<lambda>p. p \<notin> set PROTOCOLS) given;
       good = filter (\<lambda>p. p \<in> set PROTOCOLS) (fromkeys given)
     in (dset ''protocols'' (JList (map JStr good)) out,
         (if bad \<noteq> [] then [IgnoringProtocols bad] else []),
         (if good = [] then [ProtocolRequired] else [])))"

definition norm_domains :: "json dict \<Rightarrow> json dict \<times> problem list" where
  "norm_domains out = (let ds = fromkeys (as_csv (dget_or out ''domains'' (JList [])))
     in (dset ''domains'' (JList (map JStr ds)) out,
         map InvalidDomain (filter (\<lambda>d. \<not> valid_domain d) ds)
           @ (if ds = [] then [DomainRequired] else [])))"

definition cross_errors :: "json dict \<Rightarrow> problem list" where
  "cross_errors out =
     (if dget out ''grid'' = Some (JStr ''file'') \<and> \<not> truthy (dget_or out ''grid_file'' JNull)
      then [GridFileRequired] else []) @
     (if truthy (dget_or out ''via'' JNull) \<and> truthy (dget_or out ''reference_via'' JNull)
      then [ViaExclusive] else []) @
     map PathNotAbsolute (filter (\<lambda>k. \<not> startswith (py_str (dget_or out k (JStr []))) ''/'')
       [''probe_path'', ''identity_path'']) @
     (if json_gt (dget_or out ''workers'' JNull) (dget_or out ''profiles_per_instance'' JNull)
      then [WorkersExceedProfiles (dget_or out ''workers'' JNull)
              (dget_or out ''profiles_per_instance'' JNull)] else [])"

definition norm_queue :: "json dict \<Rightarrow> json dict \<times> warning list" where
  "norm_queue out = (if dget_or out ''queue'' JNull \<noteq> JInt BCW_QUEUE_FIXED
     then (dset ''queue'' (JInt BCW_QUEUE_FIXED) out, [QueueHasNoEffect (dget_or out ''queue'' JNull)])
     else (out, []))"

definition unknown_settings :: "json dict \<Rightarrow> warning list" where
  "unknown_settings values = (let unknown = filter (\<lambda>k. k \<notin> set (map fst SETTINGS_SPEC)) (dkeys values)
     in if unknown \<noteq> [] then [IgnoringUnknownSettings (sort unknown)] else [])"

definition normalize ::
  "bool \<Rightarrow> spec \<Rightarrow> json dict \<Rightarrow> json dict \<Rightarrow> json dict \<times> warning list \<times> problem list"
where
  "normalize full spec values base = (case norm_keys spec values base of (out, ws) \<Rightarrow>
     if \<not> full then (out, ws, [])
     else (case norm_protocols out of (out1, w1, e1) \<Rightarrow>
           case norm_domains out1 of (out2, e2) \<Rightarrow>
           case norm_queue out2 of (out3, w3) \<Rightarrow>
             (out3, ws @ unknown_settings values @ w1 @ w3, e1 @ e2 @ cross_errors out2)))"

abbreviation normalize_settings ::
  "json dict \<Rightarrow> json dict \<Rightarrow> json dict \<times> warning list \<times> problem list"
where
  "normalize_settings \<equiv> normalize True SETTINGS_SPEC"

text \<open>The regular expression \<^verbatim>\<open>([01]?\d|2[0-3]):[0-5]\d\<close>, as a full match of the stripped text.\<close>

definition valid_hour :: "string \<Rightarrow> bool" where
  "valid_hour h = (case h of [d] \<Rightarrow> is_digit d
     | [c, d] \<Rightarrow> (c \<in> set ''01'' \<and> is_digit d) \<or> (c = CHR ''2'' \<and> d \<in> set ''0123'')
     | _ \<Rightarrow> False)"

definition valid_minute :: "string \<Rightarrow> bool" where
  "valid_minute m = (case m of [c, d] \<Rightarrow> c \<in> set ''012345'' \<and> is_digit d | _ \<Rightarrow> False)"

definition valid_hhmm :: "json \<Rightarrow> bool" where
  "valid_hhmm v = (let s = strip (py_str (py_or v (JStr []))) in
     CHR '':'' \<in> set s \<and> valid_hour (before CHR '':'' s) \<and> valid_minute (after CHR '':'' s))"

definition clamp_interval :: "json \<Rightarrow> json" where
  "clamp_interval v = (case py_int v of Inr n \<Rightarrow> JInt (max 5 (min n 10080)) | Inl e \<Rightarrow> v)"

definition normalize_schedule ::
  "json dict \<Rightarrow> json dict \<Rightarrow> json dict \<times> warning list \<times> problem list"
where
  "normalize_schedule values base = (case normalize False SCHEDULE_SPEC values base of (out, ws, es) \<Rightarrow>
     let days = dget_or out ''days'' (JList []);
         known = filter (\<lambda>d. d \<in> set DAYS) (strs days);
         out1 = dset ''days'' (JList (map JStr (if known = [] then DAYS else fromkeys known))) out;
         at_v = dget_or out1 ''at'' JNull;
         out2 = dset ''interval_min'' (clamp_interval (dget_or out1 ''interval_min'' (JInt 360))) out1
     in (out2,
         ws @ (if length known \<noteq> length (as_csv days) then [IgnoringDays] else []),
         es @ (if dget_or out1 ''mode'' JNull \<in> {JStr ''daily'', JStr ''weekly''} \<and> \<not> valid_hhmm at_v
               then [TimeExpected at_v] else [])))"

section \<open>Well-typed settings\<close>

text \<open>
  The type discipline behind the untyped dictionaries: a value conforms to its table row when it has
  the kind of the row, lies within the bounds, is one of the choices, and is stripped of outer white
  space.
\<close>

definition in_bounds :: "int option \<Rightarrow> int option \<Rightarrow> rat \<Rightarrow> bool" where
  "in_bounds lo hi q = ((case lo of None \<Rightarrow> True | Some l \<Rightarrow> of_int l \<le> q) \<and>
     (case hi of None \<Rightarrow> True | Some h \<Rightarrow> q \<le> of_int h))"

fun is_token :: "json \<Rightarrow> bool" where
  "is_token (JStr s) = (s \<noteq> [] \<and> strip s = s)"
| "is_token _ = False"

definition conforms :: "spec_item \<Rightarrow> json \<Rightarrow> bool" where
  "conforms item v = (case s_kind item of
       KBool \<Rightarrow> is_bool v
     | KInt \<Rightarrow> (case v of JInt i \<Rightarrow> in_bounds (s_lo item) (s_hi item) (of_int i) | _ \<Rightarrow> False)
     | KFloat \<Rightarrow> (case v of JFloat (Finite q) \<Rightarrow> in_bounds (s_lo item) (s_hi item) q | _ \<Rightarrow> False)
     | KStr \<Rightarrow> (case v of JStr s \<Rightarrow> strip s = s | _ \<Rightarrow> False)
     | KCsv \<Rightarrow> (case v of JList xs \<Rightarrow> list_all is_token xs | _ \<Rightarrow> False)
     | KEnum \<Rightarrow> (case v of JStr s \<Rightarrow> s \<in> set (s_choices item) | _ \<Rightarrow> False))"

definition good_item :: "spec_item \<Rightarrow> bool" where
  "good_item item = (conforms item (s_default item) \<and>
     (numeric_kind (s_kind item) \<longrightarrow>
       (case (s_lo item, s_hi item) of (Some l, Some h) \<Rightarrow> l \<le> h | _ \<Rightarrow> False)))"

definition good_spec :: "spec \<Rightarrow> bool" where
  "good_spec spec = (distinct (map fst spec) \<and> list_all (\<lambda>ki. good_item (snd ki)) spec)"

definition wf_dict :: "spec \<Rightarrow> json dict \<Rightarrow> bool" where
  "wf_dict spec d = list_all (\<lambda>ki. case dget d (fst ki) of
     None \<Rightarrow> False | Some v \<Rightarrow> conforms (snd ki) v) spec"

lemma good_SETTINGS_SPEC: "good_spec SETTINGS_SPEC"
  by code_simp

lemma good_SCHEDULE_SPEC: "good_spec SCHEDULE_SPEC"
  by code_simp

lemma clamp_int_bounds:
  "l \<le> h \<Longrightarrow> l \<le> clamp_int (Some l) (Some h) n \<and> clamp_int (Some l) (Some h) n \<le> h"
  by (simp add: clamp_int_def)

lemma clamp_int_id: "l \<le> n \<Longrightarrow> n \<le> h \<Longrightarrow> clamp_int (Some l) (Some h) n = n"
  by (simp add: clamp_int_def)

lemma clamp_float_finite:
  "l \<le> h \<Longrightarrow> \<exists>q. clamp_float (Some l) (Some h) x = Finite q \<and> of_int l \<le> q \<and> q \<le> of_int h"
  using py_clamp_finite [of "of_int l" "of_int h" x] by (simp add: clamp_float_def)

lemma as_int_Inr: "as_int raw lo hi = Inr n \<Longrightarrow> \<exists>m. n = clamp_int lo hi m"
  by (auto simp: as_int_def Let_def rbind_eq_Inr split: if_splits)

lemma as_float_Inr: "as_float raw lo hi = Inr x \<Longrightarrow> \<exists>y. x = clamp_float lo hi y"
  by (auto simp: as_float_def split: if_splits option.splits)

lemma as_csv_tokens: "list_all is_token (map JStr (as_csv v))"
  by (auto simp: as_csv_def Let_def list_all_iff)

lemma coerce_conforms:
  assumes "good_item item" and "coerce item raw = Inr v"
  shows "conforms item v"
proof (cases "s_kind item")
  case KInt
  with assms(1) obtain l h where b: "s_lo item = Some l" "s_hi item = Some h" "l \<le> h"
    by (auto simp: good_item_def numeric_kind_def split: option.splits)
  from assms(2) KInt b obtain n where n: "as_int raw (Some l) (Some h) = Inr n" "v = JInt n"
    by (auto simp: coerce_def rbind_eq_Inr)
  then obtain m where "n = clamp_int (Some l) (Some h) m" using as_int_Inr by blast
  with clamp_int_bounds [OF b(3), of m] n(2) show ?thesis
    by (simp add: conforms_def KInt b in_bounds_def)
next
  case KFloat
  with assms(1) obtain l h where b: "s_lo item = Some l" "s_hi item = Some h" "l \<le> h"
    by (auto simp: good_item_def numeric_kind_def split: option.splits)
  from assms(2) KFloat b obtain x where x: "as_float raw (Some l) (Some h) = Inr x" "v = JFloat x"
    by (auto simp: coerce_def rbind_eq_Inr)
  then obtain y where "x = clamp_float (Some l) (Some h) y" using as_float_Inr by blast
  with clamp_float_finite [OF b(3), of y] x(2) show ?thesis
    by (auto simp: conforms_def KFloat b in_bounds_def)
next
  case KCsv
  with assms as_csv_tokens [of raw] show ?thesis
    by (auto simp: coerce_def conforms_def good_item_def split: if_splits)
qed (use assms in \<open>auto simp: coerce_def conforms_def good_item_def Let_def split: if_splits\<close>)

text \<open>A coercion fails only with the \<^verbatim>\<open>ValueError\<close> that \<open>normalize\<close> and \<open>env_defaults\<close> catch.\<close>

lemma coerce_error: "coerce item raw = Inl e \<Longrightarrow> \<exists>m. e = ValueError m"
  by (auto simp: coerce_def as_int_def as_float_def not_a_number_def Let_def rbind_eq_Inl
      split: kind.splits if_splits option.splits)

lemma wf_dictD:
  "wf_dict spec d \<Longrightarrow> (k, item) \<in> set spec \<Longrightarrow> \<exists>v. dget d k = Some v \<and> conforms item v"
  by (fastforce simp: wf_dict_def list_all_iff split: option.splits)

lemma wf_dictI:
  "(\<And>k item. (k, item) \<in> set spec \<Longrightarrow> \<exists>v. dget d k = Some v \<and> conforms item v) \<Longrightarrow> wf_dict spec d"
  by (fastforce simp: wf_dict_def list_all_iff split: option.splits)

lemma wf_dict_dset:
  assumes "wf_dict spec d" and "\<And>item. (k, item) \<in> set spec \<Longrightarrow> conforms item v"
  shows "wf_dict spec (dset k v d)"
  using assms by (auto intro!: wf_dictI dest: wf_dictD)

section \<open>Every stage keeps the types\<close>

lemma env_value_conforms: "good_item item \<Longrightarrow> conforms item (env_value environ pre (key, item))"
  by (auto simp: env_value_def good_item_def split: option.splits sum.splits intro: coerce_conforms)

lemma env_fold_dget:
  "distinct (map fst spec) \<Longrightarrow>
   dget (foldl (\<lambda>out ki. dset (fst ki) (env_value environ pre ki) out) d spec) k =
     (case map_of spec k of None \<Rightarrow> dget d k | Some item \<Rightarrow> Some (env_value environ pre (k, item)))"
proof (induction spec arbitrary: d)
  case Nil
  show ?case by simp
next
  case (Cons ki spec)
  obtain key item where ki: "ki = (key, item)" by (cases ki)
  from Cons.prems have "distinct (map fst spec)" and new: "map_of spec key = None"
    by (simp_all add: ki map_of_eq_None_iff)
  from Cons.IH [OF this(1), of "dset key (env_value environ pre ki) d"] new show ?case
    by (cases "map_of spec k") (auto simp: ki simp del: map_of_eq_Some_iff)
qed

lemma env_defaults_dget:
  "distinct (map fst spec) \<Longrightarrow> dget (env_defaults environ spec pre) k =
     map_option (\<lambda>item. env_value environ pre (k, item)) (map_of spec k)"
  by (simp add: env_defaults_def env_fold_dget split: option.splits)

lemma env_defaults_wf: "good_spec spec \<Longrightarrow> wf_dict spec (env_defaults environ spec pre)"
  by (auto intro!: wf_dictI env_value_conforms simp: env_defaults_dget good_spec_def list_all_iff)

text \<open>The value an override gives to a key, over the value that the base has for it.\<close>

definition override_value :: "spec_item \<Rightarrow> json option \<Rightarrow> json option \<Rightarrow> json option" where
  "override_value item given dflt = (case given of None \<Rightarrow> dflt
     | Some raw \<Rightarrow> (case coerce item raw of Inl e \<Rightarrow> dflt | Inr v \<Rightarrow> Some v))"

lemma norm_fold_dget:
  "distinct (map fst spec) \<Longrightarrow>
   dget (fst (foldl (norm_key values base) (d, ws) spec)) k =
     (case map_of spec k of None \<Rightarrow> dget d k
      | Some item \<Rightarrow> override_value item (dget values k) (dget d k))"
proof (induction spec arbitrary: d ws)
  case Nil
  show ?case by simp
next
  case (Cons ki spec)
  obtain key item where ki: "ki = (key, item)" by (cases ki)
  obtain d' ws' where st: "norm_key values base (d, ws) ki = (d', ws')" by (cases "norm_key values base (d, ws) ki")
  then have d': "dget d' k = (if k = key then override_value item (dget values k) (dget d k) else dget d k)"
    by (auto simp: norm_key_def ki override_value_def split: option.splits sum.splits)
  from Cons.prems have "distinct (map fst spec)" and new: "map_of spec key = None"
    by (simp_all add: ki map_of_eq_None_iff)
  from Cons.IH [OF this(1), of d' ws'] new d' st show ?case
    by (cases "map_of spec k") (auto simp: ki simp del: map_of_eq_Some_iff)
qed

lemma norm_keys_dget:
  "distinct (map fst spec) \<Longrightarrow> dget (fst (norm_keys spec values base)) k =
     (case map_of spec k of None \<Rightarrow> dget base k
      | Some item \<Rightarrow> override_value item (dget values k) (dget base k))"
  by (simp add: norm_keys_def norm_fold_dget)

lemma norm_keys_wf:
  assumes "good_spec spec" and "wf_dict spec base"
  shows "wf_dict spec (fst (norm_keys spec values base))"
proof (rule wf_dictI)
  fix k item
  assume k: "(k, item) \<in> set spec"
  with assms(1) have "map_of spec k = Some item" "good_item item"
    by (auto simp: good_spec_def list_all_iff)
  with wf_dictD [OF assms(2) k] assms(1)
  show "\<exists>v. dget (fst (norm_keys spec values base)) k = Some v \<and> conforms item v"
    by (auto simp: norm_keys_dget good_spec_def override_value_def coerce_conforms
        split: option.splits sum.splits)
qed

lemma distinct_SETTINGS_SPEC: "distinct (map fst SETTINGS_SPEC)"
  using good_SETTINGS_SPEC by (simp add: good_spec_def)

lemma distinct_SCHEDULE_SPEC: "distinct (map fst SCHEDULE_SPEC)"
  using good_SCHEDULE_SPEC by (simp add: good_spec_def)

lemma settings_rows [simp]:
  "map_of SETTINGS_SPEC ''protocols'' = Some (spec_csv [''tls12'', ''tls13''])"
  "map_of SETTINGS_SPEC ''domains'' = Some (spec_csv [''youtube.com''])"
  "map_of SETTINGS_SPEC ''queue'' = Some (spec_int 200 1 65535)"
  "map_of SETTINGS_SPEC ''workers'' = Some (spec_int 64 1 2048)"
  "map_of SETTINGS_SPEC ''profiles_per_instance'' = Some (spec_int 1024 1 65535)"
  by (simp_all add: SETTINGS_SPEC_def BCW_QUEUE_FIXED_def)

lemma schedule_rows [simp]:
  "map_of SCHEDULE_SPEC ''days'' = Some (spec_csv DAYS)"
  "map_of SCHEDULE_SPEC ''interval_min'' = Some (spec_int 360 5 10080)"
  "map_of SCHEDULE_SPEC ''mode'' = Some (spec_enum ''daily'' [''interval'', ''daily'', ''weekly''])"
  "map_of SCHEDULE_SPEC ''at'' = Some (spec_str ''04:00'')"
  by (simp_all add: SCHEDULE_SPEC_def)

lemma conforms_rows [simp]:
  "conforms (spec_csv ds) v \<longleftrightarrow> (\<exists>xs. v = JList xs \<and> list_all is_token xs)"
  "conforms (spec_int dv l h) v \<longleftrightarrow> (\<exists>i. v = JInt i \<and> l \<le> i \<and> i \<le> h)"
  "conforms (spec_str st) v \<longleftrightarrow> (\<exists>s. v = JStr s \<and> strip s = s)"
  "conforms (spec_enum st cs) v \<longleftrightarrow> (\<exists>s. v = JStr s \<and> s \<in> set cs)"
  by (auto simp: conforms_def spec_defs in_bounds_def split: json.splits)

lemma wf_row:
  "wf_dict spec d \<Longrightarrow> map_of spec k = Some item \<Longrightarrow> \<exists>v. dget d k = Some v \<and> conforms item v"
  by (auto dest: wf_dictD map_of_SomeD)

lemma wf_dset_row:
  "wf_dict spec d \<Longrightarrow> distinct (map fst spec) \<Longrightarrow> map_of spec k = Some item \<Longrightarrow> conforms item v \<Longrightarrow>
   wf_dict spec (dset k v d)"
  by (rule wf_dict_dset) auto

lemma tokens_map: "list_all is_token (map JStr xs) \<longleftrightarrow> (\<forall>x\<in>set xs. x \<noteq> [] \<and> strip x = x)"
  by (auto simp: list_all_iff)

lemma protocol_tokens: "\<forall>x\<in>set PROTOCOLS. x \<noteq> [] \<and> strip x = x"
  by code_simp

lemma day_tokens: "\<forall>x\<in>set DAYS. x \<noteq> [] \<and> strip x = x"
  by code_simp

lemma as_csv_members: "x \<in> set (as_csv v) \<Longrightarrow> x \<noteq> [] \<and> strip x = x"
  by (auto simp: as_csv_def Let_def)

lemma norm_protocols_wf:
  assumes "wf_dict SETTINGS_SPEC d"
  shows "wf_dict SETTINGS_SPEC (fst (norm_protocols d))"
  unfolding norm_protocols_def Let_def fst_conv
  by (rule wf_dset_row [OF assms distinct_SETTINGS_SPEC settings_rows(1)])
    (use protocol_tokens in \<open>auto simp: list_all_iff\<close>)

lemma norm_domains_wf:
  assumes "wf_dict SETTINGS_SPEC d"
  shows "wf_dict SETTINGS_SPEC (fst (norm_domains d))"
  unfolding norm_domains_def Let_def fst_conv
  by (rule wf_dset_row [OF assms distinct_SETTINGS_SPEC settings_rows(2)])
    (auto simp: list_all_iff dest: as_csv_members)

lemma norm_queue_wf:
  assumes "wf_dict SETTINGS_SPEC d"
  shows "wf_dict SETTINGS_SPEC (fst (norm_queue d))"
proof -
  have "wf_dict SETTINGS_SPEC (dset ''queue'' (JInt BCW_QUEUE_FIXED) d)"
    by (rule wf_dset_row [OF assms distinct_SETTINGS_SPEC settings_rows(3)])
      (simp add: BCW_QUEUE_FIXED_def)
  with assms show ?thesis by (simp add: norm_queue_def)
qed

text \<open>The stages of a full normalization, one after the other.\<close>

lemma normalize_settings_stages:
  "fst (normalize_settings values base) =
     fst (norm_queue (fst (norm_domains (fst (norm_protocols (fst (norm_keys SETTINGS_SPEC values base)))))))"
  by (simp add: normalize_def split: prod.splits)

lemma normalize_settings_problems:
  "snd (snd (normalize_settings values base)) =
     (let d = fst (norm_keys SETTINGS_SPEC values base); d1 = fst (norm_protocols d)
      in snd (snd (norm_protocols d)) @ snd (norm_domains d1) @ cross_errors (fst (norm_domains d1)))"
  by (simp add: normalize_def Let_def split: prod.splits)

section \<open>What a clean normalization means\<close>

text \<open>
  The contract of the harness with the engine it drives: a run may start only with settings of this
  form. It is stated on the resulting dictionary alone, without the rules that establish it.
\<close>

definition runnable :: "json dict \<Rightarrow> bool" where
  "runnable d = (
     (\<exists>ps. dget d ''protocols'' = Some (JList (map JStr ps)) \<and> ps \<noteq> [] \<and> distinct ps
        \<and> set ps \<subseteq> set PROTOCOLS) \<and>
     (\<exists>ds. dget d ''domains'' = Some (JList (map JStr ds)) \<and> ds \<noteq> [] \<and> distinct ds
        \<and> list_all valid_domain ds) \<and>
     (dget d ''grid'' = Some (JStr ''file'') \<longrightarrow> truthy (dget_or d ''grid_file'' JNull)) \<and>
     \<not> (truthy (dget_or d ''via'' JNull) \<and> truthy (dget_or d ''reference_via'' JNull)) \<and>
     startswith (py_str (dget_or d ''probe_path'' (JStr []))) ''/'' \<and>
     startswith (py_str (dget_or d ''identity_path'' (JStr []))) ''/'' \<and>
     \<not> json_gt (dget_or d ''workers'' JNull) (dget_or d ''profiles_per_instance'' JNull) \<and>
     dget d ''queue'' = Some (JInt BCW_QUEUE_FIXED))"

definition protocols_ok :: "json dict \<Rightarrow> bool" where
  "protocols_ok d = (\<exists>ps. dget d ''protocols'' = Some (JList (map JStr ps)) \<and> ps \<noteq> [] \<and> distinct ps
     \<and> set ps \<subseteq> set PROTOCOLS)"

definition domains_ok :: "json dict \<Rightarrow> bool" where
  "domains_ok d = (\<exists>ds. dget d ''domains'' = Some (JList (map JStr ds)) \<and> ds \<noteq> [] \<and> distinct ds
     \<and> list_all valid_domain ds)"

lemma inj_JStr [simp]: "inj JStr"
  by (simp add: inj_def)

lemma norm_protocols_ok: "snd (snd (norm_protocols d)) = [] \<longleftrightarrow> protocols_ok (fst (norm_protocols d))"
  by (auto simp: norm_protocols_def protocols_ok_def Let_def inj_map_eq_map)

lemma norm_domains_ok: "snd (norm_domains d) = [] \<longleftrightarrow> domains_ok (fst (norm_domains d))"
  by (auto simp: norm_domains_def domains_ok_def Let_def inj_map_eq_map list_all_iff filter_empty_conv)

lemma norm_queue_dget [simp]: "k \<noteq> ''queue'' \<Longrightarrow> dget (fst (norm_queue d)) k = dget d k"
  by (simp add: norm_queue_def)

lemma norm_domains_dget [simp]: "k \<noteq> ''domains'' \<Longrightarrow> dget (fst (norm_domains d)) k = dget d k"
  by (simp add: norm_domains_def Let_def)

lemma norm_protocols_dget [simp]: "k \<noteq> ''protocols'' \<Longrightarrow> dget (fst (norm_protocols d)) k = dget d k"
  by (simp add: norm_protocols_def Let_def)

lemma norm_queue_value [simp]: "dget (fst (norm_queue d)) ''queue'' = Some (JInt BCW_QUEUE_FIXED)"
  by (simp add: norm_queue_def dget_or_def split: option.splits)

lemma norm_queue_dget_or [simp]: "k \<noteq> ''queue'' \<Longrightarrow> dget_or (fst (norm_queue d)) k v = dget_or d k v"
  by (simp add: dget_or_def)

lemma cross_errors_ok:
  "cross_errors d = [] \<longleftrightarrow>
     (dget d ''grid'' = Some (JStr ''file'') \<longrightarrow> truthy (dget_or d ''grid_file'' JNull)) \<and>
     \<not> (truthy (dget_or d ''via'' JNull) \<and> truthy (dget_or d ''reference_via'' JNull)) \<and>
     startswith (py_str (dget_or d ''probe_path'' (JStr []))) ''/'' \<and>
     startswith (py_str (dget_or d ''identity_path'' (JStr []))) ''/'' \<and>
     \<not> json_gt (dget_or d ''workers'' JNull) (dget_or d ''profiles_per_instance'' JNull)"
  by (auto simp: cross_errors_def)

lemma normalize_settings_runnable:
  "snd (snd (normalize_settings values base)) = [] \<longleftrightarrow> runnable (fst (normalize_settings values base))"
proof -
  define d1 where "d1 = fst (norm_protocols (fst (norm_keys SETTINGS_SPEC values base)))"
  define d2 where "d2 = fst (norm_domains d1)"
  have out: "fst (normalize_settings values base) = fst (norm_queue d2)"
    by (simp add: normalize_settings_stages d1_def d2_def)
  have "snd (snd (normalize_settings values base)) = [] \<longleftrightarrow>
      protocols_ok d1 \<and> domains_ok d2 \<and> cross_errors d2 = []"
    by (simp add: normalize_settings_problems Let_def norm_protocols_ok norm_domains_ok
        flip: d1_def d2_def)
  moreover have "protocols_ok d1 \<longleftrightarrow> protocols_ok d2"
    by (simp add: protocols_ok_def d2_def)
  ultimately show ?thesis
    by (simp add: out runnable_def cross_errors_ok flip: protocols_ok_def domains_ok_def)
qed

lemma normalize_settings_wf:
  "wf_dict SETTINGS_SPEC base \<Longrightarrow> wf_dict SETTINGS_SPEC (fst (normalize_settings values base))"
  unfolding normalize_settings_stages
  by (intro norm_queue_wf norm_domains_wf norm_protocols_wf norm_keys_wf good_SETTINGS_SPEC)

lemma normalize_settings_dget:
  assumes "k \<notin> {''protocols'', ''domains'', ''queue''}" and "map_of SETTINGS_SPEC k = Some item"
  shows "dget (fst (normalize_settings values base)) k = override_value item (dget values k) (dget base k)"
  unfolding normalize_settings_stages
  using assms by (simp add: norm_keys_dget distinct_SETTINGS_SPEC del: map_of_eq_Some_iff)

abbreviation settings_env :: "(string \<Rightarrow> string option) \<Rightarrow> json dict" where
  "settings_env environ \<equiv> env_defaults environ SETTINGS_SPEC ''BCW_''"

abbreviation schedule_env :: "(string \<Rightarrow> string option) \<Rightarrow> json dict" where
  "schedule_env environ \<equiv> env_defaults environ SCHEDULE_SPEC ''BCW_SCHEDULE_''"

lemma settings_env_wf: "wf_dict SETTINGS_SPEC (settings_env environ)"
  by (rule env_defaults_wf [OF good_SETTINGS_SPEC])

lemma schedule_env_wf: "wf_dict SCHEDULE_SPEC (schedule_env environ)"
  by (rule env_defaults_wf [OF good_SCHEDULE_SPEC])

section \<open>Warnings\<close>

text \<open>The warnings of one table row do not depend on the rows before it.\<close>

definition key_warnings :: "json dict \<Rightarrow> json dict \<Rightarrow> string \<times> spec_item \<Rightarrow> warning list" where
  "key_warnings values base ki = (case dget values (fst ki) of None \<Rightarrow> []
     | Some raw \<Rightarrow> (case coerce (snd ki) raw of
          Inl e \<Rightarrow> [Keeping (fst ki) e (dget_or base (fst ki) JNull)]
        | Inr v \<Rightarrow> if numeric_kind (s_kind (snd ki)) then clamp_warning (fst ki) raw v else []))"

lemma norm_key_warnings: "snd (norm_key values base st ki) = snd st @ key_warnings values base ki"
  by (auto simp: norm_key_def key_warnings_def split: prod.splits option.splits sum.splits)

lemma norm_fold_warnings:
  "snd (foldl (norm_key values base) st spec) = snd st @ concat (map (key_warnings values base) spec)"
  by (induction spec arbitrary: st) (simp_all add: norm_key_warnings)

lemma norm_keys_warnings:
  "snd (norm_keys spec values base) = concat (map (key_warnings values base) spec)"
  by (simp add: norm_keys_def norm_fold_warnings)

lemma set_clamp_warning: "set (clamp_warning key raw v) \<subseteq> {Clamped key raw v}"
proof (cases "float_of_text (strip (py_str raw))")
  case (Some x)
  then show ?thesis
    by (cases x; cases "py_float v") (auto simp: clamp_warning_def split: pyfloat.split)
qed (simp add: clamp_warning_def)

lemma clamped_source:
  "Clamped k raw v \<in> set (key_warnings values base ki) \<Longrightarrow> fst ki = k \<and> dget values k = Some raw"
proof (cases "dget values (fst ki)")
  case (Some r)
  assume "Clamped k raw v \<in> set (key_warnings values base ki)"
  with Some show ?thesis
    using set_clamp_warning [THEN subsetD] by (cases "coerce (snd ki) r") (fastforce simp: key_warnings_def split: if_splits)+
qed (simp add: key_warnings_def)

lemma clamped_row:
  assumes "distinct (map fst spec)" and "(k, item) \<in> set spec"
  shows "Clamped k raw v \<in> set (snd (norm_keys spec values base)) \<longleftrightarrow>
    Clamped k raw v \<in> set (key_warnings values base (k, item))"
proof
  assume "Clamped k raw v \<in> set (snd (norm_keys spec values base))"
  then obtain ki where ki: "ki \<in> set spec" "Clamped k raw v \<in> set (key_warnings values base ki)"
    by (auto simp: norm_keys_warnings)
  with clamped_source [OF ki(2)] assms have "ki = (k, item)"
    by (metis eq_key_imp_eq_value prod.collapse)
  with ki(2) show "Clamped k raw v \<in> set (key_warnings values base (k, item))" by simp
qed (use assms(2) in \<open>auto simp: norm_keys_warnings\<close>)

lemma clamped_normalize:
  "Clamped k raw v \<in> set (fst (snd (normalize_settings values base))) \<longleftrightarrow>
   Clamped k raw v \<in> set (snd (norm_keys SETTINGS_SPEC values base))"
  by (auto simp: normalize_def unknown_settings_def norm_protocols_def norm_queue_def Let_def
      split: prod.splits if_splits)

lemma lower_digits: "list_all is_digit s \<Longrightarrow> lower s = s"
  by (auto simp: lower_def list_all_iff lower_char_def is_digit_def Let_def intro!: map_idI)

lemma digits_no_e: "list_all is_digit s \<Longrightarrow> CHR ''e'' \<notin> set s \<and> CHR ''.'' \<notin> set s \<and> CHR ''i'' \<notin> set s
  \<and> CHR ''n'' \<notin> set s"
  by (auto simp: list_all_iff is_digit_def ord_def)

lemma decimal_of_digits:
  assumes "s \<noteq> []" and "list_all is_digit s"
  shows "decimal_of_text s = Some (of_int (parse_digits s))"
  using assms by (simp add: decimal_of_text_def digits_no_e digit_run_digits scale10_def)

lemma show_pos_list: "0 \<le> n \<Longrightarrow> list_all is_digit (show_pos n)"
  using show_pos_digits by (simp add: list_all_iff)

lemma float_of_show_int: "float_of_text (show_int i) = Some (Finite (of_int i))"
proof -
  have words: "0 \<le> n \<Longrightarrow> show_pos n \<notin> {''inf'', ''infinity'', ''nan''}" for n
    using digits_no_e [OF show_pos_list [of n]] by auto
  show ?thesis
  proof (cases "i < 0")
    case True
    with words [of "- i"] show_pos_list [of "- i"] show ?thesis
      by (simp add: float_of_text_def strip_no_space [OF show_int_no_space] split_sign_show_int
          lower_digits decimal_of_digits)
  next
    case False
    with words [of i] show_pos_list [of i] show ?thesis
      by (simp add: float_of_text_def strip_no_space [OF show_int_no_space] split_sign_show_int
          lower_digits decimal_of_digits)
  qed
qed

lemma clamp_warning_int:
  "clamp_warning key (JInt n) (JInt m) = (if n = m then [] else [Clamped key (JInt n) (JInt m)])"
proof -
  have "strip (show_int n) = show_int n"
    by (rule strip_no_space [OF show_int_no_space])
  moreover have "\<bar>of_int n - of_int m\<bar> > (1 / 10 ^ 9 :: rat) \<longleftrightarrow> n \<noteq> m"
  proof
    assume "n \<noteq> m"
    then have "1 \<le> \<bar>n - m\<bar>" by simp
    then have "(1::rat) \<le> of_int \<bar>n - m\<bar>" by linarith
    then have "(1::rat) \<le> \<bar>of_int n - of_int m\<bar>" by simp
    moreover have "1 / 10 ^ 9 < (1::rat)" by simp
    ultimately show "\<bar>of_int n - of_int m\<bar> > (1 / 10 ^ 9 :: rat)" by linarith
  qed auto
  ultimately show ?thesis by (auto simp: clamp_warning_def float_of_show_int)
qed

lemma as_int_JInt: "\<bar>n\<bar> < 10 ^ 20 \<Longrightarrow> as_int (JInt n) lo hi = Inr (clamp_int lo hi n)"
  by (simp add: as_int_def Let_def strip_no_space [OF show_int_no_space] int_of_text_show_small)

lemma key_warnings_int:
  assumes "dget values k = Some (JInt n)" and "\<bar>n\<bar> < 10 ^ 20" and "s_kind item = KInt"
    and "s_lo item = Some l" and "s_hi item = Some h" and "l \<le> h"
  shows "(\<exists>raw v. Clamped k raw v \<in> set (key_warnings values base (k, item))) \<longleftrightarrow> n < l \<or> h < n"
  using assms
  by (auto simp: key_warnings_def coerce_def as_int_JInt numeric_kind_def clamp_warning_int clamp_int_def)

section \<open>Stability\<close>

definition stable_item :: "spec_item \<Rightarrow> bool" where
  "stable_item item = (case s_kind item of
       KInt \<Rightarrow> (case (s_lo item, s_hi item) of
           (Some l, Some h) \<Rightarrow> - (10 ^ 20) < l \<and> h < 10 ^ 20 | _ \<Rightarrow> False)
     | KEnum \<Rightarrow> list_all (\<lambda>c. lower (strip c) = c) (s_choices item)
     | _ \<Rightarrow> True)"

lemma stable_SETTINGS_SPEC: "list_all (\<lambda>ki. stable_item (snd ki)) SETTINGS_SPEC"
  by code_simp

lemma as_csv_tokens_id: "list_all is_token xs \<Longrightarrow> map JStr (as_csv (JList xs)) = xs"
proof -
  assume "list_all is_token xs"
  then have "\<forall>x\<in>set xs. \<exists>s. x = JStr s \<and> s \<noteq> [] \<and> strip s = s"
    by (auto simp: list_all_iff elim: is_token.elims)
  then show ?thesis
    by (induction xs) (auto simp: as_csv_def)
qed

lemma coerce_stable:
  assumes "conforms item v" and "stable_item item" and "s_kind item \<noteq> KFloat"
  shows "coerce item v = Inr v"
proof (cases "s_kind item")
  case KBool
  with assms(1) show ?thesis
    by (auto simp: conforms_def coerce_def as_bool_def elim: is_bool.elims)
next
  case KInt
  with assms(1) obtain i where i: "v = JInt i" "in_bounds (s_lo item) (s_hi item) (of_int i)"
    by (auto simp: conforms_def split: json.splits)
  from KInt assms(2) obtain l h where lh: "s_lo item = Some l" "s_hi item = Some h" "- (10 ^ 20) < l" "h < 10 ^ 20"
    by (auto simp: stable_item_def split: option.splits)
  with i(2) have i2: "l \<le> i" "i \<le> h" "\<bar>i\<bar> < 10 ^ 20" using lh by (auto simp: in_bounds_def abs_less_iff)
  with i(1) KInt lh(1,2) show ?thesis
    by (simp add: coerce_def as_int_JInt [OF i2(3)] clamp_int_id)
next
  case KCsv
  with assms(1) show ?thesis
    by (auto simp: conforms_def coerce_def as_csv_tokens_id split: json.splits)
next
  case KEnum
  with assms(1,2) show ?thesis
    by (auto simp: conforms_def coerce_def stable_item_def list_all_iff split: json.splits)
qed (use assms in \<open>auto simp: conforms_def coerce_def split: json.splits\<close>)

section \<open>The schedule block\<close>

lemma DAYS_ne [simp]: "DAYS \<noteq> []" and distinct_DAYS [simp]: "distinct DAYS"
  by (simp_all add: DAYS_def)

lemma chosen_days:
  assumes "ds = (if known = [] then DAYS else fromkeys known)" and "set known \<subseteq> set DAYS"
  shows "ds \<noteq> [] \<and> distinct ds \<and> set ds \<subseteq> set DAYS"
  using assms by simp

lemma clamp_interval_JInt [simp]: "clamp_interval (JInt n) = JInt (max 5 (min n 10080))"
  by (simp add: clamp_interval_def)

lemma norm_keys_schedule_wf:
  "wf_dict SCHEDULE_SPEC base \<Longrightarrow> wf_dict SCHEDULE_SPEC (fst (norm_keys SCHEDULE_SPEC values base))"
  by (rule norm_keys_wf [OF good_SCHEDULE_SPEC])

lemma normalize_schedule_shape:
  assumes "wf_dict SCHEDULE_SPEC base" and "normalize_schedule values base = (out, ws, es)"
  obtains d n ds where
    "d = fst (norm_keys SCHEDULE_SPEC values base)" "dget d ''interval_min'' = Some (JInt n)"
    "out = dset ''interval_min'' (JInt (max 5 (min n 10080))) (dset ''days'' (JList (map JStr ds)) d)"
    "ds \<noteq> [] \<and> distinct ds \<and> set ds \<subseteq> set DAYS" "5 \<le> n \<and> n \<le> 10080"
    "es = (if dget_or d ''mode'' JNull \<in> {JStr ''daily'', JStr ''weekly''} \<and> \<not> valid_hhmm (dget_or d ''at'' JNull)
           then [TimeExpected (dget_or d ''at'' JNull)] else [])"
proof -
  define d where "d = fst (norm_keys SCHEDULE_SPEC values base)"
  have wf: "wf_dict SCHEDULE_SPEC d" unfolding d_def by (rule norm_keys_schedule_wf [OF assms(1)])
  from wf_row [OF wf schedule_rows(2)] obtain n where n: "dget d ''interval_min'' = Some (JInt n)" "5 \<le> n \<and> n \<le> 10080"
    by auto
  define ds where "ds = (let known = filter (\<lambda>d. d \<in> set DAYS) (strs (dget_or d ''days'' (JList [])))
    in if known = [] then DAYS else fromkeys known)"
  have ds: "ds \<noteq> [] \<and> distinct ds \<and> set ds \<subseteq> set DAYS"
    unfolding ds_def Let_def by (rule chosen_days [OF refl]) auto
  from n assms(2) have
    "out = dset ''interval_min'' (JInt (max 5 (min n 10080))) (dset ''days'' (JList (map JStr ds)) d)"
    and "es = (if dget_or d ''mode'' JNull \<in> {JStr ''daily'', JStr ''weekly''} \<and> \<not> valid_hhmm (dget_or d ''at'' JNull)
           then [TimeExpected (dget_or d ''at'' JNull)] else [])"
    by (auto simp: normalize_schedule_def normalize_def d_def ds_def Let_def dget_or_def split: prod.splits)
  with n ds that d_def show ?thesis by blast
qed

lemma normalize_schedule_facts:
  assumes "wf_dict SCHEDULE_SPEC base" and "normalize_schedule values base = (out, ws, es)"
  shows "wf_dict SCHEDULE_SPEC out \<and>
    (\<exists>ds. dget out ''days'' = Some (JList (map JStr ds)) \<and> ds \<noteq> [] \<and> distinct ds \<and> set ds \<subseteq> set DAYS) \<and>
    (\<exists>n. dget out ''interval_min'' = Some (JInt n) \<and> 5 \<le> n \<and> n \<le> 10080) \<and>
    (es = [] \<longleftrightarrow> (dget_or out ''mode'' JNull \<in> {JStr ''daily'', JStr ''weekly''} \<longrightarrow>
       valid_hhmm (dget_or out ''at'' JNull)))"
proof -
  obtain d n ds where d: "d = fst (norm_keys SCHEDULE_SPEC values base)"
    and n: "dget d ''interval_min'' = Some (JInt n)" "5 \<le> n \<and> n \<le> 10080"
    and out: "out = dset ''interval_min'' (JInt (max 5 (min n 10080))) (dset ''days'' (JList (map JStr ds)) d)"
    and ds: "ds \<noteq> [] \<and> distinct ds \<and> set ds \<subseteq> set DAYS"
    and es: "es = (if dget_or d ''mode'' JNull \<in> {JStr ''daily'', JStr ''weekly''} \<and> \<not> valid_hhmm (dget_or d ''at'' JNull)
           then [TimeExpected (dget_or d ''at'' JNull)] else [])"
    using assms by (rule normalize_schedule_shape)
  have "wf_dict SCHEDULE_SPEC d" unfolding d by (rule norm_keys_schedule_wf [OF assms(1)])
  then have "wf_dict SCHEDULE_SPEC (dset ''days'' (JList (map JStr ds)) d)"
    by (rule wf_dset_row [OF _ distinct_SCHEDULE_SPEC schedule_rows(1)])
      (use ds day_tokens in \<open>auto simp: list_all_iff\<close>)
  then have "wf_dict SCHEDULE_SPEC out" unfolding out
    by (rule wf_dset_row [OF _ distinct_SCHEDULE_SPEC schedule_rows(2)]) (use n in auto)
  with out ds n es show ?thesis by auto
qed

section \<open>Properties\<close>

text \<open>
  Property C8. Whatever the environment holds, the defaults taken from it are a complete, well-typed
  settings block and a complete, well-typed schedule block: every key of the table is present with a
  value of its kind, inside its bounds and among its choices.
\<close>

theorem env_defaults_typed:
  "wf_dict SETTINGS_SPEC (settings_env environ) \<and> wf_dict SCHEDULE_SPEC (schedule_env environ)"
  using settings_env_wf schedule_env_wf by blast

text \<open>
  Property C7. Merging any override dictionary over a well-typed base gives a well-typed settings block:
  no override, whatever its JSON type, can put a value of a wrong type or out of bounds into the
  effective settings.
\<close>

theorem normalize_keeps_types:
  assumes "wf_dict SETTINGS_SPEC base"
  shows "wf_dict SETTINGS_SPEC (fst (normalize_settings values base))"
  by (rule normalize_settings_wf [OF assms])

theorem normalize_keeps_types_witness:
  "wf_dict SETTINGS_SPEC (fst (normalize_settings
     [(''workers'', JStr ''9999999''), (''dns'', JInt 3), (''domains'', JBool True), (''x'', JNull)]
     (settings_env (\<lambda>_. None))))"
  by (rule normalize_keeps_types) (rule settings_env_wf)

text \<open>
  Property C6. The error list of a full normalization is empty exactly when the settings it returns can be
  run: known protocols and valid domains without duplicates and at least one of each, a grid file
  when the grid is a file, not both exclusive gateways, absolute probe paths, no more workers than
  profiles per instance, and the fixed queue number.
\<close>

theorem normalize_clean_iff_runnable:
  "snd (snd (normalize_settings values base)) = [] \<longleftrightarrow> runnable (fst (normalize_settings values base))"
  by (rule normalize_settings_runnable)

text \<open>
  For every key outside the cross-field ones, the effective value is the coerced override
  when there is one that can be coerced, and the value of the base otherwise; other overrides have no
  influence on it.
\<close>

theorem normalize_override_semantics:
  assumes "map_of SETTINGS_SPEC k = Some item" and "k \<notin> {''protocols'', ''domains'', ''queue''}"
  shows "dget (fst (normalize_settings values base)) k =
    (case dget values k of None \<Rightarrow> dget base k
     | Some raw \<Rightarrow> (case coerce item raw of Inl e \<Rightarrow> dget base k | Inr v \<Rightarrow> Some v))"
  using normalize_settings_dget [OF assms(2,1)] by (simp only: override_value_def)

theorem normalize_override_semantics_witness:
  "dget (fst (normalize_settings [(''workers'', JStr ''many''), (''dns'', JStr '' DoH '')] [(''workers'', JInt 7)]))
     ''workers'' = Some (JInt 7)"
  by (subst normalize_override_semantics [of _ "spec_int 64 1 2048"])
    (simp add: SETTINGS_SPEC_def BCW_QUEUE_FIXED_def, simp, code_simp)

text \<open>
  An integer override is clamped into the bounds of its table row, and the operator is
  warned about the clamping exactly when the override lies outside the bounds.
\<close>

theorem normalize_clamps_and_warns:
  assumes "map_of SETTINGS_SPEC k = Some item" and "s_kind item = KInt" and "k \<noteq> ''queue''"
    and "s_lo item = Some l" and "s_hi item = Some h"
    and "dget values k = Some (JInt n)" and "\<bar>n\<bar> < 10 ^ 20"
  shows "dget (fst (normalize_settings values base)) k = Some (JInt (min h (max l n))) \<and>
    ((\<exists>raw v. Clamped k raw v \<in> set (fst (snd (normalize_settings values base)))) \<longleftrightarrow> n < l \<or> h < n)"
proof
  have mem: "(k, item) \<in> set SETTINGS_SPEC" using assms(1) by (rule map_of_SomeD)
  with good_SETTINGS_SPEC assms(2,4,5) have lh: "l \<le> h"
    by (fastforce simp: good_spec_def list_all_iff good_item_def numeric_kind_def)
  from assms have k: "k \<notin> {''protocols'', ''domains'', ''queue''}" by (auto simp: spec_defs)
  show "dget (fst (normalize_settings values base)) k = Some (JInt (min h (max l n)))"
    using assms by (simp only: normalize_settings_dget [OF k assms(1)])
      (simp add: override_value_def coerce_def as_int_JInt clamp_int_def)
  have "(\<exists>raw v. Clamped k raw v \<in> set (snd (norm_keys SETTINGS_SPEC values base))) \<longleftrightarrow>
      (\<exists>raw v. Clamped k raw v \<in> set (key_warnings values base (k, item)))"
    by (simp add: clamped_row [OF distinct_SETTINGS_SPEC mem])
  then show "(\<exists>raw v. Clamped k raw v \<in> set (fst (snd (normalize_settings values base)))) \<longleftrightarrow> n < l \<or> h < n"
    by (simp add: clamped_normalize key_warnings_int [OF assms(6,7,2,4,5) lh])
qed

theorem normalize_clamps_and_warns_witness:
  "dget (fst (normalize_settings [(''workers'', JInt 5000)] [])) ''workers'' = Some (JInt 2048) \<and>
   (\<exists>raw v. Clamped ''workers'' raw v \<in> set (fst (snd (normalize_settings [(''workers'', JInt 5000)] []))))"
  using normalize_clamps_and_warns [of "''workers''" "spec_int 64 1 2048" 1 2048 "[(''workers'', JInt 5000)]" 5000 "[]"]
  by (simp add: SETTINGS_SPEC_def BCW_QUEUE_FIXED_def) (simp add: spec_int_def)

text \<open>
  Effective settings are stable: given back as an override (as the settings form does), a
  well-typed value of a non-float key is kept as it is, over any base.
\<close>

theorem normalize_stable:
  assumes "map_of SETTINGS_SPEC k = Some item" and "s_kind item \<noteq> KFloat"
    and "k \<notin> {''protocols'', ''domains'', ''queue''}" and "dget values k = Some v" and "conforms item v"
  shows "dget (fst (normalize_settings values base)) k = Some v"
proof -
  have "stable_item item"
    using stable_SETTINGS_SPEC map_of_SomeD [OF assms(1)] by (auto simp: list_all_iff)
  from coerce_stable [OF assms(5) this assms(2)] assms(4) show ?thesis
    by (simp only: normalize_settings_dget [OF assms(3,1)]) (simp add: override_value_def)
qed

theorem normalize_stable_witness:
  "dget (fst (normalize_settings [(''take'', JInt 12)] [])) ''take'' = Some (JInt 12)"
  by (rule normalize_stable [of _ "spec_int 3 0 1000"])
    (simp add: SETTINGS_SPEC_def BCW_QUEUE_FIXED_def, simp add: spec_int_def, simp_all)

text \<open>
  An unusable override of an enumeration (here \<open>grid\<close>; \<open>dns\<close> behaves the same) is neither kept
  out with a warning, as a bad number is, nor replaced by the configured base value: it silently
  selects the built-in default.
\<close>

theorem bad_enum_override_resets:
  assumes "dget values ''grid'' = Some (JStr s)" and "lower (strip s) \<notin> set GRID_MODES"
  shows "dget (fst (normalize_settings values base)) ''grid'' = Some (JStr ''corpus'') \<and>
    key_warnings values base (''grid'', spec_enum ''corpus'' GRID_MODES) = []"
proof
  have row: "map_of SETTINGS_SPEC ''grid'' = Some (spec_enum ''corpus'' GRID_MODES)"
    by (simp add: SETTINGS_SPEC_def)
  show "dget (fst (normalize_settings values base)) ''grid'' = Some (JStr ''corpus'')"
    using assms by (simp add: normalize_settings_dget [OF _ row] override_value_def coerce_def spec_enum_def)
  show "key_warnings values base (''grid'', spec_enum ''corpus'' GRID_MODES) = []"
    using assms by (simp add: key_warnings_def coerce_def spec_enum_def numeric_kind_def)
qed

theorem bad_enum_override_resets_witness:
  "dget (fst (normalize_settings [(''grid'', JStr ''flie'')] [(''grid'', JStr ''file'')])) ''grid'' = Some (JStr ''corpus'')"
  using bad_enum_override_resets [of "[(''grid'', JStr ''flie'')]" "''flie''" "[(''grid'', JStr ''file'')]"]
  by (simp, code_simp)

text \<open>
  A normalized schedule is well-typed; its days are a non-empty selection of week days
  without repetition, its interval lies between five minutes and a week, and it is refused exactly
  when a daily or weekly mode has no usable time of day.
\<close>

theorem normalize_schedule_form:
  assumes "wf_dict SCHEDULE_SPEC base" and "normalize_schedule values base = (out, ws, es)"
  shows "wf_dict SCHEDULE_SPEC out \<and>
    (\<exists>ds. dget out ''days'' = Some (JList (map JStr ds)) \<and> ds \<noteq> [] \<and> distinct ds \<and> set ds \<subseteq> set DAYS) \<and>
    (\<exists>n. dget out ''interval_min'' = Some (JInt n) \<and> 5 \<le> n \<and> n \<le> 10080) \<and>
    (es = [] \<longleftrightarrow> (dget_or out ''mode'' JNull \<in> {JStr ''daily'', JStr ''weekly''} \<longrightarrow>
       valid_hhmm (dget_or out ''at'' JNull)))"
  by (rule normalize_schedule_facts [OF assms])

theorem normalize_schedule_form_witness:
  "wf_dict SCHEDULE_SPEC (fst (normalize_schedule
     [(''days'', JList [JStr ''sun'', JStr ''xx'', JStr ''sun'']), (''at'', JStr ''24:00'')] (schedule_env (\<lambda>_. None))))"
  using normalize_schedule_form [OF schedule_env_wf, of
      "[(''days'', JList [JStr ''sun'', JStr ''xx'', JStr ''sun'']), (''at'', JStr ''24:00'')]" "\<lambda>_. None"]
  by (metis prod.collapse)

end
