(* ===== verification/StateFiles.thy ===== *)
theory StateFiles
  imports Settings
begin

text \<open>
  \<^verbatim>\<open>src/blockcheck.py\<close>, state files: reading and atomic writing of JSON files over an explicit file
  store, and the load, save and reset of the settings and schedule overrides. The two pairs of
  functions share one contract, stated as a locale and interpreted on both.
\<close>

section \<open>The file store\<close>

text \<open>
  A file either parses as JSON or does not; a missing file is a path without content. What can go
  wrong while a file is written is an input of the model: the directory or the temporary file cannot
  be created, the dump breaks off after some text, or the final rename is refused.
\<close>

datatype content = Json json | Junk string

type_synonym store = "string \<Rightarrow> content option"

datatype fault = NoFault | MkdirFails | OpenFails | DumpFails string | ReplaceFails

definition os_join :: "string \<Rightarrow> string \<Rightarrow> string" where
  "os_join a b = (if startswith b ''/'' then b
     else if a = [] \<or> last a = CHR ''/'' then a @ b else a @ ''/'' @ b)"

definition read_json :: "store \<Rightarrow> string \<Rightarrow> json \<Rightarrow> json" where
  "read_json st path dflt = (case st path of Some (Json v) \<Rightarrow> v | _ \<Rightarrow> dflt)"

definition write_json :: "fault \<Rightarrow> string \<Rightarrow> json \<Rightarrow> store \<Rightarrow> store \<times> bool" where
  "write_json f path obj st = (let tmp = path @ ''.tmp'' in case f of
       NoFault \<Rightarrow> ((st(tmp := None))(path \<mapsto> Json obj), True)
     | MkdirFails \<Rightarrow> (st, False)
     | OpenFails \<Rightarrow> (st, False)
     | DumpFails written \<Rightarrow> (st(tmp \<mapsto> Junk written), False)
     | ReplaceFails \<Rightarrow> (st(tmp \<mapsto> Json obj), False))"

definition SETTINGS_FILE :: string where "SETTINGS_FILE = ''bcw_settings.json''"
definition SCHEDULE_FILE :: string where "SCHEDULE_FILE = ''bcw_schedule.json''"
definition LAST_RUN_FILE :: string where "LAST_RUN_FILE = ''bcw_last.json''"
definition JOB_FILE :: string where "JOB_FILE = ''bcw_job.json''"

definition state_path :: "string \<Rightarrow> string \<Rightarrow> string" where
  "state_path dir name = os_join dir name"

lemma write_json_target: "write_json f path obj st = (st', ok) \<Longrightarrow>
   st' path = (if ok then Some (Json obj) else st path)"
  by (auto simp: write_json_def Let_def split: fault.splits)

lemma write_json_ok: "write_json f path obj st = (st', ok) \<Longrightarrow> ok \<longleftrightarrow> f = NoFault"
  by (auto simp: write_json_def Let_def split: fault.splits)

lemma write_json_others:
  "write_json f path obj st = (st', ok) \<Longrightarrow> p \<noteq> path \<Longrightarrow> p \<noteq> path @ ''.tmp'' \<Longrightarrow> st' p = st p"
  by (auto simp: write_json_def Let_def split: fault.splits)

lemma write_json_read:
  "write_json f path obj st = (st', ok) \<Longrightarrow> read_json st' path d = (if ok then obj else read_json st path d)"
  by (simp add: read_json_def write_json_target)

section \<open>Override files\<close>

text \<open>
  \<open>read_json(path, {}) or {}\<close>. The program itself only ever writes dictionaries to these files; a file
  that somebody else filled with a list, a text or a number is outside the model (\<open>None\<close>).
\<close>

definition persisted :: "store \<Rightarrow> string \<Rightarrow> json dict option" where
  "persisted st path = (case py_or (read_json st path (JDict [])) (JDict []) of JDict d \<Rightarrow> Some d | _ \<Rightarrow> None)"

text \<open>The loop \<open>for key, value in values.items(): if key in SPEC: persisted[key] = value\<close>.\<close>

definition merge_known :: "spec \<Rightarrow> json dict \<Rightarrow> json dict \<Rightarrow> json dict" where
  "merge_known spec values d =
     foldl (\<lambda>out kv. if fst kv \<in> set (map fst spec) then dset (fst kv) (snd kv) out else out) d values"

type_synonym outcome = "json dict \<times> warning list \<times> problem list"

definition load_settings :: "string \<Rightarrow> (string \<Rightarrow> string option) \<Rightarrow> store \<Rightarrow> outcome option" where
  "load_settings dir environ st =
     (case persisted st (state_path dir SETTINGS_FILE) of None \<Rightarrow> None
      | Some d \<Rightarrow> Some (normalize_settings d (settings_env environ)))"

definition save_settings ::
  "fault \<Rightarrow> string \<Rightarrow> (string \<Rightarrow> string option) \<Rightarrow> json dict \<Rightarrow> store \<Rightarrow> (store \<times> outcome \<times> bool) option"
where
  "save_settings f dir environ values st =
     (case persisted st (state_path dir SETTINGS_FILE) of None \<Rightarrow> None
      | Some d0 \<Rightarrow> (let d = merge_known SETTINGS_SPEC values d0;
            res = normalize_settings d (settings_env environ)
          in if snd (snd res) \<noteq> [] then Some (st, res, False)
             else (case write_json f (state_path dir SETTINGS_FILE) (JDict d) st of
                     (st', ok) \<Rightarrow> Some (st', res, ok))))"

text \<open>\<open>os.unlink\<close> may fail; the failure is swallowed.\<close>

definition reset_settings ::
  "bool \<Rightarrow> string \<Rightarrow> (string \<Rightarrow> string option) \<Rightarrow> store \<Rightarrow> store \<times> json dict"
where
  "reset_settings unlink_ok dir environ st =
     ((if unlink_ok then st(state_path dir SETTINGS_FILE := None) else st), settings_env environ)"

definition load_schedule :: "string \<Rightarrow> (string \<Rightarrow> string option) \<Rightarrow> store \<Rightarrow> outcome option" where
  "load_schedule dir environ st =
     (case persisted st (state_path dir SCHEDULE_FILE) of None \<Rightarrow> None
      | Some d \<Rightarrow> Some (normalize_schedule d (schedule_env environ)))"

definition save_schedule ::
  "fault \<Rightarrow> string \<Rightarrow> (string \<Rightarrow> string option) \<Rightarrow> json dict \<Rightarrow> store \<Rightarrow> (store \<times> outcome \<times> bool) option"
where
  "save_schedule f dir environ values st =
     (case persisted st (state_path dir SCHEDULE_FILE) of None \<Rightarrow> None
      | Some d0 \<Rightarrow> (let d = merge_known SCHEDULE_SPEC values d0;
            res = normalize_schedule d (schedule_env environ)
          in if snd (snd res) \<noteq> [] then Some (st, res, False)
             else (case write_json f (state_path dir SCHEDULE_FILE) (JDict d) st of
                     (st', ok) \<Rightarrow> Some (st', res, ok))))"

lemma persisted_Some_iff:
  "persisted st path = Some d \<longleftrightarrow> py_or (read_json st path (JDict [])) (JDict []) = JDict d"
  by (auto simp: persisted_def split: json.splits)

lemma persisted_written:
  "write_json f path (JDict d) st = (st', ok) \<Longrightarrow> persisted st' path = (if ok then Some d else persisted st path)"
  by (simp add: persisted_def write_json_read py_or_def)

lemma persisted_absent: "st path = None \<Longrightarrow> persisted st path = Some []"
  by (simp add: persisted_def read_json_def py_or_def)

lemma persisted_cong: "st' path = st path \<Longrightarrow> persisted st' path = persisted st path"
  by (simp add: persisted_def read_json_def)

lemma merge_known_dget:
  "distinct (dkeys vs) \<Longrightarrow> dget (merge_known spec vs d) k =
     (if k \<in> set (map fst spec) \<and> k \<in> set (dkeys vs) then dget vs k else dget d k)"
proof (induction vs arbitrary: d)
  case Nil
  show ?case by (simp add: merge_known_def dkeys_def)
next
  case (Cons kv vs)
  obtain k' v where kv: "kv = (k', v)" by (cases kv)
  from Cons.prems have "distinct (dkeys vs)" by (simp add: dkeys_def)
  from Cons.IH [OF this] Cons.prems show ?case by (auto simp: merge_known_def dkeys_def kv)
qed

section \<open>The contract of an override file\<close>

text \<open>
  The client sees an override file through its load and save: both read the persisted dictionary and
  normalize it, a save merges the given values first, writes only a clean result, and reports whether
  it was written.
\<close>

locale override_file =
  fixes path :: string
    and norm :: "json dict \<Rightarrow> outcome"
    and merge :: "json dict \<Rightarrow> json dict \<Rightarrow> json dict"
    and load :: "store \<Rightarrow> outcome option"
    and save :: "fault \<Rightarrow> json dict \<Rightarrow> store \<Rightarrow> (store \<times> outcome \<times> bool) option"
  assumes load_eq: "load st = map_option norm (persisted st path)"
    and save_undefined: "persisted st path = None \<Longrightarrow> save f values st = None"
    and save_refused: "persisted st path = Some d \<Longrightarrow> snd (snd (norm (merge values d))) \<noteq> [] \<Longrightarrow>
      save f values st = Some (st, norm (merge values d), False)"
    and save_written: "persisted st path = Some d \<Longrightarrow> snd (snd (norm (merge values d))) = [] \<Longrightarrow>
      save f values st = (case write_json f path (JDict (merge values d)) st of
        (st', ok) \<Rightarrow> Some (st', norm (merge values d), ok))"
begin

lemma save_cases:
  assumes "save f values st = Some (st', res, ok)"
  obtains d where "persisted st path = Some d" "res = norm (merge values d)"
    "(snd (snd res) \<noteq> [] \<and> st' = st \<and> \<not> ok) \<or>
     (snd (snd res) = [] \<and> write_json f path (JDict (merge values d)) st = (st', ok))"
proof -
  from assms save_undefined obtain d where d: "persisted st path = Some d" by fastforce
  show ?thesis
  proof (cases "snd (snd (norm (merge values d))) = []")
    case True
    from save_written [OF d True, of f] assms d that True show ?thesis by (auto split: prod.splits)
  next
    case False
    from save_refused [OF d False, of f] assms d that False show ?thesis by auto
  qed
qed

lemma save_ok_iff:
  assumes "save f values st = Some (st', res, ok)"
  shows "ok \<longleftrightarrow> snd (snd res) = [] \<and> f = NoFault"
  using assms by (rule save_cases) (auto dest: write_json_ok)

lemma save_failed_unchanged:
  assumes "save f values st = Some (st', res, ok)" and "\<not> ok"
  shows "st' path = st path \<and> load st' = load st"
proof -
  have "st' path = st path"
    using assms(1) by (rule save_cases) (use assms(2) in \<open>auto dest: write_json_target\<close>)
  with persisted_cong [of st' path st] show ?thesis by (simp only: load_eq)
qed

lemma save_then_load:
  assumes "save f values st = Some (st', res, ok)" and "ok"
  shows "load st' = Some res"
  using assms(1) by (rule save_cases) (use assms(2) in \<open>auto simp: load_eq persisted_written\<close>)

lemma save_frame:
  assumes "save f values st = Some (st', res, ok)" and "p \<noteq> path" and "p \<noteq> path @ ''.tmp''"
  shows "st' p = st p"
  using assms(1) by (rule save_cases) (use assms(2,3) in \<open>auto dest: write_json_others\<close>)

lemma save_stays_readable:
  assumes "save f values st = Some (st', res, ok)"
  shows "persisted st' path \<noteq> None"
  using assms by (rule save_cases) (auto simp: persisted_written)

lemma save_persists:
  assumes "save f values st = Some (st', res, ok)" and "ok" and "persisted st path = Some d"
  shows "persisted st' path = Some (merge values d)"
  using assms(1) by (rule save_cases) (use assms(2,3) in \<open>auto simp: persisted_written\<close>)

text \<open>After any sequence of saves, refused and failed ones included, the file is still readable.\<close>

lemma saves_stay_readable:
  assumes "persisted st path \<noteq> None"
  shows "persisted (foldl (\<lambda>s fv. case save (fst fv) (snd fv) s of None \<Rightarrow> s | Some (s', _) \<Rightarrow> s') st ops) path
    \<noteq> None"
  using assms
proof (induction ops arbitrary: st)
  case Nil
  then show ?case by simp
next
  case (Cons fv ops)
  show ?case
  proof (cases "save (fst fv) (snd fv) st")
    case None
    with Cons show ?thesis by simp
  next
    case (Some r)
    obtain st' res ok where r: "r = (st', res, ok)" by (cases r)
    with Cons.IH [OF save_stays_readable [OF Some [unfolded r]]] Some show ?thesis by simp
  qed
qed

end

interpretation settings_file: override_file "state_path dir SETTINGS_FILE"
  "\<lambda>d. normalize_settings d (settings_env environ)" "merge_known SETTINGS_SPEC"
  "load_settings dir environ" "\<lambda>f. save_settings f dir environ"
  for dir environ
  by unfold_locales (auto simp: load_settings_def save_settings_def Let_def split: option.splits)

interpretation schedule_file: override_file "state_path dir SCHEDULE_FILE"
  "\<lambda>d. normalize_schedule d (schedule_env environ)" "merge_known SCHEDULE_SPEC"
  "load_schedule dir environ" "\<lambda>f. save_schedule f dir environ"
  for dir environ
  by unfold_locales (auto simp: load_schedule_def save_schedule_def Let_def split: option.splits)

lemmas store_defs = load_settings_def save_settings_def load_schedule_def save_schedule_def
  persisted_def read_json_def write_json_def state_path_def os_join_def

section \<open>Properties\<close>

text \<open>
  Property C5. Saving settings is all or nothing: the save succeeds exactly when the merged settings are
  clean and no fault hits the write; then a later load returns exactly what the save reported, and
  these settings are runnable; otherwise the settings file and what a load sees are as before. Every
  other file but the temporary one is left alone.
\<close>

theorem save_settings_all_or_nothing:
  assumes "save_settings f dir environ values st = Some (st', res, ok)"
  shows "(ok \<longleftrightarrow> snd (snd res) = [] \<and> f = NoFault) \<and>
    (ok \<longrightarrow> load_settings dir environ st' = Some res \<and> runnable (fst res)
      \<and> wf_dict SETTINGS_SPEC (fst res)) \<and>
    (\<not> ok \<longrightarrow> st' (state_path dir SETTINGS_FILE) = st (state_path dir SETTINGS_FILE)
      \<and> load_settings dir environ st' = load_settings dir environ st) \<and>
    (\<forall>p. p \<notin> {state_path dir SETTINGS_FILE, state_path dir SETTINGS_FILE @ ''.tmp''} \<longrightarrow> st' p = st p)"
proof (intro conjI impI allI)
  show iff: "ok \<longleftrightarrow> snd (snd res) = [] \<and> f = NoFault" by (rule settings_file.save_ok_iff [OF assms])
  obtain d where res: "res = normalize_settings d (settings_env environ)"
    using assms by (rule settings_file.save_cases)
  show "runnable (fst res)" if ok using that iff by (simp add: res normalize_settings_runnable)
  show "wf_dict SETTINGS_SPEC (fst res)"
    unfolding res by (rule normalize_settings_wf [OF settings_env_wf])
qed (use settings_file.save_then_load [OF assms] settings_file.save_failed_unchanged [OF assms]
    settings_file.save_frame [OF assms] in blast)+

theorem save_settings_all_or_nothing_witness:
  "\<exists>st' res. save_settings NoFault ''/s'' (\<lambda>_. None) [(''take'', JInt 4)] (\<lambda>_. None) = Some (st', res, True) \<and>
     load_settings ''/s'' (\<lambda>_. None) st' = Some res \<and> runnable (fst res)"
proof -
  have clean: "snd (snd (normalize_settings [(''take'', JInt 4)] (settings_env (\<lambda>_. None)))) = []"
    by code_simp
  have merged: "merge_known SETTINGS_SPEC [(''take'', JInt 4)] [] = [(''take'', JInt 4)]"
    by code_simp
  obtain st' where st': "save_settings NoFault ''/s'' (\<lambda>_. None) [(''take'', JInt 4)] (\<lambda>_. None) =
      Some (st', normalize_settings [(''take'', JInt 4)] (settings_env (\<lambda>_. None)), True)"
    using clean merged
    by (simp add: save_settings_def persisted_absent write_json_def Let_def)
  from save_settings_all_or_nothing [OF this] st' show ?thesis by auto
qed

text \<open>
  Saving a schedule is all or nothing in the same way, and never touches the settings file.
\<close>

theorem save_schedule_all_or_nothing:
  assumes "save_schedule f dir environ values st = Some (st', res, ok)"
  shows "(ok \<longleftrightarrow> snd (snd res) = [] \<and> f = NoFault) \<and>
    (ok \<longrightarrow> load_schedule dir environ st' = Some res) \<and>
    (\<not> ok \<longrightarrow> load_schedule dir environ st' = load_schedule dir environ st) \<and>
    load_settings dir environ st' = load_settings dir environ st"
proof (intro conjI impI)
  have "state_path dir SETTINGS_FILE \<noteq> state_path dir SCHEDULE_FILE"
    and "state_path dir SETTINGS_FILE \<noteq> state_path dir SCHEDULE_FILE @ ''.tmp''"
    by (simp_all add: state_path_def os_join_def SETTINGS_FILE_def SCHEDULE_FILE_def)
  from persisted_cong [of st' "state_path dir SETTINGS_FILE" st, OF schedule_file.save_frame [OF assms this]]
  show "load_settings dir environ st' = load_settings dir environ st"
    by (simp only: settings_file.load_eq)
qed (use schedule_file.save_then_load [OF assms] schedule_file.save_failed_unchanged [OF assms]
    schedule_file.save_ok_iff [OF assms] in blast)+

theorem save_schedule_all_or_nothing_witness:
  "\<exists>st' res. save_schedule NoFault ''/s'' (\<lambda>_. None) [(''at'', JStr ''5:30'')] (\<lambda>_. None) = Some (st', res, True) \<and>
     load_schedule ''/s'' (\<lambda>_. None) st' = Some res"
proof -
  have clean: "snd (snd (normalize_schedule [(''at'', JStr ''5:30'')] (schedule_env (\<lambda>_. None)))) = []"
    by code_simp
  have merged: "merge_known SCHEDULE_SPEC [(''at'', JStr ''5:30'')] [] = [(''at'', JStr ''5:30'')]"
    by code_simp
  obtain st' where st': "save_schedule NoFault ''/s'' (\<lambda>_. None) [(''at'', JStr ''5:30'')] (\<lambda>_. None) =
      Some (st', normalize_schedule [(''at'', JStr ''5:30'')] (schedule_env (\<lambda>_. None)), True)"
    using clean merged
    by (simp add: save_schedule_def persisted_absent write_json_def Let_def)
  from save_schedule_all_or_nothing [OF this] st' show ?thesis by auto
qed

text \<open>
  A save is a partial update: after a successful save the file holds, for every key of the
  settings table, the given value where one was given and the earlier override otherwise; keys outside
  the table are never written.
\<close>

theorem save_settings_partial_update:
  assumes "save_settings f dir environ values st = Some (st', res, True)"
    and "persisted st (state_path dir SETTINGS_FILE) = Some d" and "distinct (dkeys values)"
  shows "\<exists>d'. persisted st' (state_path dir SETTINGS_FILE) = Some d' \<and>
    (\<forall>k. dget d' k = (if k \<in> set (map fst SETTINGS_SPEC) \<and> k \<in> set (dkeys values)
       then dget values k else dget d k))"
  using settings_file.save_persists [OF assms(1) TrueI assms(2)] merge_known_dget [OF assms(3)] by blast

theorem save_settings_partial_update_witness:
  "\<exists>st' res d'. save_settings NoFault ''/s'' (\<lambda>_. None) [(''take'', JInt 4), (''evil'', JInt 1)]
       ((\<lambda>_. None)(state_path ''/s'' SETTINGS_FILE \<mapsto> Json (JDict [(''passes'', JInt 2)]))) = Some (st', res, True) \<and>
     persisted st' (state_path ''/s'' SETTINGS_FILE) = Some d' \<and>
     dget d' ''passes'' = Some (JInt 2) \<and> dget d' ''take'' = Some (JInt 4) \<and> dget d' ''evil'' = None"
proof -
  let ?v = "[(''take'', JInt 4), (''evil'', JInt 1)]"
  let ?st = "(\<lambda>_. None)(state_path ''/s'' SETTINGS_FILE \<mapsto> Json (JDict [(''passes'', JInt 2)]))"
  let ?d = "[(''passes'', JInt 2), (''take'', JInt 4)]"
  have merged: "merge_known SETTINGS_SPEC ?v [(''passes'', JInt 2)] = ?d"
    by code_simp
  have clean: "snd (snd (normalize_settings ?d (settings_env (\<lambda>_. None)))) = []"
    by code_simp
  have old: "persisted ?st (state_path ''/s'' SETTINGS_FILE) = Some [(''passes'', JInt 2)]"
    by (simp add: persisted_def read_json_def py_or_def)
  obtain st' where st': "save_settings NoFault ''/s'' (\<lambda>_. None) ?v ?st =
      Some (st', normalize_settings ?d (settings_env (\<lambda>_. None)), True)"
    using clean merged old by (simp add: save_settings_def write_json_def Let_def)
  from save_settings_partial_update [OF this old] obtain d' where
    "persisted st' (state_path ''/s'' SETTINGS_FILE) = Some d'"
    "\<forall>k. dget d' k = (if k \<in> set (map fst SETTINGS_SPEC) \<and> k \<in> set (dkeys ?v)
       then dget ?v k else dget [(''passes'', JInt 2)] k)"
    by (auto simp: dkeys_def)
  with st' show ?thesis
    by (intro exI [of _ st'] exI [of _ d'] exI conjI) (auto simp: dkeys_def SETTINGS_SPEC_def)
qed

text \<open>
  After a reset whose unlink went through, the settings that a load returns are those of
  the environment alone, whatever was saved before.
\<close>

theorem reset_settings_restores_env:
  "load_settings dir environ (fst (reset_settings True dir environ st)) =
     Some (normalize_settings [] (settings_env environ))"
  by (simp add: reset_settings_def settings_file.load_eq persisted_absent)

end
