(* ===== verification/Command.thy ===== *)
theory Command
  imports StateFiles
begin

text \<open>
  \<^verbatim>\<open>src/blockcheck.py\<close>, command lines: the arguments of the engine's \<open>scan\<close> and \<open>check\<close> commands
  for every domain of the settings, and the files of a run.
\<close>

section \<open>Reading settings\<close>

text \<open>
  \<open>settings[k]\<close> where a text is needed; the code would hand another type on to the process call, which
  refuses it. \<open>int(settings[k])\<close> where a number is needed.
\<close>

definition text_at :: "json dict \<Rightarrow> string \<Rightarrow> string result" where
  "text_at d k = (case dget d k of None \<Rightarrow> Inl (KeyError k) | Some (JStr s) \<Rightarrow> Inr s | Some v \<Rightarrow> Inl TypeError)"

definition int_at :: "json dict \<Rightarrow> string \<Rightarrow> int result" where
  "int_at d k = (case dget d k of None \<Rightarrow> Inl (KeyError k) | Some v \<Rightarrow> py_int v)"

fun text_item :: "json \<Rightarrow> string result" where
  "text_item (JStr s) = Inr s"
| "text_item v = Inl TypeError"

definition texts_at :: "json dict \<Rightarrow> string \<Rightarrow> string list result" where
  "texts_at d k = (case dget d k of None \<Rightarrow> Inl (KeyError k)
     | Some v \<Rightarrow> (case iter v of Inl e \<Rightarrow> Inl e | Inr xs \<Rightarrow> rmap text_item xs))"

section \<open>Command lines\<close>

text \<open>A command line is built from pieces; the first piece that raises ends it.\<close>

definition lit :: "string list \<Rightarrow> string list result" where
  "lit xs = Inr xs"

definition one :: "string result \<Rightarrow> string list result" where
  "one r = (case r of Inl e \<Rightarrow> Inl e | Inr s \<Rightarrow> Inr [s])"

definition num :: "int result \<Rightarrow> string list result" where
  "num r = (case r of Inl e \<Rightarrow> Inl e | Inr n \<Rightarrow> Inr [show_int n])"

definition cat_args :: "string list result list \<Rightarrow> string list result" where
  "cat_args ps = (case rmap (\<lambda>p. p) ps of Inl e \<Rightarrow> Inl e | Inr xss \<Rightarrow> Inr (concat xss))"

text \<open>An option that is only passed when its setting is not empty.\<close>

definition opt_arg :: "json dict \<Rightarrow> string \<Rightarrow> string \<Rightarrow> string list result" where
  "opt_arg d k flag = (if truthy (dget_or d k JNull)
     then (case text_at d k of Inl e \<Rightarrow> Inl e | Inr s \<Rightarrow> Inr [flag, s]) else Inr [])"

definition MIN_PROFILES_FOR_CHECK :: int where "MIN_PROFILES_FOR_CHECK = 8"

definition profiles_at :: "json dict \<Rightarrow> int result" where
  "profiles_at d = (case int_at d ''profiles_per_instance'' of Inl e \<Rightarrow> Inl e
     | Inr n \<Rightarrow> Inr (max MIN_PROFILES_FOR_CHECK n))"

definition global_args :: "json dict \<Rightarrow> int result option \<Rightarrow> string list result list" where
  "global_args settings workers = [one (text_at settings ''bin'')]
     @ (case workers of None \<Rightarrow> [] | Some w \<Rightarrow> [lit [''-w''], num w])
     @ [lit [''--profiles-per-instance''], num (profiles_at settings),
        lit [''--auto'', ''--no-conflict-cleanup''], opt_arg settings ''via'' ''--via'']"

definition scan_argv :: "json dict \<Rightarrow> string \<Rightarrow> string \<Rightarrow> string list result" where
  "scan_argv settings domain scan_out = cat_args (
     global_args settings (Some (int_at settings ''workers'')) @
     [lit [''scan'', ''-d'', domain, ''-p''],
      (case texts_at settings ''protocols'' of Inl e \<Rightarrow> Inl e | Inr ps \<Rightarrow> Inr [join '','' ps]),
      lit [''--dns''], one (text_at settings ''dns''),
      lit [''--timeout''], num (int_at settings ''scan_timeout''),
      lit [''--top''], num (int_at settings ''scan_top''), lit [''-o'', scan_out],
      opt_arg settings ''alive_via'' ''--alive-via'',
      (if dget settings ''grid'' = Some (JStr ''file'') then opt_arg settings ''grid_file'' ''--from-file''
       else lit [])])"

definition check_argv :: "json dict \<Rightarrow> string \<Rightarrow> string \<Rightarrow> string \<Rightarrow> string list result" where
  "check_argv settings domain scan_out check_out = cat_args (
     global_args settings None @
     [lit [''check'', ''--from-file'', scan_out, ''-d'', domain],
      lit [''--dns''], one (text_at settings ''dns''),
      lit [''--timeout''], num (int_at settings ''check_timeout''),
      lit [''--idle-ms''], num (int_at settings ''idle_ms''),
      lit [''--take''], num (int_at settings ''take''),
      lit [''--passes''], num (int_at settings ''passes''),
      lit [''--probe-path''], one (text_at settings ''probe_path''),
      lit [''--identity-path''], one (text_at settings ''identity_path''),
      lit [''-o'', check_out],
      opt_arg settings ''reference_via'' ''--reference-via''])"

section \<open>The files of a run\<close>

definition slug_char :: "char \<Rightarrow> bool" where
  "slug_char c = (is_lower_az c \<or> is_digit c)"

text \<open>\<^verbatim>\<open>re.sub("[^a-z0-9]+", "_", s)\<close>; the flag says that the current run already gave its underscore.\<close>

fun squeeze :: "bool \<Rightarrow> string \<Rightarrow> string" where
  "squeeze b [] = []"
| "squeeze b (c # s) = (if slug_char c then c # squeeze False s
     else if b then squeeze True s else CHR ''_'' # squeeze True s)"

definition slug :: "string \<Rightarrow> nat \<Rightarrow> string" where
  "slug t limit = (let s = take limit (strip_by (\<lambda>c. c = CHR ''_'') (squeeze False (lower t)))
     in if s = [] then ''x'' else s)"

record run_files =
  rf_domain :: string
  rf_scan_out :: string
  rf_check_out :: string
  rf_log :: string

definition run_paths :: "string \<Rightarrow> string \<Rightarrow> run_files" where
  "run_paths run_dir domain = (let base = slug domain 40 in
     \<lparr>rf_domain = domain, rf_scan_out = os_join run_dir (''scan_'' @ base @ ''.json''),
      rf_check_out = os_join run_dir (''check_'' @ base @ ''.json''),
      rf_log = os_join run_dir (''bcw_'' @ base @ ''.log'')\<rparr>)"

record run_plan = run_files +
  rp_scan :: "string list"
  rp_check :: "string list"

record full_plan =
  fp_bin :: json
  fp_queue :: json
  fp_home :: string
  fp_runs :: "run_plan list"

definition plan_domain :: "json dict \<Rightarrow> string \<Rightarrow> string \<Rightarrow> run_plan result" where
  "plan_domain settings run_dir domain = (let p = run_paths run_dir domain in
     case scan_argv settings domain (rf_scan_out p) of Inl e \<Rightarrow> Inl e
     | Inr sc \<Rightarrow> (case check_argv settings domain (rf_scan_out p) (rf_check_out p) of Inl e \<Rightarrow> Inl e
       | Inr ch \<Rightarrow> Inr \<lparr>rf_domain = domain, rf_scan_out = rf_scan_out p, rf_check_out = rf_check_out p,
           rf_log = rf_log p, rp_scan = sc, rp_check = ch\<rparr>))"

definition plan_runs :: "json dict \<Rightarrow> string \<Rightarrow> run_plan list result" where
  "plan_runs settings run_dir = (case texts_at settings ''domains'' of Inl e \<Rightarrow> Inl e
     | Inr ds \<Rightarrow> rmap (plan_domain settings run_dir) ds)"

definition plan :: "json dict \<Rightarrow> string \<Rightarrow> full_plan result" where
  "plan settings run_dir = (case plan_runs settings run_dir of Inl e \<Rightarrow> Inl e
     | Inr rs \<Rightarrow> (case (dget settings ''bin'', dget settings ''queue'') of
          (Some b, Some q) \<Rightarrow> Inr \<lparr>fp_bin = b, fp_queue = q, fp_home = os_join run_dir ''home'', fp_runs = rs\<rparr>
        | (None, _) \<Rightarrow> Inl (KeyError ''bin'') | _ \<Rightarrow> Inl (KeyError ''queue'')))"

lemmas piece_defs = lit_def one_def num_def opt_arg_def

lemma cat_args_Nil [simp]: "cat_args [] = Inr []"
  by (simp add: cat_args_def)

lemma cat_args_Cons [simp]:
  "cat_args (p # ps) = (case p of Inl e \<Rightarrow> Inl e | Inr xs \<Rightarrow>
     (case cat_args ps of Inl e \<Rightarrow> Inl e | Inr ys \<Rightarrow> Inr (xs @ ys)))"
  by (auto simp: cat_args_def rbind_def split: sum.split)

section \<open>Slugs\<close>

lemma squeeze_chars: "c \<in> set (squeeze b s) \<Longrightarrow> slug_char c \<or> c = CHR ''_''"
  by (induction b s rule: squeeze.induct) (auto split: if_splits)

lemma set_strip_by: "set (strip_by P s) \<subseteq> set s"
  by (auto simp: strip_by_def lstrip_def rstrip_def dest!: set_dropWhileD)

lemma slug_chars: "c \<in> set (slug t limit) \<Longrightarrow> slug_char c \<or> c = CHR ''_''"
  using set_strip_by squeeze_chars
  by (fastforce simp: slug_def Let_def slug_char_def is_lower_az_def ord_def split: if_splits dest: in_set_takeD)

lemma slug_length: "0 < limit \<Longrightarrow> 1 \<le> length (slug t limit) \<and> length (slug t limit) \<le> limit"
  by (auto simp: slug_def Let_def Suc_le_eq)

lemma slug_no_slash: "CHR ''/'' \<notin> set (slug t limit) \<and> CHR ''.'' \<notin> set (slug t limit)"
  using slug_chars [of "CHR ''/''" t limit] slug_chars [of "CHR ''.''" t limit]
  by (auto simp: slug_char_def is_lower_az_def is_digit_def ord_def)

section \<open>Command lines of well-typed settings\<close>

lemma text_rows:
  "map_of SETTINGS_SPEC ''bin'' = Some (spec_str BCW_BIN_DEFAULT)"
  "map_of SETTINGS_SPEC ''dns'' = Some (spec_enum ''auto'' DNS_MODES)"
  "map_of SETTINGS_SPEC ''via'' = Some (spec_str [])"
  "map_of SETTINGS_SPEC ''alive_via'' = Some (spec_str [])"
  "map_of SETTINGS_SPEC ''grid_file'' = Some (spec_str [])"
  "map_of SETTINGS_SPEC ''probe_path'' = Some (spec_str ''/'')"
  "map_of SETTINGS_SPEC ''identity_path'' = Some (spec_str ''/robots.txt'')"
  "map_of SETTINGS_SPEC ''reference_via'' = Some (spec_str [])"
  by (simp_all add: SETTINGS_SPEC_def)

lemma int_rows:
  "map_of SETTINGS_SPEC ''scan_timeout'' = Some (spec_int 0 0 3600)"
  "map_of SETTINGS_SPEC ''scan_top'' = Some (spec_int 5 0 1000)"
  "map_of SETTINGS_SPEC ''check_timeout'' = Some (spec_int 3 1 60)"
  "map_of SETTINGS_SPEC ''idle_ms'' = Some (spec_int 1000 100 60000)"
  "map_of SETTINGS_SPEC ''take'' = Some (spec_int 3 0 1000)"
  "map_of SETTINGS_SPEC ''passes'' = Some (spec_int 3 0 10)"
  by (simp_all add: SETTINGS_SPEC_def)

lemma wf_text:
  assumes "wf_dict SETTINGS_SPEC d" and "map_of SETTINGS_SPEC k = Some item" and "s_kind item \<in> {KStr, KEnum}"
  shows "\<exists>s. dget d k = Some (JStr s) \<and> text_at d k = Inr s"
  using wf_row [OF assms(1,2)] assms(3) by (auto simp: conforms_def text_at_def split: json.splits)

lemma wf_int:
  assumes "wf_dict SETTINGS_SPEC d" and "map_of SETTINGS_SPEC k = Some (spec_int v l h)"
  shows "\<exists>n. dget d k = Some (JInt n) \<and> int_at d k = Inr n \<and> l \<le> n \<and> n \<le> h"
  using wf_row [OF assms(1,2)] by (auto simp: int_at_def)

lemma rmap_text_item [simp]: "rmap text_item (map JStr xs) = Inr xs"
  by (induction xs) simp_all

lemma texts_at_list: "dget d k = Some (JList (map JStr xs)) \<Longrightarrow> texts_at d k = Inr xs"
  by (simp add: texts_at_def)

lemma spec_kinds [simp]: "s_kind (spec_str x) = KStr" "s_kind (spec_enum x cs) = KEnum"
  by (simp_all add: spec_str_def spec_enum_def)

text \<open>Command lines as a program name with flags and options that take a value.\<close>

fun flat_pairs :: "(string \<times> string) list \<Rightarrow> string list" where
  "flat_pairs [] = []"
| "flat_pairs ((k, v) # ps) = k # v # flat_pairs ps"

lemma flat_pairs_append [simp]: "flat_pairs (ps @ qs) = flat_pairs ps @ flat_pairs qs"
  by (induction ps rule: flat_pairs.induct) simp_all

definition opt_pair :: "string \<Rightarrow> string \<Rightarrow> (string \<times> string) list" where
  "opt_pair flag s = (if s = [] then [] else [(flag, s)])"

lemma opt_pair_simps [simp]:
  "fst ` set (opt_pair flag s) \<subseteq> {flag}" "(k, x) \<in> set (opt_pair flag s) \<longleftrightarrow> s \<noteq> [] \<and> k = flag \<and> x = s" "distinct (map fst (opt_pair flag s))"
  "map_of (opt_pair flag s) k = (if s \<noteq> [] \<and> k = flag then Some s else None)"
  "k \<in> fst ` set (opt_pair flag s) \<longleftrightarrow> s \<noteq> [] \<and> k = flag"
  by (auto simp: opt_pair_def)

lemma wf_opt_pair:
  assumes "wf_dict SETTINGS_SPEC d" and "map_of SETTINGS_SPEC k = Some (spec_str x)"
  shows "\<exists>s. dget d k = Some (JStr s) \<and> (\<forall>flag. opt_arg d k flag = Inr (flat_pairs (opt_pair flag s)))"
  using wf_text [OF assms] by (auto simp: opt_arg_def spec_str_def opt_pair_def dget_or_def)

text \<open>
  What the engine requires of a planned domain. Options carry the values of the settings: a text, a number
  within its bounds, or nothing when the setting is empty.
\<close>

definition carries_text :: "json dict \<Rightarrow> (string \<times> string) list \<Rightarrow> string \<Rightarrow> string \<Rightarrow> bool" where
  "carries_text d os opt k = (\<exists>s. map_of os opt = Some s \<and> dget d k = Some (JStr s))"

definition carries_num :: "json dict \<Rightarrow> (string \<times> string) list \<Rightarrow> string \<Rightarrow> string \<Rightarrow> int \<Rightarrow> int \<Rightarrow> bool" where
  "carries_num d os opt k lo hi = (\<exists>n. map_of os opt = Some (show_int n) \<and> dget d k = Some (JInt n) \<and> lo \<le> n \<and> n \<le> hi)"

definition carries_given :: "json dict \<Rightarrow> (string \<times> string) list \<Rightarrow> string \<Rightarrow> string \<Rightarrow> bool" where
  "carries_given d os opt k = (if truthy (dget_or d k JNull) then carries_text d os opt k else map_of os opt = None)"

definition only_options :: "string list \<Rightarrow> (string \<times> string) list \<Rightarrow> bool" where
  "only_options names os = (distinct (map fst os) \<and> set (map fst os) \<subseteq> set names)"

text \<open>The options behind \<open>scan\<close> and behind \<open>check\<close>; neither has a place for the number of workers.\<close>

definition scan_contract :: "json dict \<Rightarrow> string \<Rightarrow> string \<Rightarrow> (string \<times> string) list \<Rightarrow> bool" where
  "scan_contract d domain scan_out os =
     (only_options [''-d'', ''-p'', ''--dns'', ''--timeout'', ''--top'', ''-o'', ''--alive-via'', ''--from-file''] os \<and>
      map_of os ''-d'' = Some domain \<and> map_of os ''-o'' = Some scan_out \<and>
      (\<exists>ps. dget d ''protocols'' = Some (JList (map JStr ps)) \<and> map_of os ''-p'' = Some (join '','' ps)) \<and>
      carries_text d os ''--dns'' ''dns'' \<and> carries_num d os ''--timeout'' ''scan_timeout'' 0 3600 \<and>
      carries_num d os ''--top'' ''scan_top'' 0 1000 \<and> carries_given d os ''--alive-via'' ''alive_via'' \<and>
      (if dget d ''grid'' = Some (JStr ''file'') then carries_given d os ''--from-file'' ''grid_file''
       else map_of os ''--from-file'' = None))"

definition check_contract :: "json dict \<Rightarrow> string \<Rightarrow> string \<Rightarrow> string \<Rightarrow> (string \<times> string) list \<Rightarrow> bool" where
  "check_contract d domain scan_out check_out os =
     (only_options [''--from-file'', ''-d'', ''--dns'', ''--timeout'', ''--idle-ms'', ''--take'', ''--passes'',
        ''--probe-path'', ''--identity-path'', ''-o'', ''--reference-via''] os \<and>
      map_of os ''--from-file'' = Some scan_out \<and> map_of os ''-d'' = Some domain \<and> map_of os ''-o'' = Some check_out \<and>
      carries_text d os ''--dns'' ''dns'' \<and> carries_num d os ''--timeout'' ''check_timeout'' 1 60 \<and>
      carries_num d os ''--idle-ms'' ''idle_ms'' 100 60000 \<and> carries_num d os ''--take'' ''take'' 0 1000 \<and>
      carries_num d os ''--passes'' ''passes'' 0 10 \<and> carries_text d os ''--probe-path'' ''probe_path'' \<and>
      carries_text d os ''--identity-path'' ''identity_path'' \<and> carries_given d os ''--reference-via'' ''reference_via'')"

text \<open>
  Both commands as a whole: embedded mode stands before the subcommand, the scan has no more workers than
  profiles, the check no worker option at all and at least eight profiles, every other option stands once
  with its value, and the two exclusive gateways are never both passed.
\<close>

definition engine_accepts :: "json dict \<Rightarrow> run_plan \<Rightarrow> bool" where
  "engine_accepts d r = (\<exists>b w n via so co.
     dget d ''bin'' = Some (JStr b) \<and> dget d ''workers'' = Some (JInt w) \<and> dget d ''profiles_per_instance'' = Some (JInt n) \<and>
     1 \<le> w \<and> w \<le> n \<and>
     rp_scan r = [b, ''-w'', show_int w, ''--profiles-per-instance'', show_int (max 8 n), ''--auto'', ''--no-conflict-cleanup'']
       @ flat_pairs via @ [''scan''] @ flat_pairs so \<and>
     rp_check r = [b, ''--profiles-per-instance'', show_int (max 8 n), ''--auto'', ''--no-conflict-cleanup'']
       @ flat_pairs via @ [''check''] @ flat_pairs co \<and>
     only_options [''--via''] via \<and> carries_given d via ''--via'' ''via'' \<and>
     scan_contract d (rf_domain r) (rf_scan_out r) so \<and>
     check_contract d (rf_domain r) (rf_scan_out r) (rf_check_out r) co \<and>
     \<not> (map_of via ''--via'' \<noteq> None \<and> map_of co ''--reference-via'' \<noteq> None))"

lemma global_args_shape:
  assumes "text_at d ''bin'' = Inr b" and "int_at d ''workers'' = Inr w" and "profiles_at d = Inr p"
    and "opt_arg d ''via'' ''--via'' = Inr v"
  shows "cat_args (global_args d (Some (int_at d ''workers'')) @ rest) = (case cat_args rest of Inl e \<Rightarrow> Inl e | Inr xs \<Rightarrow>
      Inr ([b, ''-w'', show_int w, ''--profiles-per-instance'', show_int p, ''--auto'', ''--no-conflict-cleanup''] @ v @ xs))"
    and "cat_args (global_args d None @ rest) = (case cat_args rest of Inl e \<Rightarrow> Inl e | Inr xs \<Rightarrow>
      Inr ([b, ''--profiles-per-instance'', show_int p, ''--auto'', ''--no-conflict-cleanup''] @ v @ xs))"
  using assms by (simp_all add: global_args_def piece_defs(1-3) split: sum.splits)

lemma scan_argv_shape:
  assumes wf: "wf_dict SETTINGS_SPEC d" and ps: "dget d ''protocols'' = Some (JList (map JStr ps))"
    and b: "text_at d ''bin'' = Inr b" and w: "int_at d ''workers'' = Inr w" and p: "profiles_at d = Inr p"
    and v: "opt_arg d ''via'' ''--via'' = Inr v"
  shows "\<exists>so. scan_argv d dm out =
    Inr ([b, ''-w'', show_int w, ''--profiles-per-instance'', show_int p, ''--auto'', ''--no-conflict-cleanup'']
      @ v @ [''scan''] @ flat_pairs so) \<and> scan_contract d dm out so"
proof -
  obtain dns where 1: "text_at d ''dns'' = Inr dns" "dget d ''dns'' = Some (JStr dns)" using wf_text [OF wf text_rows(2)] by auto
  obtain st where 2: "int_at d ''scan_timeout'' = Inr st" "dget d ''scan_timeout'' = Some (JInt st)" "0 \<le> st" "st \<le> 3600"
    using wf_int [OF wf int_rows(1)] by auto
  obtain top where 3: "int_at d ''scan_top'' = Inr top" "dget d ''scan_top'' = Some (JInt top)" "0 \<le> top" "top \<le> 1000"
    using wf_int [OF wf int_rows(2)] by auto
  obtain av where 4: "dget d ''alive_via'' = Some (JStr av)" "\<And>flag. opt_arg d ''alive_via'' flag = Inr (flat_pairs (opt_pair flag av))"
    using wf_opt_pair [OF wf text_rows(4)] by blast
  obtain gf where 5: "dget d ''grid_file'' = Some (JStr gf)" "\<And>flag. opt_arg d ''grid_file'' flag = Inr (flat_pairs (opt_pair flag gf))"
    using wf_opt_pair [OF wf text_rows(5)] by blast
  define grid where "grid = (if dget d ''grid'' = Some (JStr ''file'') then opt_pair ''--from-file'' gf else [])"
  define so where "so = [(''-d'', dm), (''-p'', join '','' ps), (''--dns'', dns), (''--timeout'', show_int st),
    (''--top'', show_int top), (''-o'', out)] @ opt_pair ''--alive-via'' av @ grid"
  have grid: "set (map fst grid) \<subseteq> {''--from-file''}" "distinct (map fst grid)"
    "\<And>k. map_of grid k = (if dget d ''grid'' = Some (JStr ''file'') \<and> gf \<noteq> [] \<and> k = ''--from-file'' then Some gf else None)"
    by (auto simp: grid_def)
  have "scan_argv d dm out =
      Inr ([b, ''-w'', show_int w, ''--profiles-per-instance'', show_int p, ''--auto'', ''--no-conflict-cleanup'']
      @ v @ [''scan''] @ flat_pairs so)"
    unfolding scan_argv_def global_args_shape [OF b w p v]
    using 1 2 3 4 5 texts_at_list [OF ps] by (simp add: piece_defs(1-3) so_def grid_def)
  moreover have "only_options [''-d'', ''-p'', ''--dns'', ''--timeout'', ''--top'', ''-o'', ''--alive-via'', ''--from-file''] so"
    using grid(1,2) by (auto simp: only_options_def so_def)
  moreover have "scan_contract d dm out so" if "only_options [''-d'', ''-p'', ''--dns'', ''--timeout'', ''--top'', ''-o'', ''--alive-via'', ''--from-file''] so"
    using that 1 2 3 4 5 ps
    by (auto simp: scan_contract_def so_def carries_text_def carries_num_def carries_given_def map_add_def grid(3) dget_or_def)
  ultimately show ?thesis by blast
qed

lemma check_argv_shape:
  assumes wf: "wf_dict SETTINGS_SPEC d"
    and b: "text_at d ''bin'' = Inr b" and w: "int_at d ''workers'' = Inr w" and p: "profiles_at d = Inr p"
    and v: "opt_arg d ''via'' ''--via'' = Inr v"
  shows "\<exists>co. check_argv d dm scan_out out =
    Inr ([b, ''--profiles-per-instance'', show_int p, ''--auto'', ''--no-conflict-cleanup''] @ v @ [''check''] @ flat_pairs co) \<and>
    check_contract d dm scan_out out co"
proof -
  obtain dns where 1: "text_at d ''dns'' = Inr dns" "dget d ''dns'' = Some (JStr dns)" using wf_text [OF wf text_rows(2)] by auto
  obtain ct where 2: "int_at d ''check_timeout'' = Inr ct" "dget d ''check_timeout'' = Some (JInt ct)" "1 \<le> ct" "ct \<le> 60"
    using wf_int [OF wf int_rows(3)] by auto
  obtain im where 3: "int_at d ''idle_ms'' = Inr im" "dget d ''idle_ms'' = Some (JInt im)" "100 \<le> im" "im \<le> 60000"
    using wf_int [OF wf int_rows(4)] by auto
  obtain tk where 4: "int_at d ''take'' = Inr tk" "dget d ''take'' = Some (JInt tk)" "0 \<le> tk" "tk \<le> 1000"
    using wf_int [OF wf int_rows(5)] by auto
  obtain pa where 5: "int_at d ''passes'' = Inr pa" "dget d ''passes'' = Some (JInt pa)" "0 \<le> pa" "pa \<le> 10"
    using wf_int [OF wf int_rows(6)] by auto
  obtain pp where 6: "text_at d ''probe_path'' = Inr pp" "dget d ''probe_path'' = Some (JStr pp)" using wf_text [OF wf text_rows(6)] by auto
  obtain ip where 7: "text_at d ''identity_path'' = Inr ip" "dget d ''identity_path'' = Some (JStr ip)" using wf_text [OF wf text_rows(7)] by auto
  obtain rv where 8: "dget d ''reference_via'' = Some (JStr rv)" "\<And>flag. opt_arg d ''reference_via'' flag = Inr (flat_pairs (opt_pair flag rv))"
    using wf_opt_pair [OF wf text_rows(8)] by blast
  define co where "co = [(''--from-file'', scan_out), (''-d'', dm), (''--dns'', dns), (''--timeout'', show_int ct),
    (''--idle-ms'', show_int im), (''--take'', show_int tk), (''--passes'', show_int pa), (''--probe-path'', pp),
    (''--identity-path'', ip), (''-o'', out)] @ opt_pair ''--reference-via'' rv"
  have "check_argv d dm scan_out out =
      Inr ([b, ''--profiles-per-instance'', show_int p, ''--auto'', ''--no-conflict-cleanup''] @ v @ [''check''] @ flat_pairs co)"
    unfolding check_argv_def global_args_shape [OF b w p v]
    using 1 2 3 4 5 6 7 8 by (simp add: piece_defs(1-3) co_def)
  moreover have "only_options [''--from-file'', ''-d'', ''--dns'', ''--timeout'', ''--idle-ms'', ''--take'', ''--passes'',
      ''--probe-path'', ''--identity-path'', ''-o'', ''--reference-via''] co"
    by (auto simp: only_options_def co_def)
  moreover have "check_contract d dm scan_out out co" if "only_options [''--from-file'', ''-d'', ''--dns'', ''--timeout'', ''--idle-ms'', ''--take'',
      ''--passes'', ''--probe-path'', ''--identity-path'', ''-o'', ''--reference-via''] co"
    using that 1 2 3 4 5 6 7 8
    by (auto simp: check_contract_def co_def carries_text_def carries_num_def carries_given_def map_add_def dget_or_def)
  ultimately show ?thesis by blast
qed

definition files_of :: "string \<Rightarrow> run_plan \<Rightarrow> bool" where
  "files_of run_dir r = (let p = run_paths run_dir (rf_domain r) in
     rf_scan_out r = rf_scan_out p \<and> rf_check_out r = rf_check_out p \<and> rf_log r = rf_log p)"

lemma plan_domain_accepted:
  assumes wf: "wf_dict SETTINGS_SPEC d" and run: "runnable d"
  shows "\<exists>r. plan_domain d run_dir dm = Inr r \<and> rf_domain r = dm \<and> files_of run_dir r \<and> engine_accepts d r"
proof -
  obtain ps where ps: "dget d ''protocols'' = Some (JList (map JStr ps))"
    using run by (auto simp: runnable_def)
  obtain b where b: "dget d ''bin'' = Some (JStr b)" "text_at d ''bin'' = Inr b" using wf_text [OF wf text_rows(1)] by auto
  obtain w where w: "dget d ''workers'' = Some (JInt w)" "int_at d ''workers'' = Inr w" "1 \<le> w"
    using wf_int [OF wf settings_rows(4)] by auto
  obtain n where n: "dget d ''profiles_per_instance'' = Some (JInt n)" "int_at d ''profiles_per_instance'' = Inr n"
    using wf_int [OF wf settings_rows(5)] by auto
  have "w \<le> n" using run w(1) n(1) by (auto simp: runnable_def dget_or_def)
  have p: "profiles_at d = Inr (max 8 n)" using n(2) by (simp add: profiles_at_def MIN_PROFILES_FOR_CHECK_def)
  obtain v where v: "dget d ''via'' = Some (JStr v)" "opt_arg d ''via'' ''--via'' = Inr (flat_pairs (opt_pair ''--via'' v))"
    using wf_opt_pair [OF wf text_rows(3)] by blast
  let ?p = "run_paths run_dir dm"
  obtain so where so: "scan_argv d dm (rf_scan_out ?p) =
      Inr ([b, ''-w'', show_int w, ''--profiles-per-instance'', show_int (max 8 n), ''--auto'', ''--no-conflict-cleanup'']
      @ flat_pairs (opt_pair ''--via'' v) @ [''scan''] @ flat_pairs so)" "scan_contract d dm (rf_scan_out ?p) so"
    using scan_argv_shape [OF wf ps b(2) w(2) p v(2)] by blast
  obtain co where co: "check_argv d dm (rf_scan_out ?p) (rf_check_out ?p) =
      Inr ([b, ''--profiles-per-instance'', show_int (max 8 n), ''--auto'', ''--no-conflict-cleanup'']
      @ flat_pairs (opt_pair ''--via'' v) @ [''check''] @ flat_pairs co)" "check_contract d dm (rf_scan_out ?p) (rf_check_out ?p) co"
    using check_argv_shape [OF wf b(2) w(2) p v(2)] by blast
  define r where "r = \<lparr>rf_domain = dm, rf_scan_out = rf_scan_out ?p, rf_check_out = rf_check_out ?p, rf_log = rf_log ?p,
    rp_scan = [b, ''-w'', show_int w, ''--profiles-per-instance'', show_int (max 8 n), ''--auto'', ''--no-conflict-cleanup'']
      @ flat_pairs (opt_pair ''--via'' v) @ [''scan''] @ flat_pairs so,
    rp_check = [b, ''--profiles-per-instance'', show_int (max 8 n), ''--auto'', ''--no-conflict-cleanup'']
      @ flat_pairs (opt_pair ''--via'' v) @ [''check''] @ flat_pairs co\<rparr>"
  have "plan_domain d run_dir dm = Inr r" by (simp add: plan_domain_def Let_def so(1) co(1) r_def)
  moreover have "engine_accepts d r"
    unfolding engine_accepts_def
  proof (intro exI conjI)
    show "only_options [''--via''] (opt_pair ''--via'' v)" by (simp add: only_options_def)
    show "carries_given d (opt_pair ''--via'' v) ''--via'' ''via''"
      using v(1) by (simp add: carries_given_def carries_text_def dget_or_def)
    show "\<not> (map_of (opt_pair ''--via'' v) ''--via'' \<noteq> None \<and> map_of co ''--reference-via'' \<noteq> None)"
      using run co(2) v(1) by (auto simp: runnable_def check_contract_def carries_given_def dget_or_def split: if_splits)
  qed (use b(1) w n(1) \<open>w \<le> n\<close> so(2) co(2) in \<open>simp_all add: r_def\<close>)
  ultimately show ?thesis by (intro exI [of _ r]) (simp add: r_def files_of_def Let_def)
qed

lemma plan_runnable:
  assumes wf: "wf_dict SETTINGS_SPEC d" and run: "runnable d"
  shows "\<exists>ds rs. dget d ''domains'' = Some (JList (map JStr ds)) \<and> plan_runs d run_dir = Inr rs \<and> map rf_domain rs = ds \<and>
    (\<forall>r\<in>set rs. files_of run_dir r \<and> engine_accepts d r)"
proof -
  obtain ds where ds: "dget d ''domains'' = Some (JList (map JStr ds))"
    using run by (auto simp: runnable_def)
  define f where "f dm = (SOME r. plan_domain d run_dir dm = Inr r \<and> rf_domain r = dm \<and> files_of run_dir r \<and> engine_accepts d r)" for dm
  have f: "plan_domain d run_dir dm = Inr (f dm) \<and> rf_domain (f dm) = dm \<and> files_of run_dir (f dm) \<and> engine_accepts d (f dm)" for dm
    unfolding f_def by (rule someI_ex) (rule plan_domain_accepted [OF wf run])
  then have "rmap (plan_domain d run_dir) ds = Inr (map f ds)" by (intro rmap_total) auto
  with ds f show ?thesis
    by (intro exI [of _ ds] exI [of _ "map f ds"]) (auto simp: plan_runs_def texts_at_list comp_def)
qed

lemma os_join_inj:
  "\<not> startswith a ''/'' \<Longrightarrow> \<not> startswith b ''/'' \<Longrightarrow> os_join dir a = os_join dir b \<longleftrightarrow> a = b"
  by (simp add: os_join_def)

section \<open>Properties\<close>

text \<open>
  Property C12. Settings that normalize without an error give a complete plan: one entry per configured
  domain, in their order, with the files of its domain, and each entry satisfies the engine's contract
  as a whole: embedded mode is requested before the subcommand of both commands, the scan has at most as many
  workers as profiles, the check has no worker option anywhere and at least eight profiles, behind
  the subcommand stand the options of that subcommand only, each once, with the values of the settings within their
  bounds, the check reads the file that the scan of the same domain writes and writes another one, and the
  two exclusive gateways are never both passed.
\<close>

theorem plan_meets_engine_contract:
  assumes "wf_dict SETTINGS_SPEC base" and "normalize_settings values base = (d, ws, [])"
  shows "\<exists>ds p. dget d ''domains'' = Some (JList (map JStr ds)) \<and>
    plan d run_dir = Inr p \<and> fp_queue p = JInt BCW_QUEUE_FIXED \<and> dget d ''bin'' = Some (fp_bin p) \<and>
    map rf_domain (fp_runs p) = ds \<and> (\<forall>r\<in>set (fp_runs p). files_of run_dir r \<and> engine_accepts d r)"
proof -
  have wf: "wf_dict SETTINGS_SPEC d"
    using normalize_settings_wf [OF assms(1), of "values"] assms(2) by simp
  have run: "runnable d"
    using normalize_settings_runnable [of "values" base] assms(2) by simp
  obtain ds rs where "dget d ''domains'' = Some (JList (map JStr ds))"
    "plan_runs d run_dir = Inr rs" "map rf_domain rs = ds" "\<forall>r\<in>set rs. files_of run_dir r \<and> engine_accepts d r"
    using plan_runnable [OF wf run] by blast
  moreover obtain b where "dget d ''bin'' = Some (JStr b)" using wf_text [OF wf text_rows(1)] by auto
  moreover have "dget d ''queue'' = Some (JInt BCW_QUEUE_FIXED)" using run by (simp add: runnable_def)
  ultimately show ?thesis by (simp add: plan_def)
qed

theorem plan_meets_engine_contract_witness:
  "\<exists>d p. fst (normalize_settings [(''domains'', JStr ''youtube.com, x.com'')] (settings_env (\<lambda>_. None))) = d \<and>
    plan d ''/runs/1'' = Inr p \<and> map rf_domain (fp_runs p) = [''youtube.com'', ''x.com'']"
proof -
  let ?n = "normalize_settings [(''domains'', JStr ''youtube.com, x.com'')] (settings_env (\<lambda>_. None))"
  have clean: "snd (snd ?n) = []" and ds: "dget (fst ?n) ''domains'' = Some (JList [JStr ''youtube.com'', JStr ''x.com''])"
    by code_simp+
  obtain d ws where n: "?n = (d, ws, [])" using clean by (metis prod.collapse)
  from plan_meets_engine_contract [OF settings_env_wf n, of "''/runs/1''"] ds n show ?thesis by auto
qed

text \<open>
  Property C13. Whatever text the domain is, the files of its run are three different files directly in
  the run directory: the part of the name that comes from the domain is not empty, at most 40
  characters long, and has no slash and no dot.
\<close>

theorem run_files_confined:
  "\<exists>b. 1 \<le> length b \<and> length b \<le> 40 \<and> list_all (\<lambda>c. slug_char c \<or> c = CHR ''_'') b \<and>
    CHR ''/'' \<notin> set b \<and> CHR ''.'' \<notin> set b \<and>
    rf_scan_out (run_paths run_dir domain) = os_join run_dir (''scan_'' @ b @ ''.json'') \<and>
    rf_check_out (run_paths run_dir domain) = os_join run_dir (''check_'' @ b @ ''.json'') \<and>
    rf_log (run_paths run_dir domain) = os_join run_dir (''bcw_'' @ b @ ''.log'') \<and>
    distinct [rf_scan_out (run_paths run_dir domain), rf_check_out (run_paths run_dir domain),
      rf_log (run_paths run_dir domain)]"
  using slug_length [of 40 domain] slug_no_slash [of domain 40] slug_chars [of _ domain 40]
  by (intro exI [of _ "slug domain 40"]) (simp add: run_paths_def Let_def os_join_inj list_all_iff)

text \<open>
  The file names do not identify the domain: two different valid domains of one run can
  share all their files, so the second run of the engine reads or overwrites those of the first.
\<close>

theorem run_files_collide:
  "\<exists>d1 d2. d1 \<noteq> d2 \<and> valid_domain d1 \<and> valid_domain d2 \<and>
    rf_scan_out (run_paths run_dir d1) = rf_scan_out (run_paths run_dir d2) \<and>
    rf_check_out (run_paths run_dir d1) = rf_check_out (run_paths run_dir d2)"
proof -
  have "slug ''a-b.com'' 40 = slug ''a.b.com'' 40" "valid_domain ''a-b.com''" "valid_domain ''a.b.com''"
    by code_simp+
  then show ?thesis
    by (intro exI [of _ "''a-b.com''"] exI [of _ "''a.b.com''"]) (simp add: run_paths_def Let_def)
qed

end
