(* ===== verification/Report.thy ===== *)
theory Report
  imports StateFiles "HOL-Library.Product_Lexorder"
begin

text \<open>
  \<^verbatim>\<open>src/blockcheck.py\<close>, reports: normalizing the engine's scan and check reports, the filter against
  false positives, the best-first ranking, and the split of the checked rows into accepted and refused.
\<close>

section \<open>Rows and reports\<close>

record scan_row =
  sr_protocol :: string
  sr_args :: string
  sr_coverage :: int

record scan_report =
  sc_domain :: string
  sc_block_type :: string
  sc_dns_spoofed :: bool
  sc_blocked :: "json list"
  sc_total :: int
  sc_working :: int
  sc_strategies :: "scan_row list"

record check_row =
  cr_protocol :: string
  cr_args :: string
  cr_coverage :: int
  cr_working :: bool
  cr_success_rate :: pyfloat
  cr_passes_ok :: int
  cr_passes_total :: int
  cr_median_share :: "pyfloat option"
  cr_median_latency_ms :: int
  cr_median_speed_kbps :: pyfloat
  cr_longest_silence_ms :: json
  cr_observed :: string
  cr_admits :: "string list"

record check_report =
  ck_domain :: string
  ck_total :: int
  ck_working :: int
  ck_elapsed_secs :: pyfloat
  ck_inconclusive :: bool
  ck_strategies :: "check_row list"

section \<open>Parsing\<close>

text \<open>\<open>str(d.get(k, ""))\<close>, \<open>int(d.get(k, v) or v)\<close> and \<open>float(d.get(k, 0.0) or 0.0)\<close>.\<close>

definition get_text :: "json dict \<Rightarrow> string \<Rightarrow> string" where
  "get_text d k = py_str (dget_or d k (JStr []))"

definition get_int :: "json dict \<Rightarrow> string \<Rightarrow> int \<Rightarrow> int result" where
  "get_int d k v = py_int (py_or (dget_or d k (JInt v)) (JInt v))"

definition get_float :: "json dict \<Rightarrow> string \<Rightarrow> pyfloat result" where
  "get_float d k = py_float (py_or (dget_or d k (JFloat (Finite 0))) (JFloat (Finite 0)))"

text \<open>\<open>for item in d.get(k) or []\<close>.\<close>

definition get_items :: "json dict \<Rightarrow> string \<Rightarrow> json list result" where
  "get_items d k = iter (py_or (dget_or d k JNull) (JList []))"

text \<open>The items that are not skipped: dictionaries with arguments.\<close>

definition usable_item :: "json \<Rightarrow> bool" where
  "usable_item v = (is_dict v \<and> truthy (dget_or (as_dict v) ''args'' JNull))"

definition scan_row_of :: "json \<Rightarrow> scan_row result" where
  "scan_row_of v = (let d = as_dict v in rbind (get_int d ''coverage'' 1) (\<lambda>c.
     Inr \<lparr>sr_protocol = get_text d ''protocol'', sr_args = get_text d ''args'', sr_coverage = c\<rparr>))"

definition median_share :: "json dict \<Rightarrow> pyfloat option result" where
  "median_share d = (if dget_or d ''median_share'' JNull = JNull then Inr None
     else rbind (py_float (dget_or d ''median_share'' JNull)) (\<lambda>x. Inr (Some x)))"

definition check_row_of :: "json \<Rightarrow> check_row result" where
  "check_row_of v = (let d = as_dict v in
     rbind (get_int d ''coverage'' 1) (\<lambda>cov.
     rbind (get_float d ''success_rate'') (\<lambda>rate.
     rbind (get_int d ''passes_ok'' 0) (\<lambda>pok.
     rbind (get_int d ''passes_total'' 0) (\<lambda>ptotal.
     rbind (median_share d) (\<lambda>share.
     rbind (get_int d ''median_latency_ms'' 0) (\<lambda>lat.
     rbind (get_float d ''median_speed_kbps'') (\<lambda>speed.
     rbind (get_items d ''admits'') (\<lambda>adm.
     Inr \<lparr>cr_protocol = get_text d ''protocol'', cr_args = get_text d ''args'', cr_coverage = cov,
       cr_working = truthy (dget_or d ''working'' (JBool False)), cr_success_rate = rate,
       cr_passes_ok = pok, cr_passes_total = ptotal, cr_median_share = share,
       cr_median_latency_ms = lat, cr_median_speed_kbps = speed,
       cr_longest_silence_ms = dget_or d ''longest_silence_ms'' JNull,
       cr_observed = get_text d ''observed'', cr_admits = map py_str adm\<rparr>)))))))))"

text \<open>
  A report that is itself a text is parsed first; \<open>loads\<close> is the parser of the standard library
  (\<open>None\<close>: not JSON). A value that is not a report gives \<open>None\<close>; an unusable number inside a report
  raises.
\<close>

definition report_dict :: "(string \<Rightarrow> json option) \<Rightarrow> json \<Rightarrow> json dict option" where
  "report_dict loads data = (let v = (case data of JStr s \<Rightarrow> (case loads s of None \<Rightarrow> JNull | Some w \<Rightarrow> w) | _ \<Rightarrow> data)
     in case v of JDict d \<Rightarrow> if ''strategies'' \<in> set (dkeys d) then Some d else None | _ \<Rightarrow> None)"

definition parse_scan_report :: "(string \<Rightarrow> json option) \<Rightarrow> json \<Rightarrow> scan_report option result" where
  "parse_scan_report loads data = (case report_dict loads data of None \<Rightarrow> Inr None
     | Some d \<Rightarrow>
       rbind (get_items d ''strategies'') (\<lambda>items.
       rbind (rmap scan_row_of (filter usable_item items)) (\<lambda>rows.
       rbind (get_items d ''blocked'') (\<lambda>bl.
       rbind (get_int d ''total'' 0) (\<lambda>t.
       rbind (get_int d ''working'' 0) (\<lambda>w.
       Inr (Some \<lparr>sc_domain = get_text d ''domain'', sc_block_type = get_text d ''block_type'',
         sc_dns_spoofed = truthy (dget_or d ''dns_spoofed'' (JBool False)), sc_blocked = bl,
         sc_total = t, sc_working = w, sc_strategies = rows\<rparr>)))))))"

definition parse_check_report :: "(string \<Rightarrow> json option) \<Rightarrow> json \<Rightarrow> check_report option result" where
  "parse_check_report loads data = (case report_dict loads data of None \<Rightarrow> Inr None
     | Some d \<Rightarrow>
       rbind (get_items d ''strategies'') (\<lambda>items.
       rbind (rmap check_row_of (filter usable_item items)) (\<lambda>rows.
       rbind (get_int d ''total'' 0) (\<lambda>t.
       rbind (get_int d ''working'' 0) (\<lambda>w.
       rbind (get_float d ''elapsed_secs'') (\<lambda>el.
       Inr (Some \<lparr>ck_domain = get_text d ''domain'', ck_total = t, ck_working = w, ck_elapsed_secs = el,
         ck_inconclusive = truthy (dget_or d ''inconclusive'' (JBool False)), ck_strategies = rows\<rparr>)))))))"

definition read_report :: "store \<Rightarrow> string \<Rightarrow> json" where
  "read_report st path = read_json st path JNull"

section \<open>The filter and the ranking\<close>

datatype reason = Mirage | Observed string | NoReference | ShareBelow pyfloat pyfloat

definition min_share :: "json dict \<Rightarrow> pyfloat result" where
  "min_share settings = py_float (py_or (dget_or settings ''min_share'' (JFloat (Finite 0))) (JFloat (Finite 0)))"

definition only_mirage :: "check_row \<Rightarrow> bool" where
  "only_mirage row = (cr_admits row = [''Mirage''])"

definition filter_reason :: "json dict \<Rightarrow> check_row \<Rightarrow> reason option result" where
  "filter_reason settings row = (if \<not> cr_working row then
       (if only_mirage row then Inr (Some Mirage)
        else Inr (Some (Observed (if cr_observed row = [] then ''not working'' else cr_observed row))))
     else if truthy (dget_or settings ''exclude_mirage'' JNull) \<and> only_mirage row then Inr (Some Mirage)
     else (case min_share settings of Inl e \<Rightarrow> Inl e
       | Inr m \<Rightarrow> if \<not> py_less (Finite 0) m then Inr None
         else (case cr_median_share row of None \<Rightarrow> Inr (Some NoReference)
           | Some s \<Rightarrow> if py_less s m then Inr (Some (ShareBelow s m)) else Inr None)))"

fun times100 :: "pyfloat \<Rightarrow> pyfloat" where
  "times100 (Finite q) = Finite (q * 100)"
| "times100 x = x"

definition reason_text :: "reason \<Rightarrow> string" where
  "reason_text r = (case r of Mirage \<Rightarrow> ''mirage (authenticity refuted)'' | Observed s \<Rightarrow> s
     | NoReference \<Rightarrow> ''no volume reference (--reference-via needed to judge share)''
     | ShareBelow s m \<Rightarrow> ''delivered '' @ format_0f (times100 s) @ ''% of the reference volume (< ''
         @ format_0f (times100 m) @ ''%)'')"

text \<open>
  The key tuple of \<open>rank\<close>; tuples are compared component by component. The order of floats is the
  library's, which differs from the code's only when a rate or a share is NaN.
\<close>

definition rank_key :: "check_row \<Rightarrow> int \<times> pyfloat \<times> pyfloat \<times> int" where
  "rank_key r = (if cr_working r then 0 else 1, py_neg (cr_success_rate r),
     py_neg (case cr_median_share r of None \<Rightarrow> Finite 0 | Some s \<Rightarrow> s), cr_median_latency_ms r)"

definition rank :: "check_row list \<Rightarrow> check_row list" where
  "rank rows = sort_key rank_key rows"

fun select_go :: "json dict \<Rightarrow> check_row list \<Rightarrow> (check_row list \<times> (check_row \<times> reason) list) result" where
  "select_go settings [] = Inr ([], [])"
| "select_go settings (row # rows) = (case filter_reason settings row of Inl e \<Rightarrow> Inl e
     | Inr reason \<Rightarrow> (case select_go settings rows of Inl e \<Rightarrow> Inl e
       | Inr (acc, ref) \<Rightarrow> Inr (case reason of None \<Rightarrow> (row # acc, ref) | Some r \<Rightarrow> (acc, (row, r) # ref))))"

definition select_working :: "check_row list \<Rightarrow> json dict \<Rightarrow> (check_row list \<times> (check_row \<times> reason) list) result" where
  "select_working rows settings = select_go settings (rank rows)"

interpretation best_first: ranking rank_key rank
  by unfold_locales (rule rank_def)

section \<open>Facts about the split\<close>

lemma select_go_split:
  "select_go settings rows = Inr (acc, ref) \<Longrightarrow>
     acc = filter (\<lambda>r. filter_reason settings r = Inr None) rows \<and>
     map fst ref = filter (\<lambda>r. filter_reason settings r \<noteq> Inr None) rows \<and>
     list_all (\<lambda>(r, w). filter_reason settings r = Inr (Some w)) ref"
  by (induction rows arbitrary: acc ref) (auto split: sum.splits option.splits)

lemma filter_reason_total:
  "min_share settings = Inr m \<Longrightarrow> \<exists>w. filter_reason settings row = Inr w"
  by (auto simp: filter_reason_def split: option.splits)

lemma select_go_total:
  assumes "min_share settings = Inr m"
  shows "\<exists>acc ref. select_go settings rows = Inr (acc, ref)"
proof (induction rows)
  case (Cons row rows)
  with filter_reason_total [OF assms, of row] show ?case by (auto split: option.splits)
qed simp

lemma select_working_total:
  "min_share settings = Inr m \<Longrightarrow> \<exists>acc ref. select_working rows settings = Inr (acc, ref)"
  by (simp add: select_working_def select_go_total)

lemma accepted_working: "filter_reason settings r = Inr None \<Longrightarrow> cr_working r"
  by (auto simp: filter_reason_def split: if_splits)

lemma accepted_iff:
  assumes "min_share settings = Inr m"
  shows "filter_reason settings r = Inr None \<longleftrightarrow> cr_working r \<and>
    \<not> (truthy (dget_or settings ''exclude_mirage'' JNull) \<and> only_mirage r) \<and>
    (py_less (Finite 0) m \<longrightarrow> (\<exists>s. cr_median_share r = Some s \<and> \<not> py_less s m))"
  using assms by (auto simp: filter_reason_def split: option.splits)

lemma mset_filter_split: "mset (filter P xs) + mset (filter (\<lambda>x. \<not> P x) xs) = mset xs"
  by (induction xs) auto

lemma select_working_split:
  assumes "select_working rows settings = Inr (acc, ref)"
  shows "acc = filter (\<lambda>r. filter_reason settings r = Inr None) (rank rows)"
    and "map fst ref = filter (\<lambda>r. filter_reason settings r \<noteq> Inr None) (rank rows)"
    and "list_all (\<lambda>(r, w). filter_reason settings r = Inr (Some w)) ref"
  using select_go_split [of settings "rank rows" acc ref] assms by (simp_all add: select_working_def)

lemma acc_working:
  "select_working rows settings = Inr (acc, ref) \<Longrightarrow> i < length acc \<Longrightarrow> cr_working (acc ! i)"
  using select_working_split(1) [of rows settings acc ref] nth_mem [of i acc] accepted_working by auto

lemma py_neg_le: "py_neg (Finite p) \<le> py_neg (Finite q) \<longleftrightarrow> q \<le> p"
  by simp

lemma show_float_pos_ne: "show_float_pos q \<noteq> []"
  by (auto simp: show_float_pos_def Let_def split: prod.splits)

lemma show_ne: "show_int i \<noteq> []" "show_float x \<noteq> []"
  by (auto simp: show_int_def show_float_def show_float_pos_ne split: pyfloat.splits)

lemma truthy_py_str: "truthy v \<Longrightarrow> py_str v \<noteq> []"
  by (cases v) (auto simp: show_ne)

lemma list_all2_mono_in:
  assumes "\<And>x y. x \<in> set xs \<Longrightarrow> P x y \<Longrightarrow> Q x y" and "list_all2 P xs ys"
  shows "list_all2 Q xs ys"
  using assms(2,1) by (induction rule: list_all2_induct) auto

lemma check_row_of_fields:
  assumes "check_row_of v = Inr row"
  shows "cr_args row = get_text (as_dict v) ''args'' \<and>
    cr_working row = truthy (dget_or (as_dict v) ''working'' (JBool False))"
  using assms by (auto simp: check_row_of_def Let_def rbind_eq_Inr)

section \<open>Properties\<close>

text \<open>
  Property C14. The split of the checked rows is complete and ordered: every row is either accepted or
  refused, none twice; accepted and refused rows both keep the ranking order and, within one rank, the
  order of the report; a row is accepted exactly when the filter has no reason against it, and every
  refused row carries its reason.
\<close>

theorem select_working_partitions:
  assumes "min_share settings = Inr m"
  shows "\<exists>acc ref. select_working rows settings = Inr (acc, ref) \<and>
    mset acc + mset (map fst ref) = mset rows \<and>
    sorted (map rank_key acc) \<and> sorted (map (\<lambda>x. rank_key (fst x)) ref) \<and>
    (\<forall>k. filter (\<lambda>r. rank_key r = k) acc =
       filter (\<lambda>r. rank_key r = k) (filter (\<lambda>r. filter_reason settings r = Inr None) rows)) \<and>
    (\<forall>k. filter (\<lambda>r. rank_key r = k) (map fst ref) =
       filter (\<lambda>r. rank_key r = k) (filter (\<lambda>r. filter_reason settings r \<noteq> Inr None) rows)) \<and>
    (\<forall>r w. (r, w) \<in> set ref \<longrightarrow> filter_reason settings r = Inr (Some w))"
proof -
  obtain acc ref where sel: "select_working rows settings = Inr (acc, ref)"
    using select_working_total [OF assms] by blast
  note split = select_working_split [OF sel]
  have "mset acc + mset (map fst ref) = mset rows"
    by (simp only: split(1,2) mset_filter_split best_first.ranked_mset)
  moreover have "sorted (map rank_key acc)"
    unfolding split(1) by (rule best_first.ranked_filter_sorted)
  moreover have "sorted (map rank_key (map fst ref))"
    unfolding split(2) by (rule best_first.ranked_filter_sorted)
  moreover have "filter (\<lambda>r. rank_key r = k) acc =
      filter (\<lambda>r. rank_key r = k) (filter (\<lambda>r. filter_reason settings r = Inr None) rows)" for k
    unfolding split(1) by (rule best_first.ranked_filter_stable)
  moreover have "filter (\<lambda>r. rank_key r = k) (map fst ref) =
      filter (\<lambda>r. rank_key r = k) (filter (\<lambda>r. filter_reason settings r \<noteq> Inr None) rows)" for k
    unfolding split(2) by (rule best_first.ranked_filter_stable)
  ultimately show ?thesis using sel split(3)
    by (intro exI [of _ acc] exI [of _ ref]) (auto simp: list_all_iff comp_def)
qed

definition sample_row :: "bool \<Rightarrow> rat \<Rightarrow> rat option \<Rightarrow> check_row" where
  "sample_row ok rate share = \<lparr>cr_protocol = ''HTTP'', cr_args = ''--payload=x'', cr_coverage = 1, cr_working = ok,
     cr_success_rate = Finite rate, cr_passes_ok = 1, cr_passes_total = 1, cr_median_share = map_option Finite share,
     cr_median_latency_ms = 10, cr_median_speed_kbps = Finite 0, cr_longest_silence_ms = JNull,
     cr_observed = [], cr_admits = []\<rparr>"

theorem select_working_partitions_witness:
  "\<exists>acc ref. select_working [sample_row False 1 None, sample_row True (1/2) (Some 1), sample_row True 1 None]
      [(''min_share'', JFloat (Finite (1/2)))] = Inr (acc, ref) \<and>
    mset acc + mset (map fst ref) =
      mset [sample_row False 1 None, sample_row True (1/2) (Some 1), sample_row True 1 None]"
proof -
  have "min_share [(''min_share'', JFloat (Finite (1/2)))] = Inr (Finite (1/2))"
    by (simp add: min_share_def dget_or_def)
  from select_working_partitions [OF this,
      of "[sample_row False 1 None, sample_row True (1/2) (Some 1), sample_row True 1 None]"]
  show ?thesis by blast
qed

text \<open>
  Accepted rows deserve it: each was reported working, none is a pure mirage when mirages
  are excluded, and with a positive minimal share each has a measured share that reaches it.
\<close>

theorem accepted_rows_sound:
  assumes "select_working rows settings = Inr (acc, ref)" and "min_share settings = Inr m" and "r \<in> set acc"
  shows "r \<in> set rows \<and> cr_working r \<and>
    \<not> (truthy (dget_or settings ''exclude_mirage'' JNull) \<and> cr_admits r = [''Mirage'']) \<and>
    (py_less (Finite 0) m \<longrightarrow> (\<exists>s. cr_median_share r = Some s \<and> \<not> py_less s m))"
proof -
  from assms(3) select_working_split(1) [OF assms(1)] have "r \<in> set (rank rows)" "filter_reason settings r = Inr None"
    by auto
  then show ?thesis
    using accepted_iff [OF assms(2), of r] best_first.ranked_set [of rows] by (simp add: only_mirage_def)
qed

theorem accepted_rows_sound_witness:
  "\<exists>acc ref. select_working [sample_row False 1 None, sample_row True (1/2) (Some 1)] [(''min_share'', JInt 1)] = Inr (acc, ref) \<and>
    (\<forall>r\<in>set acc. cr_working r \<and> (\<exists>s. cr_median_share r = Some s))"
proof -
  have m: "min_share [(''min_share'', JInt 1)] = Inr (Finite 1)" by (simp add: min_share_def dget_or_def)
  then obtain acc ref where sel: "select_working [sample_row False 1 None, sample_row True (1/2) (Some 1)]
      [(''min_share'', JInt 1)] = Inr (acc, ref)"
    using select_working_total [OF m] by blast
  then show ?thesis using accepted_rows_sound [OF sel m] by auto
qed

text \<open>
  The accepted rows are best first: of two accepted rows the earlier one has at least the
  success rate of the later one and, at the same rate, at least its share of the reference volume.
\<close>

theorem accepted_best_first:
  assumes "select_working rows settings = Inr (acc, ref)" and "i < j" and "j < length acc"
    and "cr_success_rate (acc ! i) = Finite p" and "cr_success_rate (acc ! j) = Finite q"
    and "cr_median_share (acc ! i) = Some (Finite s)" and "cr_median_share (acc ! j) = Some (Finite t)"
  shows "q \<le> p \<and> (p = q \<longrightarrow> t \<le> s)"
proof -
  have "sorted (map rank_key acc)"
    unfolding select_working_split(1) [OF assms(1)] by (rule best_first.ranked_filter_sorted)
  with assms(2,3) have "rank_key (acc ! i) \<le> rank_key (acc ! j)"
    using sorted_nth_mono [of "map rank_key acc" i j] by simp
  moreover have "cr_working (acc ! i)" "cr_working (acc ! j)"
    using assms(2,3) acc_working [OF assms(1)] by simp_all
  ultimately have "(py_neg (Finite p), py_neg (Finite s)) \<le> (py_neg (Finite q), py_neg (Finite t))"
    using assms(4-7) by (auto simp: rank_key_def)
  then show ?thesis by auto
qed

theorem accepted_best_first_witness:
  "\<exists>acc ref p q. select_working [sample_row True (1/2) (Some 1), sample_row True 1 (Some 1)] [] = Inr (acc, ref) \<and>
    cr_success_rate (acc ! 0) = Finite p \<and> cr_success_rate (acc ! 1) = Finite q \<and> q \<le> p"
proof -
  let ?a = "sample_row True 1 (Some 1)" and ?b = "sample_row True (1/2) (Some 1)"
  have sel: "select_working [?b, ?a] [] = Inr ([?a, ?b], [])"
    by (simp add: select_working_def rank_def rank_key_def sample_row_def filter_reason_def min_share_def
        dget_or_def only_mirage_def less_eq_pyfloat_def)
  from accepted_best_first [OF sel, of 0 1 1 "1/2" 1 1] have "(1/2 :: rat) \<le> 1"
    by (simp add: sample_row_def)
  with sel show ?thesis
    by (intro exI [of _ "[?a, ?b]"] exI [of _ "[]"] exI [of _ 1] exI [of _ "1/2"]) (simp add: sample_row_def)
qed

text \<open>
  A check report is read item by item: the rows are exactly the usable items of the report,
  in their order, no row is without arguments, and no row is working that the report does not call
  working.
\<close>

theorem check_report_rows:
  assumes "parse_check_report loads data = Inr (Some rep)"
  shows "\<exists>d items. report_dict loads data = Some d \<and> get_items d ''strategies'' = Inr items \<and>
    list_all2 (\<lambda>v row. check_row_of v = Inr row \<and> cr_args row \<noteq> [] \<and>
        (cr_working row \<longleftrightarrow> truthy (dget_or (as_dict v) ''working'' (JBool False))))
      (filter usable_item items) (ck_strategies rep)"
proof -
  from assms obtain d items where d: "report_dict loads data = Some d" "get_items d ''strategies'' = Inr items"
    "rmap check_row_of (filter usable_item items) = Inr (ck_strategies rep)"
    by (auto simp: parse_check_report_def rbind_eq_Inr split: option.splits)
  have "list_all2 (\<lambda>v row. check_row_of v = Inr row \<and> cr_args row \<noteq> [] \<and>
        (cr_working row \<longleftrightarrow> truthy (dget_or (as_dict v) ''working'' (JBool False))))
      (filter usable_item items) (ck_strategies rep)"
  proof (rule list_all2_mono_in [OF _ d(3) [unfolded rmap_eq_Inr]])
    fix v row assume v: "v \<in> set (filter usable_item items)" and row: "check_row_of v = Inr row"
    have "py_str (dget_or (as_dict v) ''args'' JNull) \<noteq> []"
      using v truthy_py_str by (simp add: usable_item_def)
    moreover have "dget (as_dict v) ''args'' \<noteq> None"
      using v by (auto simp: usable_item_def dget_or_def split: option.splits)
    ultimately show "check_row_of v = Inr row \<and> cr_args row \<noteq> [] \<and>
        (cr_working row \<longleftrightarrow> truthy (dget_or (as_dict v) ''working'' (JBool False)))"
      using row check_row_of_fields [OF row] by (auto simp: get_text_def dget_or_def)
  qed
  with d(1,2) show ?thesis by blast
qed

theorem check_report_rows_witness:
  "\<exists>rep row. parse_check_report (\<lambda>_. None) (JDict [(''strategies'', JList [JDict [(''args'', JStr ''--a'')],
      JDict [(''args'', JStr [])], JNull])]) = Inr (Some rep) \<and> ck_strategies rep = [row] \<and> cr_args row \<noteq> [] \<and> \<not> cr_working row"
proof -
  let ?d = "JDict [(''strategies'', JList [JDict [(''args'', JStr ''--a'')], JDict [(''args'', JStr [])], JNull])]"
  have "\<exists>rep. parse_check_report (\<lambda>_. None) ?d = Inr (Some rep)"
    by (simp add: parse_check_report_def report_dict_def dkeys_def get_items_def dget_or_def usable_item_def
        check_row_of_def get_int_def get_float_def median_share_def py_or_def Let_def)
  then obtain rep where rep: "parse_check_report (\<lambda>_. None) ?d = Inr (Some rep)" ..
  from check_report_rows [OF this] rep show ?thesis
    by (auto simp: report_dict_def dkeys_def get_items_def dget_or_def usable_item_def py_or_def list_all2_Cons1
        split: if_splits)
qed

end
