(* ===== verification/LocalClock.thy ===== *)
theory LocalClock
  imports PyValue
begin

text \<open>
  The local clock that the scheduler consults through \<^verbatim>\<open>time.localtime\<close>, \<^verbatim>\<open>time.mktime\<close> and
  \<^verbatim>\<open>time.strftime\<close>: broken-down times, the proleptic Gregorian calendar, and the laws of a zone with
  a constant offset from UTC, stated as a locale and interpreted on the executable clock.
\<close>

section \<open>Calendar\<close>

record tm =
  tm_year :: int
  tm_mon :: int
  tm_mday :: int
  tm_hour :: int
  tm_min :: int
  tm_sec :: int
  tm_wday :: int
  tm_yday :: int
  tm_isdst :: int

text \<open>Days from the first of January of year 1 to the first of January of year \<open>y\<close>.\<close>

definition days_before_year :: "int \<Rightarrow> int" where
  "days_before_year y = 365 * (y - 1) + (y - 1) div 4 - (y - 1) div 100 + (y - 1) div 400"

definition leap :: "int \<Rightarrow> bool" where
  "leap y = (y mod 4 = 0 \<and> (y mod 100 \<noteq> 0 \<or> y mod 400 = 0))"

definition month_lengths :: "int \<Rightarrow> int list" where
  "month_lengths y = [31, if leap y then 29 else 28, 31, 30, 31, 30, 31, 31, 30, 31, 30, 31]"

text \<open>The month and the day of the month of a day of the year, counted from zero.\<close>

fun month_day :: "int \<Rightarrow> int list \<Rightarrow> int \<Rightarrow> int \<times> int" where
  "month_day m [] d = (m, d + 1)"
| "month_day m (l # ls) d = (if d < l then (m, d + 1) else month_day (m + 1) ls (d - l))"

fun days_before_month :: "int list \<Rightarrow> int \<Rightarrow> int" where
  "days_before_month [] m = 0"
| "days_before_month (l # ls) m = (if m \<le> 1 then 0 else l + days_before_month ls (m - 1))"

definition year_of_day :: "int \<Rightarrow> int" where
  "year_of_day z = (let y = z * 400 div 146097 + 1 in
     if z < days_before_year y then y - 1
     else if days_before_year (y + 1) \<le> z then y + 1 else y)"

definition day_of_date :: "int \<Rightarrow> int \<Rightarrow> int \<Rightarrow> int" where
  "day_of_date y m d = days_before_year y + days_before_month (month_lengths y) m + d - 1"

text \<open>The day number of 1970-01-01, and the seconds of a day.\<close>

definition EPOCH_DAY :: int where "EPOCH_DAY = 719162"
definition DAY :: int where "DAY = 86400"

lemma year_of_day_bounds:
  "days_before_year (year_of_day z) \<le> z \<and> z < days_before_year (year_of_day z + 1)"
proof -
  define e where "e = z * 400 div 146097"
  have e: "146097 * e \<le> 400 * z" "400 * z < 146097 * e + 146097"
    unfolding e_def by linarith+
  have d: "days_before_year (x + 1) * 400 \<le> 146097 * x + 1 * 400" "146097 * x - 2 * 400 \<le> days_before_year (x + 1) * 400" for x
    by (simp_all add: days_before_year_def)
  have "days_before_year e \<le> z" using d(1) [of "e - 1"] e by simp
  moreover have "z < days_before_year (e + 3)" using d(2) [of "e + 2"] e by (simp add: add.commute)
  ultimately show ?thesis
    unfolding year_of_day_def Let_def e_def [symmetric] by (simp add: algebra_simps)
qed

lemma days_before_month_shift:
  "1 \<le> m \<Longrightarrow> month_day m ls d = (m', d') \<Longrightarrow> m \<le> m' \<and> days_before_month ls (m' - m + 1) + d' - 1 = d"
proof (induction m ls d rule: month_day.induct)
  case (2 m l ls d)
  show ?case
  proof (cases "d < l")
    case False
    with "2.prems" have "m + 1 \<le> m' \<and> days_before_month ls (m' - (m + 1) + 1) + d' - 1 = d - l"
      by (intro "2.IH") auto
    then show ?thesis by (simp add: algebra_simps)
  qed (use "2.prems" in auto)
qed simp

lemma day_of_date_inverse:
  assumes "month_day 1 (month_lengths y) (z - days_before_year y) = (m, d)"
  shows "day_of_date y m d = z"
  using days_before_month_shift [OF _ assms] by (simp add: day_of_date_def)

section \<open>A clock with a constant offset from UTC\<close>

text \<open>\<open>off\<close> is the offset in seconds east of UTC, as the \<^verbatim>\<open>TZ\<close> of the container sets it.\<close>

definition localtime :: "int \<Rightarrow> int \<Rightarrow> tm" where
  "localtime off t = (let z = (t + off) div DAY + EPOCH_DAY; s = (t + off) mod DAY;
       y = year_of_day z; yd = z - days_before_year y
     in case month_day 1 (month_lengths y) yd of (m, d) \<Rightarrow>
       \<lparr>tm_year = y, tm_mon = m, tm_mday = d, tm_hour = s div 3600, tm_min = s div 60 mod 60,
        tm_sec = s mod 60, tm_wday = z mod 7, tm_yday = yd + 1, tm_isdst = 0\<rparr>)"

definition mktime :: "int \<Rightarrow> tm \<Rightarrow> int" where
  "mktime off b = (day_of_date (tm_year b) (tm_mon b) (tm_mday b) - EPOCH_DAY) * DAY
     + tm_hour b * 3600 + tm_min b * 60 + tm_sec b - off"

definition day_start :: "int \<Rightarrow> int \<Rightarrow> int" where
  "day_start off t = (t + off) div DAY * DAY - off"

section \<open>What the scheduler relies on\<close>

text \<open>
  The laws of a steady clock: local days follow each other at a fixed distance, setting the time of
  day of a broken-down time gives the instant of that day, the broken-down time of an instant tells
  its second of the day, and the week day advances with the day. A zone with daylight saving time
  breaks the first law twice a year; such zones are outside the scheduler properties below.
\<close>

lemma hms_unique:
  assumes "s + 3600 * h' + 60 * m' + x = s + 3600 * h + 60 * (m::int)"
    and "0 \<le> m'" "m' < 60" "0 \<le> x" "x < 60" "0 \<le> m" "m < 60"
  shows "h' = h \<and> m' = m \<and> x = 0"
proof -
  define q where "q = 60 * (h - h') + (m - m')"
  from assms(1) have x: "x = 60 * q" by (simp add: q_def algebra_simps)
  with assms(4,5) have q: "q = 0" by linarith
  then have "60 * h + m = 60 * h' + m'" by (simp add: q_def algebra_simps)
  with assms(2,3,6,7) have "h = h'" by linarith
  then have "h - h' = 0" by simp
  with q x show ?thesis by (simp add: q_def)
qed

lemma hms_split: "3600 * (x div 3600) + 60 * (x div 60 mod 60) + x mod 60 = (x::int)"
proof -
  have "x div 3600 = x div 60 div 60" using zdiv_zmult2_eq [of 60 x 60] by simp
  with div_mult_mod_eq [of x 60] div_mult_mod_eq [of "x div 60" 60] show ?thesis by linarith
qed

locale steady_clock =
  fixes ltime :: "int \<Rightarrow> tm" and mtime :: "tm \<Rightarrow> int" and start :: "int \<Rightarrow> int"
  assumes start_le: "start t \<le> t" and start_gt: "t < start t + DAY"
    and start_between: "start t \<le> u \<Longrightarrow> u < start t + DAY \<Longrightarrow> start u = start t"
    and start_shift: "start (t + DAY * k) = start t + DAY * k"
    and set_time: "mtime ((ltime t)\<lparr>tm_hour := h, tm_min := m, tm_sec := 0\<rparr>) = start t + 3600 * h + 60 * m"
    and second_of_day: "start t + 3600 * tm_hour (ltime t) + 60 * tm_min (ltime t) + tm_sec (ltime t) = t"
    and min_range: "0 \<le> tm_min (ltime t) \<and> tm_min (ltime t) < 60"
    and sec_range: "0 \<le> tm_sec (ltime t) \<and> tm_sec (ltime t) < 60"
    and wday_range: "0 \<le> tm_wday (ltime t) \<and> tm_wday (ltime t) < 7"
    and wday_same: "start t = start u \<Longrightarrow> tm_wday (ltime t) = tm_wday (ltime u)"
    and wday_shift: "tm_wday (ltime (t + DAY * k)) = (tm_wday (ltime t) + k) mod 7"
begin

definition slot :: "int \<Rightarrow> int \<Rightarrow> int \<Rightarrow> int" where
  "slot t h m = mtime ((ltime t)\<lparr>tm_hour := h, tm_min := m, tm_sec := 0\<rparr>)"

definition is_slot :: "int \<Rightarrow> int \<Rightarrow> int \<Rightarrow> bool" where
  "is_slot c h m = (tm_hour (ltime c) = h \<and> tm_min (ltime c) = m \<and> tm_sec (ltime c) = 0)"

lemma slot_eq: "slot t h m = start t + 3600 * h + 60 * m"
  by (simp add: slot_def set_time)

lemma slot_shift: "slot (t + DAY * k) h m = slot t h m + DAY * k"
  by (simp add: slot_eq start_shift)

lemma start_slot:
  assumes "0 \<le> h" "h < 24" "0 \<le> m" "m < 60"
  shows "start (slot t h m) = start t"
  by (rule start_between) (use assms in \<open>auto simp: slot_eq DAY_def\<close>)

lemma is_slot_slot:
  assumes "0 \<le> h" "h < 24" "0 \<le> m" "m < 60"
  shows "is_slot (slot t h m) h m"
proof -
  define u where "u = slot t h m"
  have "start u + 3600 * tm_hour (ltime u) + 60 * tm_min (ltime u) + tm_sec (ltime u) = start u + 3600 * h + 60 * m"
    using second_of_day [of u] start_slot [OF assms, of t] by (simp add: u_def slot_eq)
  with min_range [of u] sec_range [of u] assms show ?thesis
    unfolding u_def [symmetric] is_slot_def by (intro hms_unique) auto
qed

lemma is_slot_eq: "is_slot c h m \<Longrightarrow> c = slot c h m"
  using second_of_day [of c] by (auto simp: is_slot_def slot_eq)

lemma days_aligned: "start c = start a + DAY * ((c - start a) div DAY)"
proof -
  define k where "k = (c - start a) div DAY"
  have "0 \<le> (c - start a) mod DAY" "(c - start a) mod DAY < DAY" by (simp_all add: DAY_def)
  then have "start a \<le> c - DAY * k" "c - DAY * k < start a + DAY"
    unfolding k_def by (simp_all add: minus_div_mult_eq_mod [symmetric] algebra_simps)
  then have "start (c - DAY * k) = start a" by (rule start_between)
  with start_shift [of "c - DAY * k" k] show ?thesis by (simp add: k_def)
qed

text \<open>Every instant with the time of day \<open>h:m\<close> is the slot of one of the days around \<open>a\<close>.\<close>

lemma is_slot_offset:
  assumes "is_slot c h m" and "a < c"
  obtains k where "0 \<le> k" "c = slot a h m + DAY * k"
proof
  have c: "c = slot a h m + DAY * ((c - start a) div DAY)"
    using is_slot_eq [OF assms(1)] days_aligned [of c a] by (simp add: slot_eq)
  then show "c = slot a h m + DAY * ((c - start a) div DAY)" .
  show "0 \<le> (c - start a) div DAY"
    using assms(2) start_le [of a] by (simp add: DAY_def pos_imp_zdiv_nonneg_iff)
qed

lemma slot_next_day: "0 \<le> h \<Longrightarrow> 0 \<le> m \<Longrightarrow> a < slot a h m + DAY"
  using start_gt [of a] by (simp add: slot_eq)

lemma wday_slot:
  assumes "0 \<le> h" "h < 24" "0 \<le> m" "m < 60"
  shows "tm_wday (ltime (slot a h m + DAY * k)) = (tm_wday (ltime a) + k) mod 7"
  by (simp add: wday_shift wday_same [OF start_slot [OF assms]])

end

lemma localtime_fields:
  "tm_hour (localtime off t) = (t + off) mod DAY div 3600"
  "tm_min (localtime off t) = (t + off) mod DAY div 60 mod 60"
  "tm_sec (localtime off t) = (t + off) mod DAY mod 60"
  "tm_wday (localtime off t) = ((t + off) div DAY + EPOCH_DAY) mod 7"
  by (simp_all add: localtime_def Let_def split: prod.splits)

lemma localtime_date:
  "day_of_date (tm_year (localtime off t)) (tm_mon (localtime off t)) (tm_mday (localtime off t)) =
   (t + off) div DAY + EPOCH_DAY"
  by (auto simp: localtime_def Let_def day_of_date_inverse split: prod.splits)

lemma div_shift_day: "(t + DAY * k + off) div DAY = (t + off) div DAY + k"
  using div_mult_self2 [of DAY "t + off" k] by (simp add: DAY_def algebra_simps)

interpretation steady: steady_clock "localtime off" "mktime off" "day_start off" for off
proof
  fix t u k h m
  show "day_start off t \<le> t" "t < day_start off t + DAY"
    by (simp_all add: day_start_def DAY_def)
  show "day_start off u = day_start off t" if "day_start off t \<le> u" "u < day_start off t + DAY"
    using that div_pos_pos_trivial [of "u - day_start off t" DAY] div_shift_day [of "u - day_start off t" "(t + off) div DAY" 0]
    by (simp add: day_start_def algebra_simps)
  show "day_start off (t + DAY * k) = day_start off t + DAY * k"
    by (simp add: day_start_def div_shift_day distrib_right)
  show "mktime off ((localtime off t)\<lparr>tm_hour := h, tm_min := m, tm_sec := 0\<rparr>) = day_start off t + 3600 * h + 60 * m"
    by (simp add: mktime_def localtime_date day_start_def)
  show "day_start off t + 3600 * tm_hour (localtime off t) + 60 * tm_min (localtime off t) + tm_sec (localtime off t) = t"
    using hms_split [of "(t + off) mod DAY"] div_mult_mod_eq [of "t + off" DAY]
    unfolding localtime_fields day_start_def by linarith
  show "0 \<le> tm_min (localtime off t) \<and> tm_min (localtime off t) < 60"
    and "0 \<le> tm_sec (localtime off t) \<and> tm_sec (localtime off t) < 60"
    and "0 \<le> tm_wday (localtime off t) \<and> tm_wday (localtime off t) < 7"
    by (simp_all add: localtime_fields)
  show "tm_wday (localtime off t) = tm_wday (localtime off u)" if "day_start off t = day_start off u"
    using that by (simp add: localtime_fields day_start_def DAY_def)
  show "tm_wday (localtime off (t + DAY * k)) = (tm_wday (localtime off t) + k) mod 7"
    by (simp only: localtime_fields div_shift_day mod_add_left_eq) (simp add: ac_simps)
qed

section \<open>Texts\<close>

definition pad2 :: "int \<Rightarrow> string" where
  "pad2 n = (if n < 10 then CHR ''0'' # show_int n else show_int n)"

text \<open>\<^verbatim>\<open>time.strftime("%Y-%m-%d %H:%M:%S", time.localtime(t))\<close>.\<close>

definition format_time :: "int \<Rightarrow> int \<Rightarrow> string" where
  "format_time off t = (let b = localtime off t in
     show_int (tm_year b) @ ''-'' @ pad2 (tm_mon b) @ ''-'' @ pad2 (tm_mday b) @ '' ''
       @ pad2 (tm_hour b) @ '':'' @ pad2 (tm_min b) @ '':'' @ pad2 (tm_sec b))"

text \<open>\<^verbatim>\<open>time.strftime("%Y-%m-%dT%H:%M:%SZ", time.gmtime(t))\<close>.\<close>

definition utc_stamp :: "int \<Rightarrow> string" where
  "utc_stamp t = (let b = localtime 0 t in
     show_int (tm_year b) @ ''-'' @ pad2 (tm_mon b) @ ''-'' @ pad2 (tm_mday b) @ ''T''
       @ pad2 (tm_hour b) @ '':'' @ pad2 (tm_min b) @ '':'' @ pad2 (tm_sec b) @ ''Z'')"

lemma format_time_example: "format_time 10800 1700000000 = ''2023-11-15 01:13:20''"
  by code_simp

text \<open>The date of an instant is a date of the calendar.\<close>

lemma month_day_range:
  assumes "0 \<le> d" and "d < sum_list ls"
  shows "\<exists>i < length ls. month_day m ls d = (m + int i, snd (month_day m ls d)) \<and>
    1 \<le> snd (month_day m ls d) \<and> snd (month_day m ls d) \<le> ls ! i"
  using assms
proof (induction ls arbitrary: m d)
  case Nil
  then show ?case by simp
next
  case (Cons l ls)
  show ?case
  proof (cases "d < l")
    case True
    with Cons.prems show ?thesis by (intro exI [of _ 0]) auto
  next
    case False
    with Cons.prems have "0 \<le> d - l" "d - l < sum_list ls" by auto
    from Cons.IH [OF this, of "m + 1"] obtain i where i: "i < length ls"
      "month_day (m + 1) ls (d - l) = (m + 1 + int i, snd (month_day (m + 1) ls (d - l)))"
      "1 \<le> snd (month_day (m + 1) ls (d - l)) \<and> snd (month_day (m + 1) ls (d - l)) \<le> ls ! i" by blast
    then show ?thesis using False
      by (intro exI [of _ "Suc i"]) (auto simp: algebra_simps prod_eq_iff)
  qed
qed

end
