(* ===== verification/Lines.thy ===== *)
theory Lines
  imports PyValue
begin

text \<open>
  Reading the end of a log file, as \<open>tail_file\<close> of \<^verbatim>\<open>src/blockcheck.py\<close> and \<open>_read_file_lines\<close> of
  \<^verbatim>\<open>src/panel/panel.py\<close> do it: at most so many bytes from the end, cut into lines, the first of which is
  dropped when the file is longer. Files hold one byte per character (the decoding of UTF-8 is the
  identity on ASCII).
\<close>

section \<open>Lines of a text\<close>

text \<open>\<open>str.splitlines\<close>: the line boundaries of the character range, CR LF being one.\<close>

definition line_break :: "char \<Rightarrow> bool" where
  "line_break c = (let n = ord c in (10 \<le> n \<and> n \<le> 13) \<or> (28 \<le> n \<and> n \<le> 30) \<or> n = 133)"

definition LF :: char where "LF = char_of (10::nat)"
definition CR :: char where "CR = char_of (13::nat)"

fun lines_go :: "string \<Rightarrow> string \<Rightarrow> string list" where
  "lines_go w [] = (if w = [] then [] else [w])"
| "lines_go w (c # s) =
     (if c = CR \<and> s \<noteq> [] \<and> hd s = LF then w # lines_go [] (tl s)
      else if line_break c then w # lines_go [] s
      else lines_go (w @ [c]) s)"

definition splitlines :: "string \<Rightarrow> string list" where
  "splitlines s = lines_go [] s"

text \<open>\<open>xs[-n:]\<close>; note that \<open>n = 0\<close> gives the whole list.\<close>

definition last_n :: "int \<Rightarrow> 'a list \<Rightarrow> 'a list" where
  "last_n n xs = (if 0 < n then drop (nat (int (length xs) - n)) xs else drop (nat (- n)) xs)"

text \<open>The lines that are read from the end of a file of the given content.\<close>

definition tail_lines :: "int \<Rightarrow> string \<Rightarrow> string list" where
  "tail_lines max_bytes content = (let size = int (length content);
       rows = splitlines (drop (nat (max 0 (size - max_bytes))) content)
     in if max_bytes < size \<and> rows \<noteq> [] then tl rows else rows)"

datatype log_file = NoFile | Unreadable string | LogText string

section \<open>Facts\<close>

lemma special_breaks [simp]: "line_break LF" "line_break CR" "LF \<noteq> CR" "CR \<noteq> LF"
  by code_simp+

lemma tl_lines_go: "tl (lines_go w s) = tl (lines_go [] s)"
proof (induction s arbitrary: w)
  case Nil
  show ?case by simp
next
  case (Cons c s)
  from Cons.IH [of "w @ [c]"] Cons.IH [of "[c]"] show ?case
    by (cases "c = CR \<and> s \<noteq> [] \<and> hd s = LF"; cases "line_break c") auto
qed

text \<open>The lines of the end of a text, less the first one, are the last lines of the text.\<close>

lemma lines_go_append: "\<exists>p. lines_go w (u @ v) = p @ tl (lines_go [] v)"
proof (induction w u rule: lines_go.induct)
  case (1 w)
  show ?case
    by (cases "lines_go w v") (use tl_lines_go [of w v] in \<open>auto intro: exI [of _ "[hd (lines_go w v)]"]\<close>)
next
  case (2 w c s)
  show ?case
  proof (cases "c = CR \<and> s \<noteq> [] \<and> hd s = LF")
    case True
    with "2.IH"(1) obtain p where "lines_go [] (tl s @ v) = p @ tl (lines_go [] v)" by blast
    with True show ?thesis by (intro exI [of _ "w # p"]) simp
  next
    case crlf: False
    show ?thesis
    proof (cases "s = [] \<and> c = CR \<and> v \<noteq> [] \<and> hd v = LF")
      case True
      then obtain v' where "v = LF # v'" by (cases v) auto
      with True show ?thesis by (intro exI [of _ "[w]"]) simp
    next
      case False
      with crlf have no: "\<not> (c = CR \<and> s @ v \<noteq> [] \<and> hd (s @ v) = LF)" by (cases s) auto
      show ?thesis
      proof (cases "line_break c")
        case True
        with crlf "2.IH"(2) obtain p where "lines_go [] (s @ v) = p @ tl (lines_go [] v)" by blast
        with True no show ?thesis by (intro exI [of _ "w # p"]) (simp only: append_Cons lines_go.simps if_False if_True)
      next
        case False
        with crlf "2.IH"(3) obtain p where "lines_go (w @ [c]) (s @ v) = p @ tl (lines_go [] v)" by blast
        with False no show ?thesis by (intro exI [of _ p]) (simp only: append_Cons lines_go.simps if_False if_True)
      qed
    qed
  qed
qed

lemma tail_lines_suffix: "\<exists>p. splitlines content = p @ tail_lines m content"
proof -
  let ?k = "nat (max 0 (int (length content) - m))"
  obtain p where p: "splitlines content = p @ tl (splitlines (drop ?k content))"
    using lines_go_append [of "[]" "take ?k content" "drop ?k content"] by (auto simp: splitlines_def)
  show ?thesis
  proof (cases "m < int (length content)")
    case True
    with p show ?thesis by (cases "splitlines (drop ?k content)") (auto simp: tail_lines_def Let_def)
  next
    case False
    then show ?thesis by (simp add: tail_lines_def)
  qed
qed

lemma last_n_suffix: "\<exists>p. xs = p @ last_n n xs"
  unfolding last_n_def by (metis append_take_drop_id)

lemma length_last_n: "0 < n \<Longrightarrow> int (length (last_n n xs)) = min n (int (length xs))"
  by (auto simp: last_n_def)

lemma set_last_n: "set (last_n n xs) \<subseteq> set xs"
  by (auto simp: last_n_def dest: in_set_dropD)

end
