(* ===== verification/Runner.thy ===== *)
theory Runner
  imports Command Report LocalClock Lines
begin

text \<open>
  \<^verbatim>\<open>src/blockcheck.py\<close>, the execution of a run: one step of the engine with its time budget, the scan and
  the check of every configured domain, the result that is written and returned, the pruning of old run
  directories and the summary of a result. The engine (the \<open>blockcheckw\<close> process) is a parameter.
\<close>

section \<open>One step of the engine\<close>

text \<open>
  What a run sees of the machine: the clock, the JSON files, and the text of its log. The engine is a
  process that is given a command line and a time limit; it ends with an exit code, is stopped at the
  limit, or cannot be started, and until then it may write files and log lines, and time passes.
\<close>

record run_world =
  rw_now :: rat
  rw_store :: store
  rw_log :: string

datatype step_end = Exited int | TimedOut | CannotRun string

type_synonym engine = "string list \<Rightarrow> pyfloat \<Rightarrow> run_world \<Rightarrow> step_end \<times> run_world"

definition log_write :: "string \<Rightarrow> run_world \<Rightarrow> run_world" where
  "log_write t w = w\<lparr>rw_log := rw_log w @ t\<rparr>"

text \<open>
  \<open>max(5, deadline - time.time())\<close> with \<open>deadline = started + float(job_timeout)\<close>; the first of two equal
  values is the integer.
\<close>

definition budget :: "pyfloat \<Rightarrow> rat \<Rightarrow> rat \<Rightarrow> pyfloat" where
  "budget timeout started now = (case timeout of Finite q \<Rightarrow> Finite (max 5 (started + q - now))
     | PosInf \<Rightarrow> PosInf | NegInf \<Rightarrow> Finite 5 | NaN \<Rightarrow> Finite 5)"

definition budget_text :: "pyfloat \<Rightarrow> string" where
  "budget_text b = (if b = Finite 5 then ''5'' else show_float b)"

definition run_step ::
  "engine \<Rightarrow> bool \<Rightarrow> string list \<Rightarrow> pyfloat \<Rightarrow> run_world \<Rightarrow> ((int \<times> string) \<times> run_world) result"
where
  "run_step eng log_ok cmd b w =
     (if \<not> log_ok then Inl OSError
      else case eng cmd b (log_write ([LF] @ ''$ '' @ join '' '' cmd @ [LF]) w) of (e, w') \<Rightarrow> (case e of
          Exited rc \<Rightarrow> Inr ((rc, []), w')
        | TimedOut \<Rightarrow> Inr ((124, ''timeout after '' @ budget_text b @ ''s''),
            log_write ([LF] @ ''!! step timed out after '' @ budget_text b @ ''s'' @ [LF]) w')
        | CannotRun msg \<Rightarrow> Inr ((127, msg),
            log_write ([LF] @ ''!! cannot run '' @ (case cmd of [] \<Rightarrow> [] | c # _ \<Rightarrow> c) @ '': '' @ msg @ [LF]) w')))"

section \<open>One domain\<close>

record domain_result =
  dr_domain :: string
  dr_scan_rc :: "int option"
  dr_check_rc :: "int option"
  dr_block_type :: string
  dr_blocked :: "json list"
  dr_scanned :: nat
  dr_checked :: nat
  dr_inconclusive :: bool
  dr_working :: "check_row list"
  dr_refused :: "(check_row \<times> reason) list"
  dr_scan :: "scan_report option"
  dr_check :: "check_report option"

definition blank_domain :: "string \<Rightarrow> domain_result" where
  "blank_domain d = \<lparr>dr_domain = d, dr_scan_rc = None, dr_check_rc = None, dr_block_type = [], dr_blocked = [],
     dr_scanned = 0, dr_checked = 0, dr_inconclusive = False, dr_working = [], dr_refused = [],
     dr_scan = None, dr_check = None\<rparr>"

definition step_failed :: "string \<Rightarrow> string \<Rightarrow> int \<Rightarrow> string \<Rightarrow> string" where
  "step_failed domain what rc note = domain @ '': '' @ what @ '' failed (rc='' @ show_int rc
     @ (if note \<noteq> [] then '': '' @ note else []) @ '')''"

text \<open>The check of a domain whose scan found candidates: the domain's result, and an error line or none.\<close>

definition check_domain ::
  "engine \<Rightarrow> (string \<Rightarrow> json option) \<Rightarrow> bool \<Rightarrow> json dict \<Rightarrow> (rat \<Rightarrow> pyfloat) \<Rightarrow> run_plan \<Rightarrow> domain_result
    \<Rightarrow> run_world \<Rightarrow> (run_world \<times> domain_result \<times> string option) result"
where
  "check_domain eng loads log_ok settings limit item dm w =
     (case run_step eng log_ok (rp_check item) (limit (rw_now w)) w of Inl e \<Rightarrow> Inl e
      | Inr ((rc, note), w') \<Rightarrow>
          if rc \<noteq> 0 then Inr (w', dm\<lparr>dr_check_rc := Some rc\<rparr>, Some (step_failed (rf_domain item) ''check'' rc note))
          else (case parse_check_report loads (read_report (rw_store w') (rf_check_out item)) of Inl e \<Rightarrow> Inl e
            | Inr None \<Rightarrow> Inr (w', dm\<lparr>dr_check_rc := Some rc\<rparr>,
                Some (rf_domain item @ '': check produced no readable report''))
            | Inr (Some check) \<Rightarrow> (case select_working (ck_strategies check) settings of Inl e \<Rightarrow> Inl e
                | Inr (accepted, refused) \<Rightarrow> Inr (w', dm\<lparr>dr_check_rc := Some rc,
                    dr_checked := length (ck_strategies check), dr_inconclusive := ck_inconclusive check,
                    dr_check := Some check, dr_working := accepted, dr_refused := take 100 refused\<rparr>, None))))"

definition run_domain ::
  "engine \<Rightarrow> (string \<Rightarrow> json option) \<Rightarrow> bool \<Rightarrow> json dict \<Rightarrow> (rat \<Rightarrow> pyfloat) \<Rightarrow> run_plan
    \<Rightarrow> run_world \<Rightarrow> (run_world \<times> domain_result \<times> string option) result"
where
  "run_domain eng loads log_ok settings limit item w = (let dm = blank_domain (rf_domain item) in
     case run_step eng log_ok (rp_scan item) (limit (rw_now w)) w of Inl e \<Rightarrow> Inl e
     | Inr ((rc, note), w') \<Rightarrow>
         if rc \<noteq> 0 then Inr (w', dm\<lparr>dr_scan_rc := Some rc\<rparr>, Some (step_failed (rf_domain item) ''scan'' rc note))
         else (case parse_scan_report loads (read_report (rw_store w') (rf_scan_out item)) of Inl e \<Rightarrow> Inl e
           | Inr None \<Rightarrow> Inr (w', dm\<lparr>dr_scan_rc := Some rc\<rparr>,
               Some (rf_domain item @ '': scan produced no readable report''))
           | Inr (Some scan) \<Rightarrow> (let dm' = dm\<lparr>dr_scan_rc := Some rc, dr_block_type := sc_block_type scan,
                 dr_blocked := sc_blocked scan, dr_scanned := length (sc_strategies scan), dr_scan := Some scan\<rparr>
               in if sc_strategies scan = [] then Inr (w', dm', None)
                  else check_domain eng loads log_ok settings limit item dm' w')))"

section \<open>The run\<close>

record run_state =
  rs_world :: run_world
  rs_domains :: "domain_result list"
  rs_errors :: "string list"

definition run_item ::
  "engine \<Rightarrow> (string \<Rightarrow> json option) \<Rightarrow> bool \<Rightarrow> json dict \<Rightarrow> (rat \<Rightarrow> pyfloat) \<Rightarrow> run_state \<Rightarrow> run_plan \<Rightarrow> run_state result"
where
  "run_item eng loads log_ok settings limit s item =
     (case run_domain eng loads log_ok settings limit item (rs_world s) of Inl e \<Rightarrow> Inl e
      | Inr (w', dm, err) \<Rightarrow> Inr \<lparr>rs_world = w', rs_domains = rs_domains s @ [dm],
          rs_errors = rs_errors s @ (case err of None \<Rightarrow> [] | Some t \<Rightarrow> [t])\<rparr>)"

record run_result =
  rr_ok :: bool
  rr_success :: bool
  rr_run_id :: string
  rr_started :: rat
  rr_finished :: rat
  rr_queue :: json
  rr_settings :: "json dict"
  rr_plans :: "run_plan list"
  rr_domains :: "domain_result list"
  rr_errors :: "string list"
  rr_log :: string

text \<open>\<open>os.path.basename(os.path.normpath(path))\<close>.\<close>

fun norm_comps :: "bool \<Rightarrow> string list \<Rightarrow> string list \<Rightarrow> string list" where
  "norm_comps absolute acc [] = acc"
| "norm_comps absolute acc (c # cs) =
     (if c = [] \<or> c = ''.'' then norm_comps absolute acc cs
      else if c \<noteq> ''..'' \<or> (\<not> absolute \<and> acc = []) \<or> (acc \<noteq> [] \<and> last acc = ''..'')
        then norm_comps absolute (acc @ [c]) cs
      else norm_comps absolute (butlast acc) cs)"

definition dir_name :: "string \<Rightarrow> string" where
  "dir_name path = (let absolute = startswith path ''/''; cs = norm_comps absolute [] (split_on CHR ''/'' path)
     in if cs = [] then (if absolute then [] else ''.'') else last cs)"

definition tail_file :: "log_file \<Rightarrow> int \<Rightarrow> string" where
  "tail_file f n = (case f of LogText t \<Rightarrow> join [LF] (last_n n (tail_lines 262144 t)) | _ \<Rightarrow> [])"

section \<open>The result as JSON\<close>

definition check_row_json :: "check_row \<Rightarrow> json dict" where
  "check_row_json r = [(''protocol'', JStr (cr_protocol r)), (''args'', JStr (cr_args r)),
     (''coverage'', JInt (cr_coverage r)), (''working'', JBool (cr_working r)),
     (''success_rate'', JFloat (cr_success_rate r)), (''passes_ok'', JInt (cr_passes_ok r)),
     (''passes_total'', JInt (cr_passes_total r)),
     (''median_share'', case cr_median_share r of None \<Rightarrow> JNull | Some x \<Rightarrow> JFloat x),
     (''median_latency_ms'', JInt (cr_median_latency_ms r)), (''median_speed_kbps'', JFloat (cr_median_speed_kbps r)),
     (''longest_silence_ms'', cr_longest_silence_ms r), (''observed'', JStr (cr_observed r)),
     (''admits'', JList (map JStr (cr_admits r)))]"

definition refused_json :: "check_row \<times> reason \<Rightarrow> json dict" where
  "refused_json x = check_row_json (fst x) @ [(''reason'', JStr (reason_text (snd x)))]"

definition scan_json :: "scan_report \<Rightarrow> json" where
  "scan_json s = JDict [(''domain'', JStr (sc_domain s)), (''block_type'', JStr (sc_block_type s)),
     (''dns_spoofed'', JBool (sc_dns_spoofed s)), (''blocked'', JList (sc_blocked s)), (''total'', JInt (sc_total s)),
     (''working'', JInt (sc_working s)),
     (''strategies'', JList (map (\<lambda>r. JDict [(''protocol'', JStr (sr_protocol r)), (''args'', JStr (sr_args r)),
        (''coverage'', JInt (sr_coverage r))]) (sc_strategies s)))]"

definition check_json :: "check_report \<Rightarrow> json" where
  "check_json c = JDict [(''domain'', JStr (ck_domain c)), (''total'', JInt (ck_total c)), (''working'', JInt (ck_working c)),
     (''elapsed_secs'', JFloat (ck_elapsed_secs c)), (''inconclusive'', JBool (ck_inconclusive c)),
     (''strategies'', JList (map (\<lambda>r. JDict (check_row_json r)) (ck_strategies c)))]"

definition rc_json :: "int option \<Rightarrow> json" where
  "rc_json rc = (case rc of None \<Rightarrow> JNull | Some n \<Rightarrow> JInt n)"

definition domain_json :: "domain_result \<Rightarrow> json dict" where
  "domain_json d = [(''domain'', JStr (dr_domain d)), (''scan_rc'', rc_json (dr_scan_rc d)),
     (''check_rc'', rc_json (dr_check_rc d)), (''block_type'', JStr (dr_block_type d)), (''blocked'', JList (dr_blocked d)),
     (''scanned'', JInt (int (dr_scanned d))), (''checked'', JInt (int (dr_checked d))),
     (''inconclusive'', JBool (dr_inconclusive d)),
     (''working'', JList (map (\<lambda>r. JDict (check_row_json r)) (dr_working d))),
     (''refused'', JList (map (\<lambda>x. JDict (refused_json x)) (dr_refused d))),
     (''scan'', case dr_scan d of None \<Rightarrow> JNull | Some s \<Rightarrow> scan_json s),
     (''check'', case dr_check d of None \<Rightarrow> JNull | Some c \<Rightarrow> check_json c)]"

definition plan_json :: "run_plan \<Rightarrow> json" where
  "plan_json p = JDict [(''domain'', JStr (rf_domain p)), (''scan_out'', JStr (rf_scan_out p)),
     (''check_out'', JStr (rf_check_out p)), (''log'', JStr (rf_log p)),
     (''scan'', JList (map JStr (rp_scan p))), (''check'', JList (map JStr (rp_check p)))]"

text \<open>\<open>round(x, 1)\<close>.\<close>

definition round_tenth :: "rat \<Rightarrow> rat" where
  "round_tenth x = of_int (round_half_even (x * 10)) / 10"

definition result_json :: "run_result \<Rightarrow> json dict" where
  "result_json r = [(''ok'', JBool (rr_ok r)), (''success'', JBool (rr_success r)), (''run_id'', JStr (rr_run_id r)),
     (''started_at'', JStr (utc_stamp \<lfloor>rr_started r\<rfloor>)), (''finished_at'', JStr (utc_stamp \<lfloor>rr_finished r\<rfloor>)),
     (''took_s'', JFloat (Finite (round_tenth (rr_finished r - rr_started r)))), (''queue'', rr_queue r),
     (''settings'', JDict (rr_settings r)), (''plans'', JList (map plan_json (rr_plans r))),
     (''domains'', JList (map (\<lambda>d. JDict (domain_json d)) (rr_domains r))),
     (''errors'', JList (map JStr (rr_errors r))), (''log'', JStr (rr_log r))]"

section \<open>The whole run\<close>

text \<open>
  \<open>dirs_ok\<close> and \<open>log_ok\<close> say whether the run directory can be made and its log opened; the fault is that
  of the write of the result file, whose failure is ignored.
\<close>

definition run ::
  "engine \<Rightarrow> (string \<Rightarrow> json option) \<Rightarrow> bool \<Rightarrow> bool \<Rightarrow> fault \<Rightarrow> json dict \<Rightarrow> string \<Rightarrow> run_world
    \<Rightarrow> (run_result \<times> run_world) result"
where
  "run eng loads dirs_ok log_ok f settings run_dir w =
     (case py_float (dget_or settings ''job_timeout'' (JInt 3600)) of Inl e \<Rightarrow> Inl e
      | Inr timeout \<Rightarrow> if \<not> dirs_ok then Inl OSError
      else (case plan settings run_dir of Inl e \<Rightarrow> Inl e
      | Inr p \<Rightarrow> (case rfold (run_item eng loads log_ok settings (budget timeout (rw_now w)))
               \<lparr>rs_world = w, rs_domains = [], rs_errors = []\<rparr> (fp_runs p) of Inl e \<Rightarrow> Inl e
      | Inr s \<Rightarrow> (case py_int (dget_or settings ''log_lines'' (JInt 400)) of Inl e \<Rightarrow> Inl e
      | Inr n \<Rightarrow> (let res = \<lparr>rr_ok = list_ex (\<lambda>d. dr_scan_rc d = Some 0) (rs_domains s),
              rr_success = list_ex (\<lambda>d. dr_working d \<noteq> []) (rs_domains s),
              rr_run_id = dir_name run_dir, rr_started = rw_now w, rr_finished = rw_now (rs_world s),
              rr_queue = dget_or settings ''queue'' (JInt BCW_QUEUE_FIXED),
              rr_settings = map (\<lambda>kv. (fst kv, dget_or settings (fst kv) JNull)) SETTINGS_SPEC,
              rr_plans = fp_runs p, rr_domains = rs_domains s, rr_errors = rs_errors s,
              rr_log = tail_file (LogText (rw_log (rs_world s))) n\<rparr>
            in case write_json f (os_join run_dir ''result.json'') (JDict (result_json res)) (rw_store (rs_world s)) of
                 (st', ok) \<Rightarrow> Inr (res, (rs_world s)\<lparr>rw_store := st'\<rparr>))))))"

section \<open>Pruning\<close>

text \<open>
  What stands in the directory of the runs: plain files, and run directories with the names of their
  entries and whether each is a directory itself. \<open>can_unlink\<close> and \<open>can_open\<close> are the permissions on an
  entry, and on a run directory.
\<close>

datatype runs_entry = PlainFile | RunDir "(string \<times> bool) list"

type_synonym runs_tree = "(string \<times> runs_entry) list"

definition run_names :: "runs_tree \<Rightarrow> string list" where
  "run_names tree = map fst (filter (\<lambda>x. snd x \<noteq> PlainFile) tree)"

definition newest_first :: "runs_tree \<Rightarrow> string list" where
  "newest_first tree = rev (sort (run_names tree))"

text \<open>\<open>xs[k:]\<close>, where a negative \<open>k\<close> counts from the end.\<close>

definition from_index :: "int \<Rightarrow> 'a list \<Rightarrow> 'a list" where
  "from_index k xs = (if 0 \<le> k then drop (nat k) xs else drop (nat (int (length xs) + k)) xs)"

definition prune_one ::
  "(string \<Rightarrow> string \<Rightarrow> bool) \<Rightarrow> (string \<Rightarrow> bool) \<Rightarrow> runs_tree \<times> string list \<Rightarrow> string \<Rightarrow> runs_tree \<times> string list"
where
  "prune_one can_unlink can_open s name = (case map_of (fst s) name of
       Some (RunDir es) \<Rightarrow>
         if \<not> can_open name then s
         else (let left = filter (\<lambda>e. snd e \<or> \<not> can_unlink name (fst e)) es in
           if left = [] then (AList.delete name (fst s), snd s @ [name])
           else (AList.update name (RunDir left) (fst s), snd s))
     | _ \<Rightarrow> s)"

definition prune_runs ::
  "(string \<Rightarrow> string \<Rightarrow> bool) \<Rightarrow> (string \<Rightarrow> bool) \<Rightarrow> int \<Rightarrow> runs_tree \<Rightarrow> runs_tree \<times> string list"
where
  "prune_runs can_unlink can_open keep tree =
     foldl (prune_one can_unlink can_open) (tree, []) (from_index keep (newest_first tree))"

section \<open>The summary\<close>

text \<open>One text per domain; the dash of the control line is U+2014 in the code.\<close>

text \<open>\<open>len(x or [])\<close>; a number has no length.\<close>

definition py_len :: "json \<Rightarrow> int result" where
  "py_len v = (case v of JStr s \<Rightarrow> Inr (int (length s)) | JList xs \<Rightarrow> Inr (int (length xs))
     | JDict d \<Rightarrow> Inr (int (length d)) | _ \<Rightarrow> Inl TypeError)"

definition summary_bits :: "json dict \<Rightarrow> string result" where
  "summary_bits d =
     (case py_int (py_or (dget_or d ''scanned'' JNull) (JInt 0)) of Inl e \<Rightarrow> Inl e
      | Inr scanned \<Rightarrow> (case (if truthy (dget_or d ''checked'' JNull)
            then (case py_int (dget_or d ''checked'' JNull) of Inl e \<Rightarrow> Inl e | Inr n \<Rightarrow> Inr [''checked '' @ show_int n])
            else Inr []) of Inl e \<Rightarrow> Inl e
      | Inr checked \<Rightarrow> (case py_len (py_or (dget_or d ''working'' JNull) (JList [])) of Inl e \<Rightarrow> Inl e
      | Inr working \<Rightarrow> Inr (join '', '' (
            [py_str (dget_or d ''domain'' JNull) @ '': '' @ py_str (py_or (dget_or d ''block_type'' JNull) (JStr ''?'')),
             ''scanned '' @ show_int scanned] @ checked @ [''working '' @ show_int working]
            @ (if truthy (dget_or d ''inconclusive'' JNull) then [''CONTROL PASSED - domain is not blocked''] else []))))))"

definition summarize :: "json dict \<Rightarrow> string result" where
  "summarize res = (case get_items res ''domains'' of Inl e \<Rightarrow> Inl e
     | Inr vs \<Rightarrow> (case rmap (\<lambda>v. case v of JDict d \<Rightarrow> summary_bits d | _ \<Rightarrow> Inl AttributeError) vs of Inl e \<Rightarrow> Inl e
       | Inr parts \<Rightarrow> (case (if truthy (dget_or res ''errors'' JNull)
             then (case py_len (dget_or res ''errors'' JNull) of Inl e \<Rightarrow> Inl e
               | Inr n \<Rightarrow> Inr [show_int n @ '' error(s)'']) else Inr []) of Inl e \<Rightarrow> Inl e
         | Inr errs \<Rightarrow> Inr (let t = join '' | '' (parts @ errs) in if t = [] then ''no domains'' else t))))"

section \<open>Facts about a step and a domain\<close>

text \<open>
  Documented behaviour of the process call: time does not run backwards, and a process is stopped when
  its time limit is reached.
\<close>

definition timely :: "engine \<Rightarrow> bool" where
  "timely eng = (\<forall>cmd b w. rw_now w \<le> rw_now (snd (eng cmd b w)) \<and>
     (\<forall>q. b = Finite q \<longrightarrow> 0 \<le> q \<longrightarrow> rw_now (snd (eng cmd b w)) \<le> rw_now w + q))"

lemma log_write_now [simp]: "rw_now (log_write t w) = rw_now w"
  by (simp add: log_write_def)

lemma run_step_now:
  assumes "timely eng" and "0 \<le> q" and "run_step eng log_ok cmd (Finite q) w = Inr (r, w')"
  shows "rw_now w \<le> rw_now w' \<and> rw_now w' \<le> rw_now w + q"
proof -
  let ?w = "log_write ([LF] @ ''$ '' @ join '' '' cmd @ [LF]) w"
  obtain e w1 where e: "eng cmd (Finite q) ?w = (e, w1)" by fastforce
  have "rw_now ?w \<le> rw_now (snd (eng cmd (Finite q) ?w)) \<and> rw_now (snd (eng cmd (Finite q) ?w)) \<le> rw_now ?w + q"
    using assms(1,2) unfolding timely_def by blast
  moreover have "rw_now w' = rw_now w1"
    using assms(3) e by (auto simp: run_step_def split: if_splits step_end.splits)
  ultimately show ?thesis using e by simp
qed

text \<open>What a step under the budget of a deadline does to the clock.\<close>

definition by_deadline :: "rat \<Rightarrow> rat \<Rightarrow> run_world \<Rightarrow> run_world \<Rightarrow> bool" where
  "by_deadline deadline extra w w' = (rw_now w \<le> rw_now w' \<and> rw_now w' \<le> max deadline (rw_now w) + extra)"

lemma step_by_deadline:
  assumes "timely eng" and "run_step eng log_ok cmd (budget (Finite q) started (rw_now w)) w = Inr (r, w')"
  shows "by_deadline (started + q) 5 w w'"
proof -
  have "run_step eng log_ok cmd (Finite (max 5 (started + q - rw_now w))) w = Inr (r, w')"
    using assms(2) by (simp add: budget_def)
  from run_step_now [OF assms(1) _ this] have "rw_now w \<le> rw_now w' \<and> rw_now w' \<le> rw_now w + max 5 (started + q - rw_now w)"
    by simp
  then show ?thesis by (auto simp: by_deadline_def max_def split: if_splits)
qed

lemma by_deadline_trans:
  "by_deadline d a w w1 \<Longrightarrow> by_deadline d b w1 w2 \<Longrightarrow> 0 \<le> a \<Longrightarrow> 0 \<le> b \<Longrightarrow> by_deadline d (a + b) w w2"
  unfolding by_deadline_def by (auto simp: max_def split: if_splits)

lemma by_deadline_more: "by_deadline d a w w1 \<Longrightarrow> a \<le> b \<Longrightarrow> by_deadline d b w w1"
  by (auto simp: by_deadline_def)

lemma check_domain_time:
  assumes "timely eng"
    and "check_domain eng loads log_ok settings (budget (Finite q) started) item dm w = Inr (w', dm', err)"
  shows "by_deadline (started + q) 5 w w'"
proof -
  obtain rc msg where "run_step eng log_ok (rp_check item) (budget (Finite q) started (rw_now w)) w = Inr ((rc, msg), w')"
    using assms(2) by (auto simp: check_domain_def split: sum.splits if_splits option.splits)
  with assms(1) show ?thesis by (rule step_by_deadline)
qed

lemma run_domain_cases:
  assumes "run_domain eng loads log_ok settings limit item w = Inr (w', dm', err)"
  obtains (stopped) rc msg where "run_step eng log_ok (rp_scan item) (limit (rw_now w)) w = Inr ((rc, msg), w')"
      "dr_check_rc dm' = None" "dr_working dm' = []" "dr_domain dm' = rf_domain item" "dr_check dm' = None"
      "err = None \<longleftrightarrow> dr_scan dm' \<noteq> None" "dr_scanned dm' = 0"
  | (checked) rc msg w1 dm where "run_step eng log_ok (rp_scan item) (limit (rw_now w)) w = Inr ((rc, msg), w1)"
      "check_domain eng loads log_ok settings limit item dm w1 = Inr (w', dm', err)"
      "dr_scan_rc dm = Some 0" "dr_scanned dm \<noteq> 0" "dr_working dm = []" "dr_domain dm = rf_domain item"
      "dr_check dm = None" "dr_scan dm \<noteq> None"
proof -
  obtain rc msg w1 where s: "run_step eng log_ok (rp_scan item) (limit (rw_now w)) w = Inr ((rc, msg), w1)"
    using assms by (auto simp: run_domain_def Let_def split: sum.splits)
  note def = assms [unfolded run_domain_def Let_def s]
  show thesis
  proof (cases "rc \<noteq> 0")
    case True
    with def s show thesis by (intro stopped [of rc msg]) (auto simp: blank_domain_def)
  next
    case False
    then obtain r where r: "parse_scan_report loads (read_report (rw_store w1) (rf_scan_out item)) = Inr r"
      using def by (auto split: sum.splits)
    show thesis
    proof (cases r)
      case None
      with False def r s show thesis by (intro stopped [of rc msg]) (auto simp: blank_domain_def)
    next
      case (Some scan)
      show thesis
      proof (cases "sc_strategies scan = []")
        case True
        with Some False def r s show thesis by (intro stopped [of rc msg]) (auto simp: blank_domain_def)
      next
        case cands: False
        from False Some def r s cands show thesis by (intro checked [OF s]) (auto simp: blank_domain_def)
      qed
    qed
  qed
qed

lemma run_domain_time:
  assumes "timely eng"
    and "run_domain eng loads log_ok settings (budget (Finite q) started) item w = Inr (w', dm', err)"
  shows "by_deadline (started + q) 10 w w'"
  using assms(2)
proof (cases rule: run_domain_cases)
  case (stopped rc msg)
  show ?thesis by (rule by_deadline_more [OF step_by_deadline [OF assms(1) stopped(1)]]) simp
next
  case (checked rc msg w1 dm)
  from by_deadline_trans [OF step_by_deadline [OF assms(1) checked(1)] check_domain_time [OF assms(1) checked(2)]]
  show ?thesis by simp
qed

lemma run_items_time:
  assumes "timely eng"
    and "rfold (run_item eng loads log_ok settings (budget (Finite q) started)) s items = Inr s'"
  shows "by_deadline (started + q) (10 * of_nat (length items)) (rs_world s) (rs_world s')"
  using assms(2)
proof (induction items arbitrary: s)
  case Nil
  then show ?case by (simp add: by_deadline_def)
next
  case (Cons item items)
  from Cons.prems obtain s1 where s1: "run_item eng loads log_ok settings (budget (Finite q) started) s item = Inr s1"
    "rfold (run_item eng loads log_ok settings (budget (Finite q) started)) s1 items = Inr s'"
    by (auto simp: rbind_eq_Inr)
  from s1(1) obtain w' dm' err where
    "run_domain eng loads log_ok settings (budget (Finite q) started) item (rs_world s) = Inr (w', dm', err)" "rs_world s1 = w'"
    by (auto simp: run_item_def split: sum.splits)
  then have "by_deadline (started + q) 10 (rs_world s) (rs_world s1)" using run_domain_time [OF assms(1)] by simp
  from by_deadline_trans [OF this Cons.IH [OF s1(2)]] show ?case by (simp add: algebra_simps)
qed

section \<open>What a domain's result may say\<close>

text \<open>
  A check is only run after a scan that ended well and found candidates; accepted rows come only from a
  check that ended well, stand in its report, and have nothing against them.
\<close>

definition sound_domain :: "json dict \<Rightarrow> domain_result \<Rightarrow> bool" where
  "sound_domain settings d =
     ((dr_check_rc d \<noteq> None \<longrightarrow> dr_scan_rc d = Some 0 \<and> dr_scanned d \<noteq> 0) \<and>
      (dr_working d \<noteq> [] \<longrightarrow> dr_check_rc d = Some 0) \<and>
      list_all (\<lambda>r. cr_working r \<and> filter_reason settings r = Inr None \<and>
        (case dr_check d of None \<Rightarrow> False | Some c \<Rightarrow> r \<in> set (ck_strategies c))) (dr_working d))"

lemma accepted_sound:
  "select_working rows settings = Inr (acc, ref) \<Longrightarrow>
     list_all (\<lambda>r. cr_working r \<and> filter_reason settings r = Inr None \<and> r \<in> set rows) acc"
  using select_working_split(1) [of rows settings acc ref] best_first.ranked_set [of rows]
  by (auto simp: list_all_iff accepted_working)

lemma check_domain_sound:
  assumes "check_domain eng loads log_ok settings limit item dm w = Inr (w', dm', err)"
    and "dr_scan_rc dm = Some 0" "dr_scanned dm \<noteq> 0" "dr_working dm = []"
  shows "sound_domain settings dm' \<and> dr_domain dm' = dr_domain dm"
  using assms by (auto simp: check_domain_def sound_domain_def dest!: accepted_sound
      split: sum.splits if_splits option.splits elim!: list.pred_mono_strong)

lemma run_domain_sound:
  assumes "run_domain eng loads log_ok settings limit item w = Inr (w', dm', err)"
  shows "sound_domain settings dm' \<and> dr_domain dm' = rf_domain item"
  using assms
proof (cases rule: run_domain_cases)
  case (stopped rc msg)
  then show ?thesis by (simp add: sound_domain_def)
next
  case (checked rc msg w1 dm)
  from check_domain_sound [OF checked(2-5)] checked(6) show ?thesis by simp
qed

text \<open>An error line is added exactly for a domain whose scan or check failed or left no report.\<close>

definition finished_domain :: "domain_result \<Rightarrow> bool" where
  "finished_domain d = (dr_scan d \<noteq> None \<and> (dr_scanned d = 0 \<or> dr_check d \<noteq> None))"

lemma check_domain_error:
  "check_domain eng loads log_ok settings limit item dm w = Inr (w', dm', err) \<Longrightarrow> dr_check dm = None \<Longrightarrow>
     dr_scan dm \<noteq> None \<Longrightarrow> dr_scanned dm \<noteq> 0 \<Longrightarrow> err = None \<longleftrightarrow> finished_domain dm'"
  by (auto simp: check_domain_def finished_domain_def split: sum.splits if_splits option.splits)

lemma run_domain_error:
  assumes "run_domain eng loads log_ok settings limit item w = Inr (w', dm', err)"
  shows "err = None \<longleftrightarrow> finished_domain dm'"
  using assms
proof (cases rule: run_domain_cases)
  case (stopped rc msg)
  then show ?thesis by (simp add: finished_domain_def)
next
  case (checked rc msg w1 dm)
  from check_domain_error [OF checked(2,7,8,4)] show ?thesis .
qed

lemma run_items_sound:
  assumes "rfold (run_item eng loads log_ok settings limit) s items = Inr s'"
  shows "\<exists>ds. rs_domains s' = rs_domains s @ ds \<and> map dr_domain ds = map rf_domain items \<and>
    list_all (sound_domain settings) ds \<and>
    length (rs_errors s') = length (rs_errors s) + length (filter (\<lambda>d. \<not> finished_domain d) ds)"
  using assms
proof (induction items arbitrary: s)
  case Nil
  then show ?case by simp
next
  case (Cons item items)
  from Cons.prems obtain s1 where s1: "run_item eng loads log_ok settings limit s item = Inr s1"
    "rfold (run_item eng loads log_ok settings limit) s1 items = Inr s'"
    by (auto simp: rbind_eq_Inr)
  from s1(1) obtain w' dm' err where
    d: "run_domain eng loads log_ok settings limit item (rs_world s) = Inr (w', dm', err)"
    "rs_domains s1 = rs_domains s @ [dm']" "length (rs_errors s1) = length (rs_errors s) + (if err = None then 0 else 1)"
    by (auto simp: run_item_def split: sum.splits option.splits)
  from Cons.IH [OF s1(2)] obtain ds where "rs_domains s' = rs_domains s1 @ ds \<and> map dr_domain ds = map rf_domain items \<and>
    list_all (sound_domain settings) ds \<and>
    length (rs_errors s') = length (rs_errors s1) + length (filter (\<lambda>d. \<not> finished_domain d) ds)" by blast
  with d run_domain_sound [OF d(1)] run_domain_error [OF d(1)] show ?case
    by (intro exI [of _ "dm' # ds"]) auto
qed

lemma run_cases:
  assumes "run eng loads dirs_ok log_ok f settings run_dir w = Inr (res, w')"
  obtains timeout p s where "py_float (dget_or settings ''job_timeout'' (JInt 3600)) = Inr timeout"
    "plan settings run_dir = Inr p"
    "rfold (run_item eng loads log_ok settings (budget timeout (rw_now w)))
       \<lparr>rs_world = w, rs_domains = [], rs_errors = []\<rparr> (fp_runs p) = Inr s"
    "rr_domains res = rs_domains s" "rr_errors res = rs_errors s" "rr_plans res = fp_runs p"
    "rr_ok res = list_ex (\<lambda>d. dr_scan_rc d = Some 0) (rs_domains s)"
    "rr_success res = list_ex (\<lambda>d. dr_working d \<noteq> []) (rs_domains s)"
    "rw_now w' = rw_now (rs_world s)"
    "f = NoFault \<longrightarrow> read_json (rw_store w') (os_join run_dir ''result.json'') JNull = JDict (result_json res)"
proof -
  from assms obtain timeout p s n where
    o: "py_float (dget_or settings ''job_timeout'' (JInt 3600)) = Inr timeout" "plan settings run_dir = Inr p"
    "rfold (run_item eng loads log_ok settings (budget timeout (rw_now w)))
       \<lparr>rs_world = w, rs_domains = [], rs_errors = []\<rparr> (fp_runs p) = Inr s"
    "py_int (dget_or settings ''log_lines'' (JInt 400)) = Inr n"
    unfolding run_def by (auto split: sum.splits if_splits)
  obtain st' ok where "write_json f (os_join run_dir ''result.json'') (JDict (result_json res)) (rw_store (rs_world s)) = (st', ok)"
    by fastforce
  with assms o write_json_ok [OF this] write_json_read [OF this, of JNull] show thesis
    by (intro that [OF o(1-3)]) (auto simp: run_def Let_def split: if_splits prod.splits)
qed

section \<open>Facts about pruning\<close>

lemma prune_one_other:
  "n \<noteq> name \<Longrightarrow> map_of (fst (prune_one cu co s name)) n = map_of (fst s) n"
  by (auto simp: prune_one_def Let_def delete_conv' update_conv' split: option.splits runs_entry.splits)

lemma prune_fold_other:
  "n \<notin> set names \<Longrightarrow> map_of (fst (foldl (prune_one cu co) s names)) n = map_of (fst s) n"
  by (induction names arbitrary: s) (auto simp: prune_one_other)

lemma prune_one_removed: "set (snd (prune_one cu co s m)) \<subseteq> insert m (set (snd s))"
  by (auto simp: prune_one_def Let_def split: option.splits runs_entry.splits if_splits)

lemma prune_fold_removed: "set (snd (foldl (prune_one cu co) s ns)) \<subseteq> set (snd s) \<union> set ns"
proof (induction ns arbitrary: s)
  case (Cons m ns)
  from Cons.IH [of "prune_one cu co s m"] prune_one_removed [of cu co s m] show ?case by auto
qed simp

text \<open>A run directory that holds a directory keeps it.\<close>

definition holds_dir :: "runs_tree \<Rightarrow> string \<Rightarrow> string \<Rightarrow> bool" where
  "holds_dir tree n d = (case map_of tree n of Some (RunDir es) \<Rightarrow> (d, True) \<in> set es | _ \<Rightarrow> False)"

lemma prune_one_holds:
  assumes "holds_dir (fst s) n d" and "n \<notin> set (snd s)"
  shows "holds_dir (fst (prune_one cu co s name)) n d \<and> n \<notin> set (snd (prune_one cu co s name))"
proof (cases "name = n")
  case True
  from assms(1) obtain es where es: "map_of (fst s) n = Some (RunDir es)" "(d, True) \<in> set es"
    by (auto simp: holds_dir_def split: option.splits runs_entry.splits)
  then have "(d, True) \<in> set (filter (\<lambda>e. snd e \<or> \<not> cu n (fst e)) es)" by simp
  then have "filter (\<lambda>e. snd e \<or> \<not> cu n (fst e)) es \<noteq> []" by (metis list.distinct(1) list.set_cases)
  with es assms True show ?thesis by (auto simp: prune_one_def Let_def holds_dir_def update_conv')
next
  case False
  then show ?thesis
    using assms prune_one_other [of n name cu co s] prune_one_removed [of cu co s name] by (auto simp: holds_dir_def)
qed

lemma prune_fold_holds:
  "holds_dir (fst s) n d \<Longrightarrow> n \<notin> set (snd s) \<Longrightarrow>
     holds_dir (fst (foldl (prune_one cu co) s names)) n d \<and> n \<notin> set (snd (foldl (prune_one cu co) s names))"
proof (induction names arbitrary: s)
  case (Cons name names)
  from prune_one_holds [OF Cons.prems, of cu co name] Cons.IH show ?case by simp
qed simp

lemma newest_first_later:
  assumes "distinct (run_names tree)" and "n \<in> set (drop k (newest_first tree))"
  shows "k \<le> card {m \<in> set (run_names tree). n < m}"
proof -
  let ?xs = "newest_first tree"
  have d: "distinct ?xs" and set: "set ?xs = set (run_names tree)" using assms(1) by (simp_all add: newest_first_def)
  have "sorted_wrt (\<ge>) ?xs" by (simp add: newest_first_def sorted_wrt_rev)
  then have "sorted_wrt (\<ge>) (take k ?xs @ drop k ?xs)" by simp
  then have "\<forall>m\<in>set (take k ?xs). n \<le> m" using assms(2) unfolding sorted_wrt_append by blast
  moreover have "n \<notin> set (take k ?xs)" using d assms(2) set_take_disj_set_drop_if_distinct [of ?xs k k] by auto
  ultimately have "set (take k ?xs) \<subseteq> {m \<in> set (run_names tree). n < m}"
    using set set_take_subset [of k ?xs] by (force simp: less_le)
  from card_mono [OF _ this] have "card (set (take k ?xs)) \<le> card {m \<in> set (run_names tree). n < m}" by simp
  moreover have "card (set (take k ?xs)) = min (length ?xs) k" using d by (simp add: distinct_card)
  moreover have "k < length ?xs" using assms(2) by (cases "k < length ?xs") auto
  ultimately show ?thesis by simp
qed

lemma run_sound:
  assumes "run eng loads dirs_ok log_ok f settings run_dir w = Inr (res, w')"
  shows "(\<forall>p. plan settings run_dir = Inr p \<longrightarrow> map dr_domain (rr_domains res) = map rf_domain (fp_runs p)) \<and>
    list_all (sound_domain settings) (rr_domains res) \<and>
    rr_ok res = list_ex (\<lambda>d. dr_scan_rc d = Some 0) (rr_domains res) \<and>
    rr_success res = list_ex (\<lambda>d. dr_working d \<noteq> []) (rr_domains res) \<and>
    length (rr_errors res) = length (filter (\<lambda>d. \<not> finished_domain d) (rr_domains res))"
proof -
  from assms(1) obtain timeout p' s where s: "plan settings run_dir = Inr p'"
    "rfold (run_item eng loads log_ok settings (budget timeout (rw_now w)))
       \<lparr>rs_world = w, rs_domains = [], rs_errors = []\<rparr> (fp_runs p') = Inr s"
    "rr_domains res = rs_domains s" "rr_errors res = rs_errors s"
    "rr_ok res = list_ex (\<lambda>d. dr_scan_rc d = Some 0) (rs_domains s)"
    "rr_success res = list_ex (\<lambda>d. dr_working d \<noteq> []) (rs_domains s)"
    by (rule run_cases)
  from run_items_sound [OF s(2)] s show ?thesis by auto
qed

section \<open>Properties\<close>

text \<open>
  Property C19. The result of a run reports its domains faithfully: there is one entry per configured domain,
  in their order; a check was only run after a successful scan that found candidates; accepted rows come
  from the report of a successful check, were measured working and have nothing against them; the run
  is ok exactly when some scan succeeded, a success exactly when some row was accepted, and there is one
  error line per domain that left no usable report.
\<close>

theorem run_reports_faithfully:
  assumes "run eng loads dirs_ok log_ok f settings run_dir w = Inr (res, w')" and "plan settings run_dir = Inr p"
  shows "map dr_domain (rr_domains res) = map rf_domain (fp_runs p) \<and>
    list_all (sound_domain settings) (rr_domains res) \<and>
    rr_ok res = list_ex (\<lambda>d. dr_scan_rc d = Some 0) (rr_domains res) \<and>
    rr_success res = list_ex (\<lambda>d. dr_working d \<noteq> []) (rr_domains res) \<and>
    length (rr_errors res) = length (filter (\<lambda>d. \<not> finished_domain d) (rr_domains res))"
  using run_sound [OF assms(1)] assms(2) by blast

text \<open>A small engine: every command takes a second, and leaves both reports of the domain \<open>a.b\<close>.\<close>

definition sample_engine :: engine where
  "sample_engine cmd b w = (Exited 0, w\<lparr>rw_now := rw_now w + (case b of Finite q \<Rightarrow> max 0 (min 1 q) | _ \<Rightarrow> 1),
     rw_store := (rw_store w)(
       ''/r/scan_a_b.json'' \<mapsto> Json (JDict [(''strategies'', JList [JDict [(''args'', JStr ''--x'')]])]),
       ''/r/check_a_b.json'' \<mapsto> Json (JDict [(''strategies'', JList
          [JDict [(''args'', JStr ''--x''), (''working'', JBool True)], JDict [(''args'', JStr ''--y'')]])]))\<rparr>)"

definition sample_settings :: "json dict" where
  "sample_settings = [(''bin'', JStr ''bcw''), (''queue'', JInt 230), (''workers'', JInt 8), (''protocols'', JList [JStr ''http'']),
     (''profiles_per_instance'', JInt 8), (''dns'', JStr ''auto''), (''scan_timeout'', JInt 3), (''scan_top'', JInt 5),
     (''domains'', JList [JStr ''a.b'']), (''check_timeout'', JInt 8), (''idle_ms'', JInt 100), (''take'', JInt 5),
     (''passes'', JInt 2), (''probe_path'', JStr ''/''), (''identity_path'', JStr ''/''), (''job_timeout'', JInt 60)]"

definition sample_world :: run_world where
  "sample_world = \<lparr>rw_now = 0, rw_store = (\<lambda>_. None), rw_log = []\<rparr>"

lemma sample_engine_timely: "timely sample_engine"
  by (auto simp: timely_def sample_engine_def split: pyfloat.splits)

lemma sample_run:
  "\<exists>res w' p. run sample_engine (\<lambda>_. None) True True NoFault sample_settings ''/r'' sample_world = Inr (res, w') \<and>
    plan sample_settings ''/r'' = Inr p \<and> map dr_domain (rr_domains res) = [''a.b''] \<and> rr_success res \<and>
    map (\<lambda>d. map cr_args (dr_working d)) (rr_domains res) = [[''--x'']]"
proof -
  have "(case run sample_engine (\<lambda>_. None) True True NoFault sample_settings ''/r'' sample_world of Inl e \<Rightarrow> False
      | Inr (res, w') \<Rightarrow> map dr_domain (rr_domains res) = [''a.b''] \<and> rr_success res \<and>
          map (\<lambda>d. map cr_args (dr_working d)) (rr_domains res) = [[''--x'']])"
    by code_simp
  moreover have "(case plan sample_settings ''/r'' of Inl e \<Rightarrow> False | Inr p \<Rightarrow> True)" by code_simp
  ultimately show ?thesis by (auto split: sum.splits)
qed

theorem run_reports_faithfully_witness:
  "\<exists>res w'. run sample_engine (\<lambda>_. None) True True NoFault sample_settings ''/r'' sample_world = Inr (res, w') \<and>
    rr_success res \<and> list_all (sound_domain sample_settings) (rr_domains res) \<and>
    length (rr_errors res) = length (filter (\<lambda>d. \<not> finished_domain d) (rr_domains res))"
  using sample_run run_reports_faithfully by blast

text \<open>
  Property C20. A run keeps its time limit: when the engine is stopped at the limits it is given, a run of
  \<open>n\<close> domains ends at most ten seconds per domain after its deadline, the two minimal budgets of five
  seconds that every domain has.
\<close>

theorem run_keeps_time:
  assumes "run eng loads dirs_ok log_ok f settings run_dir w = Inr (res, w')" and "timely eng"
    and "py_float (dget_or settings ''job_timeout'' (JInt 3600)) = Inr (Finite q)" and "0 \<le> q"
  shows "rw_now w \<le> rw_now w' \<and> rw_now w' \<le> rw_now w + q + 10 * of_nat (length (rr_domains res))"
proof -
  from assms(1) obtain timeout p s where s: "py_float (dget_or settings ''job_timeout'' (JInt 3600)) = Inr timeout"
    "plan settings run_dir = Inr p"
    "rfold (run_item eng loads log_ok settings (budget timeout (rw_now w)))
       \<lparr>rs_world = w, rs_domains = [], rs_errors = []\<rparr> (fp_runs p) = Inr s"
    "rr_domains res = rs_domains s" "rw_now w' = rw_now (rs_world s)"
    by (rule run_cases)
  have "length (rs_domains s) = length (fp_runs p)" using run_items_sound [OF s(3)] by (auto dest: map_eq_imp_length_eq)
  with s assms(3,4) run_items_time [OF assms(2), of loads log_ok settings q "rw_now w" _ "fp_runs p"] show ?thesis
    by (fastforce simp: by_deadline_def)
qed

theorem run_keeps_time_witness:
  "\<exists>res w'. run sample_engine (\<lambda>_. None) True True NoFault sample_settings ''/r'' sample_world = Inr (res, w') \<and>
    rw_now w' \<le> 70"
proof -
  obtain res w' where r: "run sample_engine (\<lambda>_. None) True True NoFault sample_settings ''/r'' sample_world = Inr (res, w')"
    and d: "map dr_domain (rr_domains res) = [''a.b'']"
    using sample_run by (elim exE conjE) (rule that)
  have t: "py_float (dget_or sample_settings ''job_timeout'' (JInt 3600)) = Inr (Finite 60)"
    by (simp add: sample_settings_def dget_or_def)
  have "length (rr_domains res) = 1" using arg_cong [OF d, of length] by simp
  with run_keeps_time [OF r sample_engine_timely t] r show ?thesis by (auto simp: sample_world_def)
qed

text \<open>
  Property C21. Pruning keeps the newest runs: a run directory that fewer than \<open>keep\<close> others follow in the
  order of names is left as it is, and so is everything that is no run directory.
\<close>

theorem prune_keeps_newest:
  assumes "prune_runs can_unlink can_open keep tree = (tree', removed)" and "0 \<le> keep" and "distinct (map fst tree)"
    and "n \<notin> set (run_names tree) \<or> int (card {m \<in> set (run_names tree). n < m}) < keep"
  shows "map_of tree' n = map_of tree n \<and> n \<notin> set removed"
proof -
  let ?doomed = "from_index keep (newest_first tree)"
  have names: "set (run_names tree) = set (newest_first tree)" by (simp add: newest_first_def)
  have "distinct (run_names tree)" using assms(3) by (simp add: run_names_def distinct_map_filter)
  then have "n \<notin> set ?doomed"
    using assms(2,4) newest_first_later [of tree n "nat keep"] names by (auto simp: from_index_def dest: in_set_dropD)
  moreover have eq: "foldl (prune_one can_unlink can_open) (tree, []) ?doomed = (tree', removed)"
    using assms(1) by (simp add: prune_runs_def)
  ultimately show ?thesis
    using prune_fold_other [of n ?doomed can_unlink can_open "(tree, [])"]
      prune_fold_removed [of can_unlink can_open "(tree, [])" ?doomed] by (auto simp: eq)
qed

theorem prune_keeps_newest_witness:
  "\<exists>tree'. prune_runs (\<lambda>_ _. True) (\<lambda>_. True) 1 [(''1'', RunDir [(''a'', False)]), (''2'', RunDir []), (''x'', PlainFile)]
      = (tree', [''1'']) \<and> map_of tree' ''2'' = Some (RunDir []) \<and> map_of tree' ''x'' = Some PlainFile"
proof -
  let ?t = "[(''1'', RunDir [(''a'', False)]), (''2'', RunDir []), (''x'', PlainFile)]"
  have "snd (prune_runs (\<lambda>_ _. True) (\<lambda>_. True) 1 ?t) = [''1'']" by code_simp
  then obtain tree' where t: "prune_runs (\<lambda>_ _. True) (\<lambda>_. True) 1 ?t = (tree', [''1''])"
    by (metis prod.collapse)
  have names: "run_names ?t = [''1'', ''2'']" by (simp add: run_names_def)
  have "\<not> ''2'' < (''1'' :: string)" by code_simp
  then have "{m \<in> set (run_names ?t). ''2'' < m} = {}" unfolding names by auto
  from prune_keeps_newest [OF t, of "''2''"] prune_keeps_newest [OF t, of "''x''"] this t names show ?thesis by auto
qed

text \<open>
  A finished run is never pruned away: a run makes a directory \<open>home\<close> in its run directory, the
  pruning only unlinks files, and so a run directory that holds \<open>home\<close> is emptied of its files but stays,
  whatever \<open>keep\<close> is.
\<close>

theorem prune_never_removes_runs:
  assumes "prune_runs can_unlink can_open keep tree = (tree', removed)" and "holds_dir tree n ''home''"
  shows "holds_dir tree' n ''home'' \<and> n \<notin> set removed"
  using prune_fold_holds [of "(tree, [])" n "''home''" can_unlink can_open "from_index keep (newest_first tree)"] assms
  by (simp add: prune_runs_def)

theorem prune_never_removes_runs_witness:
  "\<exists>tree'. prune_runs (\<lambda>_ _. True) (\<lambda>_. True) 0 [(''1'', RunDir [(''home'', True), (''result.json'', False)])] = (tree', [])
    \<and> holds_dir tree' ''1'' ''home''"
proof -
  let ?t = "[(''1'', RunDir [(''home'', True), (''result.json'', False)])]"
  have "snd (prune_runs (\<lambda>_ _. True) (\<lambda>_. True) 0 ?t) = []" by code_simp
  then obtain tree' where t: "prune_runs (\<lambda>_ _. True) (\<lambda>_. True) 0 ?t = (tree', [])" by (metis prod.collapse)
  have "holds_dir ?t ''1'' ''home''" by (simp add: holds_dir_def)
  from prune_never_removes_runs [OF t this] t show ?thesis by blast
qed

end
