(* ===== verification/Shlex.thy ===== *)
theory Shlex
  imports PyText
begin

text \<open>
  \<^verbatim>\<open>shlex.split(text)\<close> of the standard library (POSIX mode, no comments): the tokenizer that turns
  the text of a strategy into arguments. Its states are those of the library's \<open>read_token\<close>: between
  tokens, inside a word, inside a quotation, and after a backslash (in a word or in double quotes).
\<close>

section \<open>The tokenizer\<close>

text \<open>The tokenizer's own white space: blank, tab, carriage return and line feed.\<close>

definition is_shell_ws :: "char \<Rightarrow> bool" where
  "is_shell_ws c = (ord c = 32 \<or> ord c = 9 \<or> ord c = 13 \<or> ord c = 10)"

definition is_quote :: "char \<Rightarrow> bool" where
  "is_quote c = (c = squote \<or> c = dquote)"

datatype lex_state = Blank | InWord | InQuote char | EscWord | EscQuote

text \<open>
  \<open>shlex_go st tok quoted cs\<close>: the token read so far and whether it had a quotation, which makes
  an empty token count.
\<close>

fun shlex_go :: "lex_state \<Rightarrow> string \<Rightarrow> bool \<Rightarrow> string \<Rightarrow> string list result" where
  "shlex_go Blank tok qd [] = Inr []"
| "shlex_go Blank tok qd (c # cs) =
     (if is_shell_ws c then shlex_go Blank [] False cs
      else if c = backslash then shlex_go EscWord [] False cs
      else if is_quote c then shlex_go (InQuote c) [] False cs
      else shlex_go InWord [c] False cs)"
| "shlex_go (InQuote q) tok qd [] = Inl (ValueError ''No closing quotation'')"
| "shlex_go (InQuote q) tok qd (c # cs) =
     (if c = q then shlex_go InWord tok True cs
      else if c = backslash \<and> q = dquote then shlex_go EscQuote tok True cs
      else shlex_go (InQuote q) (tok @ [c]) True cs)"
| "shlex_go EscWord tok qd [] = Inl (ValueError ''No escaped character'')"
| "shlex_go EscWord tok qd (c # cs) = shlex_go InWord (tok @ [c]) qd cs"
| "shlex_go EscQuote tok qd [] = Inl (ValueError ''No escaped character'')"
| "shlex_go EscQuote tok qd (c # cs) =
     shlex_go (InQuote dquote)
       (if c \<noteq> backslash \<and> c \<noteq> dquote then tok @ [backslash, c] else tok @ [c]) qd cs"
| "shlex_go InWord tok qd [] = Inr (if tok \<noteq> [] \<or> qd then [tok] else [])"
| "shlex_go InWord tok qd (c # cs) =
     (if is_shell_ws c then
        (if tok \<noteq> [] \<or> qd
         then rbind (shlex_go Blank [] False cs) (\<lambda>ts. Inr (tok # ts))
         else shlex_go Blank [] False cs)
      else if is_quote c then shlex_go (InQuote c) tok qd cs
      else if c = backslash then shlex_go EscWord tok qd cs
      else shlex_go InWord (tok @ [c]) qd cs)"

definition shlex_split :: "string \<Rightarrow> string list result" where
  "shlex_split s = shlex_go Blank [] False s"

section \<open>Plain tokens survive joining and splitting\<close>

text \<open>A character that the tokenizer copies into the word as it is.\<close>

definition plain_char :: "char \<Rightarrow> bool" where
  "plain_char c = (\<not> is_shell_ws c \<and> \<not> is_quote c \<and> c \<noteq> backslash)"

definition plain_token :: "string \<Rightarrow> bool" where
  "plain_token t = (t \<noteq> [] \<and> list_all plain_char t)"

lemma shell_ws_space: "is_shell_ws c \<Longrightarrow> is_space c"
  by (auto simp: is_shell_ws_def is_space_def Let_def)

lemma is_shell_ws_blank [simp]: "is_shell_ws CHR '' ''"
  by (simp add: is_shell_ws_def ord_def)

lemma shlex_go_word:
  "list_all plain_char u \<Longrightarrow> shlex_go InWord tok qd (u @ cs) = shlex_go InWord (tok @ u) qd cs"
  by (induction u arbitrary: tok) (auto simp: plain_char_def)

lemma shlex_go_token:
  assumes "plain_token t"
  shows "shlex_go Blank [] False (t @ cs) = shlex_go InWord t False cs"
proof -
  from assms obtain c u where t: "t = c # u" "plain_char c" "list_all plain_char u"
    by (cases t) (auto simp: plain_token_def)
  with shlex_go_word [OF t(3), of "[c]" False cs] show ?thesis by (simp add: plain_char_def)
qed

lemma shlex_split_join:
  "list_all plain_token ts \<Longrightarrow> shlex_split (join '' '' ts) = Inr ts"
proof (induction ts)
  case Nil
  show ?case by (simp add: shlex_split_def)
next
  case (Cons t ts)
  then have t: "plain_token t" "t \<noteq> []" by (auto simp: plain_token_def)
  show ?case
  proof (cases ts)
    case Nil
    with t shlex_go_token [OF t(1), of "[]"] show ?thesis by (simp add: shlex_split_def)
  next
    case (Cons u us)
    with t Cons.prems Cons.IH shlex_go_token [OF t(1), of "CHR '' '' # join '' '' ts"]
    show ?thesis by (simp add: shlex_split_def join_Cons)
  qed
qed

section \<open>What tokens can hold\<close>

text \<open>A token holds characters of the text only, so a property of all characters carries over.\<close>

lemma shlex_go_chars:
  "shlex_go st tok qd cs = Inr ts \<Longrightarrow> (\<forall>q. st = EscQuote \<longrightarrow> P backslash) \<Longrightarrow>
   list_all P tok \<Longrightarrow> list_all P cs \<Longrightarrow> t \<in> set ts \<Longrightarrow> list_all P t"
proof (induction st tok qd cs arbitrary: ts rule: shlex_go.induct)
  case (2 tok qd c cs)
  then show ?case by (auto split: if_splits)
next
  case (4 q tok qd c cs)
  then show ?case by (auto split: if_splits)
next
  case (8 tok qd c cs)
  then show ?case by (auto split: if_splits)
next
  case (10 tok qd c cs)
  then show ?case by (auto simp: rbind_eq_Inr split: if_splits)
qed (auto split: if_splits)

lemma shlex_split_chars:
  "shlex_split s = Inr ts \<Longrightarrow> list_all P s \<Longrightarrow> t \<in> set ts \<Longrightarrow> list_all P t"
  unfolding shlex_split_def by (erule shlex_go_chars) simp_all

text \<open>The only errors are the two of the tokenizer.\<close>

lemma shlex_go_error:
  "shlex_go st tok qd cs = Inl e \<Longrightarrow>
   e = ValueError ''No closing quotation'' \<or> e = ValueError ''No escaped character''"
  by (induction st tok qd cs rule: shlex_go.induct) (auto simp: rbind_eq_Inl split: if_splits)

lemma shlex_split_error:
  "shlex_split s = Inl e \<Longrightarrow>
   e = ValueError ''No closing quotation'' \<or> e = ValueError ''No escaped character''"
  unfolding shlex_split_def by (rule shlex_go_error)

end
