(* ===== verification/Strategy.thy ===== *)
theory Strategy
  imports PyValue Shlex
begin

text \<open>
  \<^verbatim>\<open>src/strategy.py\<close>: rendering a catalog entry as the argument vector of the packet engine. A
  strategy text is tokenized; a native one is passed through, a legacy one (\<^verbatim>\<open>--dpi-desync...\<close>) is
  converted profile by profile; the result is checked against a denylist, completed with the
  \<^verbatim>\<open>--reasm-disable\<close> options and the Lua scripts, and written to the shell as NUL-terminated texts.
\<close>

section \<open>Native texts\<close>

definition is_lua_arg :: "string \<Rightarrow> bool" where
  "is_lua_arg a = (startswith a ''--lua-desync='' \<or> startswith a ''--payload='')"

definition is_legacy_arg :: "string \<Rightarrow> bool" where
  "is_legacy_arg a = startswith a ''--dpi-desync''"

definition filter_prefix :: "string \<Rightarrow> string" where
  "filter_prefix protocol = (let proto = upper protocol in
     if contains ''QUIC'' proto \<or> contains ''UDP'' proto then ''--filter-udp=443''
     else if startswith proto ''HTTP'' \<and> \<not> startswith proto ''HTTPS'' \<and> \<not> contains ''TLS'' proto
     then ''--filter-tcp=80'' else ''--filter-tcp=443'')"

definition pass_through :: "string list \<Rightarrow> json \<Rightarrow> string list result" where
  "pass_through args protocol =
     (if args \<noteq> [] \<and> truthy protocol \<and> \<not> list_ex (\<lambda>a. startswith a ''--filter-'') args
      then (case protocol of JStr p \<Rightarrow> Inr (filter_prefix p # args) | _ \<Rightarrow> Inl AttributeError)
      else Inr args)"

section \<open>Legacy texts\<close>

text \<open>The profiles of a legacy text, separated by \<^verbatim>\<open>--new\<close>.\<close>

definition profiles_of :: "string list \<Rightarrow> string list list" where
  "profiles_of args = split_on ''--new'' args"

record legacy_opts =
  modes :: "string list"
  split_pos :: string
  repeats :: string
  fooling :: "string list"

definition legacy_init :: legacy_opts where
  "legacy_init = \<lparr>modes = [], split_pos = ''2'', repeats = ''1'', fooling = []\<rparr>"

definition legacy_arg :: "legacy_opts \<Rightarrow> string \<Rightarrow> legacy_opts result" where
  "legacy_arg opts arg = (let key = before CHR ''='' arg; val = after CHR ''='' arg in
     if key = ''--dpi-desync'' then Inr (opts\<lparr>modes := modes opts @ split_on CHR '','' val\<rparr>)
     else if key = ''--dpi-desync-split-pos'' then Inr (opts\<lparr>split_pos := val\<rparr>)
     else if key = ''--dpi-desync-repeats'' then Inr (opts\<lparr>repeats := val\<rparr>)
     else if key = ''--dpi-desync-fooling'' then Inr (opts\<lparr>fooling := split_on CHR '','' val\<rparr>)
     else if startswith key ''--dpi-desync''
     then Inl (ValueError (''Unsupported legacy option: '' @ key))
     else Inr opts)"

definition mode_alias :: "string \<Rightarrow> string" where
  "mode_alias m = (if m = ''split'' then ''multisplit''
     else if m = ''disorder'' then ''multidisorder'' else m)"

definition fooling_specs :: "string list \<Rightarrow> string list" where
  "fooling_specs f =
     (if ''md5sig'' \<in> set f then [''tcp_md5''] else []) @
     (if ''badseq'' \<in> set f then [''tcp_seq=-10000'', ''tcp_ack=-66000''] else []) @
     (if ''ts'' \<in> set f then [''tcp_ts=-600000''] else [])"

definition render_mode :: "legacy_opts \<Rightarrow> string \<Rightarrow> string \<Rightarrow> string result" where
  "render_mode opts blob m0 = (let m = mode_alias m0 in
     if m = ''fake'' \<or> m = ''fakedsplit'' then
       (if list_ex (\<lambda>f. f \<notin> {''md5sig'', ''badseq'', ''ts''}) (fooling opts)
        then Inl (ValueError ''Unsupported legacy fooling'')
        else Inr (''--lua-desync='' @ join '':'' (
          [m, ''repeats='' @ repeats opts] @
          [if m = ''fake'' then ''blob=fake_default_'' @ blob
           else ''pos='' @ last (split_on CHR '','' (split_pos opts))] @
          fooling_specs (fooling opts))))
     else if m = ''multisplit'' \<or> m = ''multidisorder''
     then Inr (''--lua-desync='' @ m @ '':pos='' @ split_pos opts)
     else Inl (ValueError (''Unsupported legacy mode: '' @ m)))"

definition profile_filters :: "string list \<Rightarrow> string list" where
  "profile_filters profile = filter (\<lambda>a. \<not> is_legacy_arg a) profile"

definition profile_kind :: "string list \<Rightarrow> string \<times> string" where
  "profile_kind filters =
     (if list_ex (\<lambda>a. startswith a ''--filter-udp='') filters then (''quic_initial'', ''quic'')
      else if ''--filter-tcp=80'' \<in> set filters then (''http_req'', ''http'')
      else (''tls_client_hello'', ''tls''))"

text \<open>One round of the loop over the profiles, from the arguments collected so far.\<close>

definition convert_profile :: "string list \<Rightarrow> string list \<Rightarrow> string list result" where
  "convert_profile res profile = (let filters = profile_filters profile in
     if filters = [] then Inr res
     else (case profile_kind filters of (payload, blob) \<Rightarrow>
       rbind (rfold legacy_arg legacy_init profile) (\<lambda>opts.
       rfold (\<lambda>r m. rbind (render_mode opts blob m) (\<lambda>a. Inr (r @ [a])))
         ((if res \<noteq> [] then res @ [''--new''] else res) @ filters @ [''--payload='' @ payload])
         (modes opts))))"

definition native_options :: "string \<Rightarrow> json \<Rightarrow> string list result" where
  "native_options text protocol = rbind (shlex_split text) (\<lambda>args.
     if args = [] then Inr []
     else if list_ex is_lua_arg args \<or> \<not> list_ex is_legacy_arg args
     then pass_through args protocol
     else rfold convert_profile [] (profiles_of args))"

section \<open>The whole entry\<close>

definition denied_keys :: "string list" where
  "denied_keys = [''--qnum'', ''--fwmark'', ''--daemon'', ''--pidfile'', ''--intercept'',
     ''--dry-run'', ''--version'', ''--chdir'']"

definition check_arg :: "string \<Rightarrow> unit result" where
  "check_arg arg = (if NUL \<in> set arg \<or> \<not> startswith arg ''--''
       \<or> before CHR ''='' arg \<in> set denied_keys
     then Inl (ValueError (''Invalid strategy argument: '' @ arg)) else Inr ())"

definition payload_char :: "char \<Rightarrow> bool" where
  "payload_char c = (is_lower_az c \<or> is_digit c \<or> c = CHR ''_'')"

definition reasm_option :: "string \<Rightarrow> string result" where
  "reasm_option p = (if p \<noteq> [] \<and> list_all payload_char p then Inr (''--reasm-disable='' @ p)
     else Inl (ValueError (''Invalid no_reasm_payloads token: '' @ repr_str p)))"

definition apply_no_reasm :: "json dict \<Rightarrow> string list \<Rightarrow> string list result" where
  "apply_no_reasm entry args =
     (if truthy (dget_or entry ''no_reasm'' JNull) then
        (case py_or (dget_or entry ''no_reasm_payloads'' JNull) (JStr ''tls_client_hello'') of
           JStr ps \<Rightarrow> rbind (rmap reasm_option (split_on CHR '','' ps)) (\<lambda>disabled.
             Inr (filter (\<lambda>a. \<not> startswith a ''--reasm-disable='') args @ disabled))
         | _ \<Rightarrow> Inl AttributeError)
      else Inr args)"

fun script_path :: "json \<Rightarrow> string option" where
  "script_path (JStr s) = (if startswith s ''/'' \<and> NUL \<notin> set s then Some s else None)"
| "script_path _ = None"

definition lua_scripts :: "json dict \<Rightarrow> string list result" where
  "lua_scripts entry = (case dget_or entry ''lua_init'' (JList []) of
     JList xs \<Rightarrow> if list_all (\<lambda>x. script_path x \<noteq> None) xs
       then Inr (List.map_filter script_path xs)
       else Inl (ValueError ''lua_init must be a list of absolute container file paths'')
   | _ \<Rightarrow> Inl (ValueError ''lua_init must be a list of absolute container file paths''))"

text \<open>
  The text of the entry: a value other than a text makes the tokenizer raise (the interpreter the
  image ships would read standard input for \<open>None\<close>; here that is an error too).
\<close>

fun entry_text :: "json \<Rightarrow> string result" where
  "entry_text (JStr s) = Inr s"
| "entry_text JNull = Inl (ValueError ''s argument must not be None'')"
| "entry_text _ = Inl AttributeError"

definition strategy_args :: "json dict \<Rightarrow> string list result" where
  "strategy_args entry =
     rbind (entry_text (py_or (dget_or entry ''lua_opt'' JNull)
                              (dget_or entry ''nfqws_opt'' (JStr [])))) (\<lambda>text.
     rbind (native_options text (dget_or entry ''protocol'' (JStr []))) (\<lambda>args.
     rbind (rmap check_arg args) (\<lambda>_.
     rbind (apply_no_reasm entry args) (\<lambda>args'.
     rbind (lua_scripts entry) (\<lambda>scripts.
     Inr (map (\<lambda>s. ''--lua-init=@'' @ s) scripts @ args'))))))"

text \<open>What the script writes to its standard output, and how the shell's \<^verbatim>\<open>mapfile -d ''\<close> reads it.\<close>

definition emit_args :: "string list \<Rightarrow> string" where
  "emit_args args = join [NUL] args @ [NUL]"

definition read_args :: "string \<Rightarrow> string list" where
  "read_args out = butlast (split_on NUL out)"

section \<open>The conversion, profile by profile\<close>

text \<open>
  The reference reading of the legacy conversion: every profile that has a filter is rendered on
  its own (its filters, the payload, one Lua call per mode), and the renderings are joined by
  \<^verbatim>\<open>--new\<close>.
\<close>

definition render_profile :: "string list \<Rightarrow> string list result" where
  "render_profile profile = (case profile_kind (profile_filters profile) of (payload, blob) \<Rightarrow>
     rbind (rfold legacy_arg legacy_init profile) (\<lambda>opts.
     rbind (rmap (render_mode opts blob) (modes opts)) (\<lambda>luas.
     Inr (profile_filters profile @ (''--payload='' @ payload) # luas))))"

lemma rfold_snoc:
  "rfold (\<lambda>r m. rbind (f m) (\<lambda>a. Inr (r @ [a]))) r0 ms = rbind (rmap f ms) (\<lambda>as. Inr (r0 @ as))"
proof (induction ms arbitrary: r0)
  case Nil
  show ?case by simp
next
  case (Cons m ms)
  show ?case
    by (cases "f m"; cases "rmap f ms") (simp_all add: Cons.IH)
qed

lemma convert_profile_eq:
  "convert_profile res profile =
     (if profile_filters profile = [] then Inr res
      else rbind (render_profile profile)
             (\<lambda>r. Inr ((if res \<noteq> [] then res @ [''--new''] else []) @ r)))"
proof (cases "rfold legacy_arg legacy_init profile")
  case (Inl e)
  then show ?thesis
    by (simp add: convert_profile_def render_profile_def Let_def split: prod.splits)
next
  case (Inr opts)
  obtain payload blob where k: "profile_kind (profile_filters profile) = (payload, blob)"
    by (cases "profile_kind (profile_filters profile)")
  show ?thesis
    by (cases "rmap (render_mode opts blob) (modes opts)")
      (simp_all add: convert_profile_def render_profile_def Let_def k Inr rfold_snoc)
qed

lemma render_profile_ne: "render_profile profile = Inr r \<Longrightarrow> r \<noteq> []"
  by (auto simp: render_profile_def rbind_eq_Inr split: prod.splits)

definition filtered_profiles :: "string list list \<Rightarrow> string list list" where
  "filtered_profiles ps = filter (\<lambda>p. profile_filters p \<noteq> []) ps"

lemma convert_profiles_go:
  "rfold convert_profile res ps =
     rbind (rmap render_profile (filtered_profiles ps)) (\<lambda>rs. Inr (
       if res = [] then join [''--new''] rs else join [''--new''] (res # rs)))"
proof (induction ps arbitrary: res)
  case Nil
  show ?case by (simp add: filtered_profiles_def)
next
  case (Cons p ps)
  show ?case
  proof (cases "profile_filters p = []")
    case True
    with Cons show ?thesis by (simp add: convert_profile_eq filtered_profiles_def)
  next
    case False
    show ?thesis
    proof (cases "render_profile p")
      case (Inl e)
      with False show ?thesis by (simp add: convert_profile_eq filtered_profiles_def)
    next
      case (Inr r)
      from render_profile_ne [OF Inr] have "r \<noteq> []" .
      then have "rfold convert_profile res (p # ps) =
        rbind (rmap render_profile (filtered_profiles ps)) (\<lambda>rs. Inr (
          join [''--new''] (((if res \<noteq> [] then res @ [''--new''] else []) @ r) # rs)))"
        using False Inr by (simp add: convert_profile_eq Cons.IH)
      moreover have "join [''--new''] ((res @ [''--new''] @ r) # rs) = join [''--new''] (res # r # rs)"
        for rs by (cases rs) simp_all
      ultimately show ?thesis using False Inr
        by (cases "rmap render_profile (filtered_profiles ps)")
          (simp_all add: filtered_profiles_def)
    qed
  qed
qed

lemma convert_profiles:
  "rfold convert_profile [] ps =
     rbind (rmap render_profile (filtered_profiles ps)) (\<lambda>rs. Inr (join [''--new''] rs))"
  by (simp add: convert_profiles_go)

section \<open>When a legacy text is accepted\<close>

definition known_legacy_keys :: "string list" where
  "known_legacy_keys = [''--dpi-desync'', ''--dpi-desync-split-pos'', ''--dpi-desync-repeats'',
     ''--dpi-desync-fooling'']"

definition legacy_modes :: "string list \<Rightarrow> string list" where
  "legacy_modes p = concat (map (\<lambda>a. split_on CHR '','' (after CHR ''='' a))
     (filter (\<lambda>a. before CHR ''='' a = ''--dpi-desync'') p))"

definition legacy_fooling :: "string list \<Rightarrow> string list" where
  "legacy_fooling p = (case filter (\<lambda>a. before CHR ''='' a = ''--dpi-desync-fooling'') p of
     [] \<Rightarrow> [] | as \<Rightarrow> split_on CHR '','' (after CHR ''='' (last as)))"

definition supported_mode :: "string list \<Rightarrow> string \<Rightarrow> bool" where
  "supported_mode f m = (mode_alias m \<in> {''multisplit'', ''multidisorder''} \<or>
     (mode_alias m \<in> {''fake'', ''fakedsplit''} \<and>
      list_all (\<lambda>x. x \<in> {''md5sig'', ''badseq'', ''ts''}) f))"

text \<open>
  A profile the conversion can express: only the four known options, only the known modes, and
  where a mode sends fakes, only the known fooling methods (the last \<^verbatim>\<open>fooling\<close> option counts).
\<close>

definition supported_profile :: "string list \<Rightarrow> bool" where
  "supported_profile p =
     (list_all (\<lambda>a. is_legacy_arg a \<longrightarrow> before CHR ''='' a \<in> set known_legacy_keys) p \<and>
      list_all (supported_mode (legacy_fooling p)) (legacy_modes p))"

lemma legacy_key: "startswith (before CHR ''='' a) ''--dpi-desync'' \<longleftrightarrow> is_legacy_arg a"
  by (simp add: is_legacy_arg_def startswith_before)

lemma legacy_arg_cases:
  "legacy_arg opts a =
     (if before CHR ''='' a \<in> set known_legacy_keys \<or> \<not> is_legacy_arg a
      then Inr (opts\<lparr>
        modes := modes opts @ legacy_modes [a],
        split_pos := (if before CHR ''='' a = ''--dpi-desync-split-pos'' then after CHR ''='' a
                      else split_pos opts),
        repeats := (if before CHR ''='' a = ''--dpi-desync-repeats'' then after CHR ''='' a
                    else repeats opts),
        fooling := (if before CHR ''='' a = ''--dpi-desync-fooling''
                    then split_on CHR '','' (after CHR ''='' a) else fooling opts)\<rparr>)
      else Inl (ValueError (''Unsupported legacy option: '' @ before CHR ''='' a)))"
  by (auto simp: legacy_arg_def Let_def known_legacy_keys_def legacy_modes_def legacy_key)

lemma legacy_modes_Cons: "legacy_modes (a # p) = legacy_modes [a] @ legacy_modes p"
  by (simp add: legacy_modes_def)

lemma legacy_args_ok:
  "list_all (\<lambda>a. is_legacy_arg a \<longrightarrow> before CHR ''='' a \<in> set known_legacy_keys) p \<Longrightarrow>
   \<exists>opts'. rfold legacy_arg opts p = Inr opts' \<and> modes opts' = modes opts @ legacy_modes p \<and>
     fooling opts' = (if \<exists>a\<in>set p. before CHR ''='' a = ''--dpi-desync-fooling''
                      then legacy_fooling p else fooling opts)"
proof (induction p arbitrary: opts)
  case Nil
  show ?case by (simp add: legacy_modes_def)
next
  case (Cons a p)
  then have a: "before CHR ''='' a \<in> set known_legacy_keys \<or> \<not> is_legacy_arg a" by auto
  then obtain o1 where o1: "legacy_arg opts a = Inr o1" "modes o1 = modes opts @ legacy_modes [a]"
    "fooling o1 = (if before CHR ''='' a = ''--dpi-desync-fooling''
                   then split_on CHR '','' (after CHR ''='' a) else fooling opts)"
    by (simp add: legacy_arg_cases)
  from Cons.IH [of o1] Cons.prems obtain o2 where o2: "rfold legacy_arg o1 p = Inr o2"
    "modes o2 = modes o1 @ legacy_modes p"
    "fooling o2 = (if \<exists>a\<in>set p. before CHR ''='' a = ''--dpi-desync-fooling''
                   then legacy_fooling p else fooling o1)"
    by auto
  have none: "legacy_fooling (a # p) = split_on CHR '','' (after CHR ''='' a)"
    if "before CHR ''='' a = ''--dpi-desync-fooling''"
      and "\<not> (\<exists>a\<in>set p. before CHR ''='' a = ''--dpi-desync-fooling'')"
    using that by (simp add: legacy_fooling_def filter_empty_conv)
  have some: "legacy_fooling (a # p) = legacy_fooling p"
    if "\<exists>a\<in>set p. before CHR ''='' a = ''--dpi-desync-fooling''"
    using that by (auto simp: legacy_fooling_def filter_empty_conv split: list.splits)
  show ?case
    using o1 o2 none some by (auto simp: legacy_modes_Cons [of a p])
qed

lemma legacy_args_bad:
  "\<not> list_all (\<lambda>a. is_legacy_arg a \<longrightarrow> before CHR ''='' a \<in> set known_legacy_keys) p \<Longrightarrow>
   \<exists>e. rfold legacy_arg opts p = Inl e"
proof (induction p arbitrary: opts)
  case Nil
  then show ?case by simp
next
  case (Cons a p)
  show ?case
  proof (cases "before CHR ''='' a \<in> set known_legacy_keys \<or> \<not> is_legacy_arg a")
    case True
    with Cons show ?thesis by (auto simp: legacy_arg_cases)
  next
    case False
    then show ?thesis by (simp add: legacy_arg_cases)
  qed
qed

lemma render_mode_ok_iff:
  "(\<exists>a. render_mode opts blob m = Inr a) \<longleftrightarrow> supported_mode (fooling opts) m"
  by (auto simp: render_mode_def supported_mode_def Let_def list_ex_iff list_all_iff)

lemma render_profile_ok_iff:
  "(\<exists>r. render_profile p = Inr r) \<longleftrightarrow> supported_profile p"
proof (cases "list_all (\<lambda>a. is_legacy_arg a \<longrightarrow> before CHR ''='' a \<in> set known_legacy_keys) p")
  case False
  from legacy_args_bad [OF this, of legacy_init] obtain e where
    "rfold legacy_arg legacy_init p = Inl e" by blast
  with False show ?thesis by (simp add: render_profile_def supported_profile_def split: prod.splits)
next
  case True
  from legacy_args_ok [OF this, of legacy_init] obtain opts where
    o: "rfold legacy_arg legacy_init p = Inr opts" "modes opts = legacy_modes p"
    "fooling opts = legacy_fooling p"
    by (auto simp: legacy_init_def legacy_fooling_def filter_empty_conv split: if_splits list.splits)
  obtain payload blob where k: "profile_kind (profile_filters p) = (payload, blob)"
    by (cases "profile_kind (profile_filters p)")
  have "(\<exists>r. render_profile p = Inr r) \<longleftrightarrow>
      (\<exists>as. rmap (render_mode opts blob) (legacy_modes p) = Inr as)"
    by (auto simp: render_profile_def k o rbind_eq_Inr)
  also have "\<dots> \<longleftrightarrow> (\<forall>m\<in>set (legacy_modes p). \<exists>a. render_mode opts blob m = Inr a)"
    using rmap_fails_iff [of "render_mode opts blob" "legacy_modes p"]
    by (metis old.sum.exhaust sum.distinct(1))
  finally show ?thesis
    using True by (simp add: render_mode_ok_iff supported_profile_def o list_all_iff)
qed

section \<open>Correctness of the rendering\<close>

lemma check_arg_ok_iff:
  "check_arg a = Inr () \<longleftrightarrow>
     startswith a ''--'' \<and> NUL \<notin> set a \<and> before CHR ''='' a \<notin> set denied_keys"
  by (auto simp: check_arg_def)

lemma check_args_ok: "rmap check_arg args = Inr us \<Longrightarrow> a \<in> set args \<Longrightarrow> check_arg a = Inr ()"
  by (induction args arbitrary: us) (auto simp: rbind_eq_Inr)

lemma reasm_option_ok:
  assumes "reasm_option p = Inr a"
  shows "a = ''--reasm-disable='' @ p" "check_arg a = Inr ()"
proof -
  show a: "a = ''--reasm-disable='' @ p" using assms by (auto simp: reasm_option_def split: if_splits)
  from assms have "list_all payload_char p" by (auto simp: reasm_option_def split: if_splits)
  moreover have "\<not> payload_char NUL"
    by (simp add: payload_char_def text_defs)
  ultimately have "NUL \<notin> set p" by (auto simp: list_all_iff)
  then show "check_arg a = Inr ()"
    by (simp add: a check_arg_ok_iff before_def denied_keys_def special_chars)
qed

lemma script_arg_ok: "script_path x = Some s \<Longrightarrow> check_arg (''--lua-init=@'' @ s) = Inr ()"
  by (cases x)
    (auto simp: check_arg_ok_iff before_def denied_keys_def special_chars split: if_splits)

lemma apply_no_reasm_member:
  "apply_no_reasm entry args = Inr args' \<Longrightarrow> a \<in> set args' \<Longrightarrow>
   a \<in> set args \<or> (\<exists>p. reasm_option p = Inr a)"
  by (auto simp: apply_no_reasm_def rbind_eq_Inr split: if_splits json.splits
      dest!: rmap_Inr_set)

lemma lua_scripts_member:
  "lua_scripts entry = Inr ss \<Longrightarrow> s \<in> set ss \<Longrightarrow> \<exists>x. script_path x = Some s"
  by (cases "dget_or entry ''lua_init'' (JList [])")
    (force simp: lua_scripts_def map_filter_def split: if_splits)+

lemma strategy_args_cases:
  assumes "strategy_args entry = Inr out"
  obtains src args args' scripts us where
    "native_options src (dget_or entry ''protocol'' (JStr [])) = Inr args"
    "rmap check_arg args = Inr us" "apply_no_reasm entry args = Inr args'"
    "lua_scripts entry = Inr scripts" "out = map (\<lambda>s. ''--lua-init=@'' @ s) scripts @ args'"
  using assms by (auto simp: strategy_args_def rbind_eq_Inr)

lemma strategy_args_checked:
  assumes "strategy_args entry = Inr args" and "a \<in> set args"
  shows "check_arg a = Inr ()"
proof -
  from assms(1) obtain src args0 args' scripts us where
    ok: "rmap check_arg args0 = Inr us" "apply_no_reasm entry args0 = Inr args'"
    "lua_scripts entry = Inr scripts" "args = map (\<lambda>s. ''--lua-init=@'' @ s) scripts @ args'"
    by (rule strategy_args_cases)
  from assms(2) ok(4) consider s where "s \<in> set scripts" "a = ''--lua-init=@'' @ s" | "a \<in> set args'"
    by auto
  then show ?thesis
  proof cases
    case 1
    then show ?thesis using lua_scripts_member [OF ok(3)] script_arg_ok by blast
  next
    case 2
    then show ?thesis
      using apply_no_reasm_member [OF ok(2)] check_args_ok [OF ok(1)] reasm_option_ok(2) by blast
  qed
qed

text \<open>
  Property C1. Whatever the catalog entry holds, every argument handed to the packet engine starts
  with two dashes, contains no NUL character and does not set an option of the denylist (queue,
  mark, daemon, pidfile, intercept, dry-run, version, chdir): an entry that would is refused.
\<close>

theorem strategy_args_safe:
  assumes "strategy_args entry = Inr args" and "a \<in> set args"
  shows "startswith a ''--'' \<and> NUL \<notin> set a \<and> before CHR ''='' a \<notin> set denied_keys"
  using strategy_args_checked [OF assms] by (simp add: check_arg_ok_iff)

theorem strategy_args_safe_witness:
  "strategy_args [(''lua_opt'', JStr ''--payload=x --lua-desync=fake''), (''no_reasm'', JBool True)]
     = Inr [''--payload=x'', ''--lua-desync=fake'', ''--reasm-disable=tls_client_hello''] \<and>
   before CHR ''='' ''--payload=x'' \<notin> set denied_keys"
proof -
  have h: "strategy_args [(''lua_opt'', JStr ''--payload=x --lua-desync=fake''),
      (''no_reasm'', JBool True)]
    = Inr [''--payload=x'', ''--lua-desync=fake'', ''--reasm-disable=tls_client_hello'']"
    by code_simp
  from strategy_args_safe [OF h, of "''--payload=x''"] h show ?thesis by simp
qed

text \<open>
  Property C2. The legacy conversion is profile-wise: it returns exactly the rendering of each
  profile that has a filter, in order, joined by \<^verbatim>\<open>--new\<close>, and the first error otherwise; the
  accumulating loop of the code, with its separators and early continue, agrees with that reading.
\<close>

theorem native_options_profilewise:
  assumes "shlex_split text = Inr toks" and "toks \<noteq> []"
    and "\<not> list_ex is_lua_arg toks" and "list_ex is_legacy_arg toks"
  shows "native_options text protocol =
    rbind (rmap render_profile (filtered_profiles (profiles_of toks)))
      (\<lambda>rs. Inr (join [''--new''] rs))"
  using assms by (simp add: native_options_def convert_profiles)

theorem native_options_profilewise_witness:
  "native_options ''--filter-tcp=80 --dpi-desync=split --new --filter-udp=443 --dpi-desync=fake''
     (JStr []) =
   rbind (rmap render_profile [[''--filter-tcp=80'', ''--dpi-desync=split''],
       [''--filter-udp=443'', ''--dpi-desync=fake'']]) (\<lambda>rs. Inr (join [''--new''] rs))"
proof -
  let ?toks = "[''--filter-tcp=80'', ''--dpi-desync=split'', ''--new'', ''--filter-udp=443'',
    ''--dpi-desync=fake'']"
  have "shlex_split
    ''--filter-tcp=80 --dpi-desync=split --new --filter-udp=443 --dpi-desync=fake'' = Inr ?toks"
    by code_simp
  note h = native_options_profilewise [OF this]
  have "?toks \<noteq> []" "\<not> list_ex is_lua_arg ?toks" "list_ex is_legacy_arg ?toks"
    by code_simp+
  note h = h [OF this, of "JStr []"]
  have "filtered_profiles (profiles_of ?toks) =
    [[''--filter-tcp=80'', ''--dpi-desync=split''], [''--filter-udp=443'', ''--dpi-desync=fake'']]"
    by code_simp
  with h show ?thesis by (simp only:)
qed

text \<open>
  Property C3. The legacy conversion fails exactly on what it cannot express: it returns a value if
  and only if every profile that has a filter uses known options, known modes and, where it sends
  fakes, known fooling methods.
\<close>

theorem native_options_accepts_iff:
  assumes "shlex_split text = Inr toks" and "toks \<noteq> []"
    and "\<not> list_ex is_lua_arg toks" and "list_ex is_legacy_arg toks"
  shows "(\<exists>args. native_options text protocol = Inr args) \<longleftrightarrow>
    list_all supported_profile (filtered_profiles (profiles_of toks))"
proof -
  let ?ps = "filtered_profiles (profiles_of toks)"
  have "native_options text protocol =
      rbind (rmap render_profile ?ps) (\<lambda>rs. Inr (join [''--new''] rs))"
    using assms by (simp add: native_options_def convert_profiles)
  then have "(\<exists>args. native_options text protocol = Inr args) \<longleftrightarrow>
      (\<exists>rs. rmap render_profile ?ps = Inr rs)"
    by (auto simp: rbind_eq_Inr)
  also have "\<dots> \<longleftrightarrow> (\<forall>p\<in>set ?ps. \<exists>r. render_profile p = Inr r)"
    using rmap_fails_iff [of render_profile ?ps] by (metis old.sum.exhaust sum.distinct(1))
  finally show ?thesis by (simp add: render_profile_ok_iff list_all_iff)
qed

theorem native_options_accepts_iff_witness:
  "(\<exists>args. native_options ''--filter-tcp=80 --dpi-desync=unsupported'' (JStr []) = Inr args) \<longleftrightarrow>
     list_all supported_profile [[''--filter-tcp=80'', ''--dpi-desync=unsupported'']]"
proof -
  let ?toks = "[''--filter-tcp=80'', ''--dpi-desync=unsupported'']"
  have "shlex_split ''--filter-tcp=80 --dpi-desync=unsupported'' = Inr ?toks" by code_simp
  note h = native_options_accepts_iff [OF this]
  have "?toks \<noteq> []" "\<not> list_ex is_lua_arg ?toks" "list_ex is_legacy_arg ?toks"
    by code_simp+
  note h = h [OF this, of "JStr []"]
  have "filtered_profiles (profiles_of ?toks) = [?toks]" by code_simp
  with h show ?thesis by (simp only:)
qed

lemma render_profile_member:
  "render_profile p = Inr r \<Longrightarrow> a \<in> set r \<Longrightarrow> \<not> is_legacy_arg a"
proof -
  assume r: "render_profile p = Inr r" and a: "a \<in> set r"
  have lua: "render_mode opts blob m = Inr x \<Longrightarrow> \<not> is_legacy_arg x" for opts blob m x
    by (auto simp: render_mode_def is_legacy_arg_def Let_def split: if_splits)
  show ?thesis
    using r a by (auto simp: render_profile_def rbind_eq_Inr profile_filters_def is_legacy_arg_def
        split: prod.splits dest!: rmap_Inr_set dest: lua)
qed

lemma filter_prefix_not_legacy: "\<not> is_legacy_arg (filter_prefix p)"
  by (simp add: filter_prefix_def is_legacy_arg_def Let_def)

lemma pass_through_member:
  "pass_through args protocol = Inr out \<Longrightarrow> a \<in> set out \<Longrightarrow>
   a \<in> set args \<or> (\<exists>p. a = filter_prefix p)"
  by (auto simp: pass_through_def split: if_splits json.splits)

text \<open>
  A converted strategy carries no legacy option: when the text has no Lua argument,
  no argument of the result starts with \<^verbatim>\<open>--dpi-desync\<close>.
\<close>

theorem native_options_no_legacy:
  assumes "native_options text protocol = Inr args" and "shlex_split text = Inr toks"
    and "\<not> list_ex is_lua_arg toks" and "a \<in> set args"
  shows "\<not> is_legacy_arg a"
proof (cases "list_ex is_legacy_arg toks")
  case True
  then have "toks \<noteq> []" by auto
  with assms True obtain rs where
    rs: "rmap render_profile (filtered_profiles (profiles_of toks)) = Inr rs"
    "args = join [''--new''] rs"
    by (auto simp: native_options_def convert_profiles rbind_eq_Inr)
  from join_member assms(4) rs(2) consider "a = ''--new''" | r where "r \<in> set rs" "a \<in> set r"
    by fastforce
  then show ?thesis
  proof cases
    case 1
    then show ?thesis by (simp add: is_legacy_arg_def)
  next
    case 2
    with rmap_Inr_set [OF rs(1)] show ?thesis by (blast dest: render_profile_member)
  qed
next
  case False
  show ?thesis
  proof (cases "toks = []")
    case True
    with assms show ?thesis by (simp add: native_options_def)
  next
    case toks: False
    with assms False have "pass_through toks protocol = Inr args" by (simp add: native_options_def)
    from pass_through_member [OF this assms(4)] False show ?thesis
      by (auto simp: filter_prefix_not_legacy list_ex_iff)
  qed
qed

theorem native_options_no_legacy_witness:
  "native_options ''--filter-udp=443 --dpi-desync=fake'' (JStr []) =
     Inr [''--filter-udp=443'', ''--payload=quic_initial'',
       ''--lua-desync=fake:repeats=1:blob=fake_default_quic''] \<and>
   \<not> is_legacy_arg ''--lua-desync=fake:repeats=1:blob=fake_default_quic''"
proof -
  have h: "native_options ''--filter-udp=443 --dpi-desync=fake'' (JStr []) =
     Inr [''--filter-udp=443'', ''--payload=quic_initial'',
       ''--lua-desync=fake:repeats=1:blob=fake_default_quic'']" by code_simp
  have t: "shlex_split ''--filter-udp=443 --dpi-desync=fake'' =
    Inr [''--filter-udp=443'', ''--dpi-desync=fake'']" by code_simp
  have n: "\<not> list_ex is_lua_arg [''--filter-udp=443'', ''--dpi-desync=fake'']" by code_simp
  from native_options_no_legacy [OF h t n] h show ?thesis by simp
qed

text \<open>
  Property C4. With \<open>no_reasm\<close> set, the result disables reassembly for exactly the payloads asked
  for, in the order given, once each time they are named: options of the same kind that the
  strategy text brought along are replaced, not added to.
\<close>

theorem strategy_args_reasm_exact:
  assumes "strategy_args entry = Inr args" and "truthy (dget_or entry ''no_reasm'' JNull)"
    and "py_or (dget_or entry ''no_reasm_payloads'' JNull) (JStr ''tls_client_hello'') = JStr ps"
  shows "filter (\<lambda>a. startswith a ''--reasm-disable='') args =
    map (\<lambda>p. ''--reasm-disable='' @ p) (split_on CHR '','' ps)"
proof -
  from assms(1) obtain src args0 args' scripts us where
    ok: "apply_no_reasm entry args0 = Inr args'"
    "args = map (\<lambda>s. ''--lua-init=@'' @ s) scripts @ args'"
    by (rule strategy_args_cases)
  from ok(1) assms(2,3) obtain dis where
    dis: "rmap reasm_option (split_on CHR '','' ps) = Inr dis"
    "args' = filter (\<lambda>a. \<not> startswith a ''--reasm-disable='') args0 @ dis"
    by (auto simp: apply_no_reasm_def rbind_eq_Inr)
  have "rmap reasm_option xs = Inr ys \<Longrightarrow> ys = map (\<lambda>p. ''--reasm-disable='' @ p) xs" for xs ys
    by (induction xs arbitrary: ys) (auto simp: rbind_eq_Inr dest: reasm_option_ok(1))
  from this [OF dis(1)] have d: "dis = map (\<lambda>p. ''--reasm-disable='' @ p) (split_on CHR '','' ps)" .
  have "filter (\<lambda>a. startswith a ''--reasm-disable='') dis = dis"
    unfolding d by (rule filter_True) auto
  moreover have "filter (\<lambda>a. startswith a ''--reasm-disable='')
      (filter (\<lambda>a. \<not> startswith a ''--reasm-disable='') args0) = []"
    by (simp add: filter_empty_conv)
  moreover have "filter (\<lambda>a. startswith a ''--reasm-disable='')
      (map (\<lambda>s. ''--lua-init=@'' @ s) scripts) = []"
    by (simp add: filter_empty_conv)
  ultimately show ?thesis by (simp add: ok(2) dis(2) d)
qed

theorem strategy_args_reasm_exact_witness:
  "filter (\<lambda>a. startswith a ''--reasm-disable='')
     [''--payload=x'', ''--reasm-disable=a'', ''--reasm-disable=b''] =
   map (\<lambda>p. ''--reasm-disable='' @ p) (split_on CHR '','' ''a,b'')"
proof -
  let ?e = "[(''lua_opt'', JStr ''--payload=x --reasm-disable=old''), (''no_reasm'', JBool True),
    (''no_reasm_payloads'', JStr ''a,b'')]"
  have "strategy_args ?e = Inr [''--payload=x'', ''--reasm-disable=a'', ''--reasm-disable=b'']"
    by code_simp
  from strategy_args_reasm_exact [OF this, of "''a,b''"] show ?thesis by simp
qed

text \<open>
  What the script writes, the shell reads back: splitting its output at NUL characters
  gives the arguments again, for every entry that renders to at least one argument.
\<close>

theorem strategy_args_emit_read:
  assumes "strategy_args entry = Inr args" and "args \<noteq> []"
  shows "read_args (emit_args args) = args"
proof -
  have nul: "\<forall>a\<in>set args. NUL \<notin> set a"
    using strategy_args_checked [OF assms(1)] by (simp add: check_arg_ok_iff)
  have "join [NUL] args @ [NUL] = join [NUL] (args @ [[]])"
    using assms(2) by (rule join_snoc_Nil)
  also have "split_on NUL \<dots> = args @ [[]]"
    using nul by (intro split_on_join) auto
  finally show ?thesis by (simp add: read_args_def emit_args_def)
qed

theorem strategy_args_emit_read_witness:
  "read_args (emit_args [''--payload=x'', ''--lua-desync=fake'']) = [''--payload=x'', ''--lua-desync=fake'']"
proof -
  have "strategy_args [(''lua_opt'', JStr ''--payload=x --lua-desync=fake'')] =
    Inr [''--payload=x'', ''--lua-desync=fake'']" by code_simp
  from strategy_args_emit_read [OF this] show ?thesis by simp
qed

text \<open>
  A legacy text whose profiles have no filter renders to nothing at all, with no error
  and whatever modes it names; the shell then reads one empty argument from the lone terminator.
\<close>

theorem native_options_unfiltered_dropped:
  assumes "shlex_split text = Inr toks" and "toks \<noteq> []" and "list_all is_legacy_arg toks"
  shows "native_options text protocol = Inr [] \<and> read_args (emit_args []) = [[]]"
proof -
  have new: "''--new'' \<notin> set toks"
    using assms(3) by (auto simp: list_all_iff is_legacy_arg_def)
  have lua: "\<not> list_ex is_lua_arg toks"
    using assms(3) by (auto simp: list_all_iff list_ex_iff is_legacy_arg_def is_lua_arg_def startswith_iff)
  have leg: "list_ex is_legacy_arg toks"
    using assms(2,3) by (cases toks) auto
  have "filtered_profiles (profiles_of toks) = []"
    using assms(3) new by (simp add: profiles_of_def split_on_no_sep filtered_profiles_def
        profile_filters_def filter_empty_conv list_all_iff)
  then have "native_options text protocol = Inr []"
    using assms(1,2) lua leg by (simp add: native_options_def convert_profiles)
  then show ?thesis by (simp add: read_args_def emit_args_def)
qed

theorem native_options_unfiltered_dropped_witness:
  "native_options ''--dpi-desync=fake --dpi-desync-repeats=6'' (JStr ''HTTPS'') = Inr []"
proof -
  have t: "shlex_split ''--dpi-desync=fake --dpi-desync-repeats=6'' =
    Inr [''--dpi-desync=fake'', ''--dpi-desync-repeats=6'']" by code_simp
  have a: "list_all is_legacy_arg [''--dpi-desync=fake'', ''--dpi-desync-repeats=6'']" by code_simp
  from native_options_unfiltered_dropped [OF t _ a] show ?thesis by simp
qed

end
