(* ===== verification/Catalog.thy ===== *)
theory Catalog
  imports Strategy Command Report
begin

text \<open>
  \<^verbatim>\<open>src/blockcheck.py\<close>, import of discovered strategies: the validation of an argument text, the plan
  of new catalog entries for the rows of a finished run, and the merge into the catalog. Catalog
  entries are JSON dictionaries, as the renderer of \<^verbatim>\<open>strategy.py\<close> reads them.
\<close>

section \<open>Validation\<close>

definition FORBIDDEN_ARGS :: "string list" where
  "FORBIDDEN_ARGS = [''--qnum'', ''--fwmark'', ''--daemon'', ''--pidfile'', ''--intercept'', ''--dry-run'',
     ''--version'', ''--chdir'', ''--uid'', ''--user'', ''--lua-init'', ''--writable'']"

definition check_token :: "string \<Rightarrow> unit result" where
  "check_token t = (if NUL \<in> set t \<or> \<not> startswith t ''--''
     then Inl (ValueError (''invalid strategy argument: '' @ repr_str t))
     else if before CHR ''='' t \<in> set FORBIDDEN_ARGS
     then Inl (ValueError (''forbidden strategy argument: '' @ before CHR ''='' t))
     else Inr ())"

definition validate_args :: "string \<Rightarrow> string result" where
  "validate_args t = (case shlex_split t of
       Inl (ValueError m) \<Rightarrow> Inl (ValueError (''unparsable strategy args: '' @ m))
     | Inl e \<Rightarrow> Inl e
     | Inr tokens \<Rightarrow> if tokens = [] then Inl (ValueError ''empty strategy args'')
         else (case rmap check_token tokens of Inl e \<Rightarrow> Inl e | Inr us \<Rightarrow> Inr (join '' '' tokens)))"

text \<open>\<open>validate_args(row.get("args", ""))\<close>: a value that is no text breaks the tokenizer.\<close>

definition validate_value :: "json \<Rightarrow> string result" where
  "validate_value v = (case py_or v (JStr []) of JStr s \<Rightarrow> validate_args s | _ \<Rightarrow> Inl AttributeError)"

text \<open>
  \<open>_needs_no_reasm\<close> as it stands: the test of the protocol that its text announces follows the
  \<open>return\<close> of \<open>merge_catalog\<close> and is never reached, so without the two literal options it answers
  \<open>None\<close>.
\<close>

definition needs_no_reasm :: "string \<Rightarrow> string \<Rightarrow> bool" where
  "needs_no_reasm args protocol =
     (contains ''--filter-tcp=443'' args \<or> contains ''--payload=tls_client_hello'' args)"

section \<open>Identifiers\<close>

definition numbered :: "string \<Rightarrow> int \<Rightarrow> string" where
  "numbered stem n = stem @ ''_'' @ show_int n"

lemma show_int_inj: "0 \<le> a \<Longrightarrow> 0 \<le> b \<Longrightarrow> show_int a = show_int b \<Longrightarrow> a = b"
  by (metis linorder_not_less parse_show_pos show_int_def)

lemma finite_taken: "finite {k::int. c \<le> k \<and> 0 \<le> k \<and> numbered stem k \<in> set known}"
proof (rule inj_on_finite [of "numbered stem" _ "set known"])
  show "inj_on (numbered stem) {k. c \<le> k \<and> 0 \<le> k \<and> numbered stem k \<in> set known}"
    by (rule inj_onI) (auto simp: numbered_def intro: show_int_inj)
qed auto

text \<open>The loop that counts up until the identifier is free; the counter starts at two.\<close>

function next_id :: "string list \<Rightarrow> string \<Rightarrow> int \<Rightarrow> string" where
  "next_id known stem c = (if 0 \<le> c \<and> numbered stem c \<in> set known then next_id known stem (c + 1)
     else numbered stem c)"
  by pat_completeness auto
termination
proof (relation "measure (\<lambda>(known, stem, c). card {k. c \<le> k \<and> 0 \<le> k \<and> numbered stem k \<in> set known})")
  fix known stem and c :: int
  assume c: "0 \<le> c \<and> numbered stem c \<in> set known"
  have "{k. c + 1 \<le> k \<and> 0 \<le> k \<and> numbered stem k \<in> set known}
      \<subseteq> {k. c \<le> k \<and> 0 \<le> k \<and> numbered stem k \<in> set known}" by auto
  moreover have "c \<in> {k. c \<le> k \<and> 0 \<le> k \<and> numbered stem k \<in> set known}
      - {k. c + 1 \<le> k \<and> 0 \<le> k \<and> numbered stem k \<in> set known}" using c by simp
  ultimately have "{k. c + 1 \<le> k \<and> 0 \<le> k \<and> numbered stem k \<in> set known}
      \<subset> {k. c \<le> k \<and> 0 \<le> k \<and> numbered stem k \<in> set known}" by blast
  from psubset_card_mono [OF finite_taken this]
  show "((known, stem, c + 1), known, stem, c)
      \<in> measure (\<lambda>(known, stem, c). card {k. c \<le> k \<and> 0 \<le> k \<and> numbered stem k \<in> set known})"
    by simp
qed simp

declare next_id.simps [simp del]

definition fresh_id :: "string list \<Rightarrow> string \<Rightarrow> string" where
  "fresh_id known stem = (if stem \<in> set known then next_id known stem 2 else stem)"

lemma next_id_fresh: "0 \<le> c \<Longrightarrow> next_id known stem c \<notin> set known"
proof (induction known stem c rule: next_id.induct)
  case (1 known stem c)
  then show ?case by (subst next_id.simps) auto
qed

lemma fresh_id_fresh: "fresh_id known stem \<notin> set known"
  by (simp add: fresh_id_def next_id_fresh)

section \<open>Entries\<close>

text \<open>\<open>"%d" % v\<close>.\<close>

fun format_d :: "json \<Rightarrow> string result" where
  "format_d (JInt i) = Inr (show_int i)"
| "format_d (JBool b) = Inr (show_int (if b then 1 else 0))"
| "format_d (JFloat (Finite q)) = Inr (show_int (trunc_rat q))"
| "format_d (JFloat NaN) = Inl (ValueError ''cannot convert float NaN to integer'')"
| "format_d (JFloat x) = Inl OverflowError"
| "format_d v = Inl TypeError"

text \<open>\<open>("%.0f%%" % (shares * 100)) if shares is not None else "n/a"\<close>.\<close>

definition share_text :: "json \<Rightarrow> string result" where
  "share_text v = (case v of JNull \<Rightarrow> Inr ''n/a''
     | JBool b \<Rightarrow> Inr (if b then ''100%'' else ''0%'')
     | JInt i \<Rightarrow> Inr (show_int (i * 100) @ ''%'')
     | JFloat (Finite q) \<Rightarrow> Inr (format_0f (Finite (q * 100)) @ ''%'')
     | JFloat x \<Rightarrow> Inr (format_0f x @ ''%'')
     | _ \<Rightarrow> Inl TypeError)"

text \<open>\<open>",".join(row.get("admits") or []) or row.get("observed", "n/a")\<close>.\<close>

definition authenticity_text :: "json dict \<Rightarrow> string result" where
  "authenticity_text row = (case get_items row ''admits'' of Inl e \<Rightarrow> Inl e
     | Inr xs \<Rightarrow> (case rmap text_item xs of Inl e \<Rightarrow> Inl e
       | Inr ts \<Rightarrow> Inr (if join '','' ts \<noteq> [] then join '','' ts
           else py_str (dget_or row ''observed'' (JStr ''n/a'')))))"

definition entry_desc :: "string \<Rightarrow> json dict \<Rightarrow> string result" where
  "entry_desc domain row =
     rbind (format_d (dget_or row ''passes_ok'' (JInt 0))) (\<lambda>pok.
     rbind (format_d (dget_or row ''passes_total'' (JInt 0))) (\<lambda>ptotal.
     rbind (share_text (dget_or row ''median_share'' JNull)) (\<lambda>share.
     rbind (py_int (py_or (dget_or row ''median_latency_ms'' (JInt 0)) (JInt 0))) (\<lambda>lat.
     rbind (authenticity_text row) (\<lambda>auth.
     Inr (''Selected by blockcheckw: '' @ pok @ ''/'' @ ptotal @ '' full passes, '' @ share
       @ '' of the reference volume, '' @ show_int lat @ '' ms, authenticity: '' @ auth
       @ (if domain \<noteq> [] then '' (domain: '' @ domain @ '')'' else [])))))))"

definition import_entry ::
  "string \<Rightarrow> string \<Rightarrow> json dict \<Rightarrow> string \<Rightarrow> string \<Rightarrow> string \<Rightarrow> string \<Rightarrow> json dict \<Rightarrow> json dict result"
where
  "import_entry now run_id dm domain protocol args sid row =
     (case entry_desc domain row of Inl e \<Rightarrow> Inl e
      | Inr desc \<Rightarrow> Inr ([
          (''id'', JStr sid),
          (''name'', JStr (''blockcheckw: '' @ (if domain \<noteq> [] then domain else ''domain'') @ '' ('' @ protocol @ '')'')),
          (''desc'', JStr desc),
          (''nfqws_opt'', JStr args),
          (''lua_opt'', JStr (if contains ''--lua-desync='' args then args else [])),
          (''protocol'', JStr protocol),
          (''imported'', JBool True),
          (''import_time'', JStr now),
          (''import_original_args'', JStr args),
          (''bcw'', JDict [
             (''domain'', JStr domain),
             (''block_type'', dget_or dm ''block_type'' (JStr [])),
             (''run_id'', JStr run_id),
             (''passes_ok'', dget_or row ''passes_ok'' (JInt 0)),
             (''passes_total'', dget_or row ''passes_total'' (JInt 0)),
             (''median_share'', dget_or row ''median_share'' JNull),
             (''median_latency_ms'', dget_or row ''median_latency_ms'' (JInt 0)),
             (''success_rate'', dget_or row ''success_rate'' (JFloat (Finite 0))),
             (''admits'', py_or (dget_or row ''admits'' JNull) (JList [])),
             (''observed'', dget_or row ''observed'' (JStr []))])]
        @ (if needs_no_reasm args protocol then [(''no_reasm'', JBool True)] else [])))"

section \<open>Planning an import\<close>

text \<open>What the catalog already holds: the white-space normalized arguments and the identifiers.\<close>

definition norm_ws :: "string \<Rightarrow> string" where
  "norm_ws t = join '' '' (split_ws t)"

definition entry_args :: "json dict \<Rightarrow> string list" where
  "entry_args e = map (\<lambda>k. norm_ws (py_str (dget_or e k JNull)))
     (filter (\<lambda>k. truthy (dget_or e k JNull)) [''nfqws_opt'', ''lua_opt''])"

definition entry_ids :: "json dict \<Rightarrow> string list" where
  "entry_ids e = (if truthy (dget_or e ''id'' JNull) then [py_str (dget_or e ''id'' JNull)] else [])"

fun entry_dict :: "json \<Rightarrow> json dict result" where
  "entry_dict (JDict d) = Inr d"
| "entry_dict v = Inl AttributeError"

record skipped_row =
  sk_domain :: string
  sk_protocol :: string
  sk_args :: string
  sk_reason :: string

record import_state =
  im_args :: "string list"
  im_ids :: "string list"
  im_entries :: "json dict list"
  im_skipped :: "skipped_row list"
  im_count :: "int dict"

record import_cfg =
  ic_limit :: int
  ic_prefix :: string
  ic_run_id :: string
  ic_now :: string

definition import_config :: "json dict \<Rightarrow> string \<Rightarrow> string \<Rightarrow> import_cfg result" where
  "import_config settings run_id now =
     (case py_int (py_or (dget_or settings ''max_import'' (JInt 5)) (JInt 0)) of Inl e \<Rightarrow> Inl e
      | Inr l \<Rightarrow> Inr \<lparr>ic_limit = l,
          ic_prefix = slug (py_str (py_or (dget_or settings ''import_prefix'' JNull) (JStr ''bcw''))) 16,
          ic_run_id = run_id, ic_now = now\<rparr>)"

definition row_protocol :: "json dict \<Rightarrow> string" where
  "row_protocol row = py_str (py_or (dget_or row ''protocol'' JNull) (JStr ''HTTPS/TLS1.2''))"

definition skip_row :: "string \<Rightarrow> string \<Rightarrow> string \<Rightarrow> string \<Rightarrow> import_state \<Rightarrow> import_state" where
  "skip_row domain protocol args why st = st\<lparr>im_skipped := im_skipped st @
     [\<lparr>sk_domain = domain, sk_protocol = protocol, sk_args = args, sk_reason = why\<rparr>]\<rparr>"

text \<open>One row of one domain.\<close>

definition import_row ::
  "import_cfg \<Rightarrow> json dict \<Rightarrow> import_state \<Rightarrow> json \<Rightarrow> import_state result"
where
  "import_row cfg dm st v = (case entry_dict v of Inl e \<Rightarrow> Inl e
     | Inr row \<Rightarrow> (let domain = get_text dm ''domain''; protocol = row_protocol row;
           stem = ic_prefix cfg @ ''_'' @ slug domain 20 @ ''_'' @ slug protocol 16;
           taken = dget_or (im_count st) protocol 0
         in case validate_value (dget_or row ''args'' (JStr [])) of
              Inl (ValueError m) \<Rightarrow> Inr (skip_row domain protocol (get_text row ''args'') m st)
            | Inl e \<Rightarrow> Inl e
            | Inr args \<Rightarrow>
                if args \<in> set (im_args st) then
                  Inr (skip_row domain protocol args ''already in the catalog'' st)
                else if ic_limit cfg \<noteq> 0 \<and> ic_limit cfg \<le> taken then
                  Inr (skip_row domain protocol args
                    (''over max_import='' @ show_int (ic_limit cfg) @ '' for this protocol'') st)
                else (case import_entry (ic_now cfg) (ic_run_id cfg) dm domain protocol args
                        (fresh_id (im_ids st) stem) row of
                    Inl e \<Rightarrow> Inl e
                  | Inr entry \<Rightarrow> Inr (st\<lparr>im_entries := im_entries st @ [entry],
                      im_ids := fresh_id (im_ids st) stem # im_ids st, im_args := args # im_args st,
                      im_count := dset protocol (taken + 1) (im_count st)\<rparr>))))"

definition import_domain :: "import_cfg \<Rightarrow> import_state \<Rightarrow> json \<Rightarrow> import_state result" where
  "import_domain cfg st v = (case entry_dict v of Inl e \<Rightarrow> Inl e
     | Inr dm \<Rightarrow> (case get_items dm ''working'' of Inl e \<Rightarrow> Inl e
       | Inr rows \<Rightarrow> rfold (import_row cfg dm) st rows))"

definition import_start :: "json dict list \<Rightarrow> import_state" where
  "import_start es = \<lparr>im_args = concat (map entry_args es), im_ids = concat (map entry_ids es),
     im_entries = [], im_skipped = [], im_count = []\<rparr>"

definition plan_import ::
  "json dict \<Rightarrow> json dict \<Rightarrow> json list \<Rightarrow> string \<Rightarrow> string \<Rightarrow> (json dict list \<times> skipped_row list) result"
where
  "plan_import res settings existing run_id now =
     (case import_config settings run_id now of Inl e \<Rightarrow> Inl e
      | Inr cfg \<Rightarrow> (case rmap entry_dict existing of Inl e \<Rightarrow> Inl e
        | Inr es \<Rightarrow> (case get_items res ''domains'' of Inl e \<Rightarrow> Inl e
          | Inr doms \<Rightarrow> (case rfold (import_domain cfg) (import_start es) doms of Inl e \<Rightarrow> Inl e
            | Inr st \<Rightarrow> Inr (im_entries st, im_skipped st)))))"

section \<open>The merge\<close>

definition entry_id :: "json dict \<Rightarrow> string" where
  "entry_id e = py_str (dget_or e ''id'' JNull)"

definition merge_catalog :: "json dict \<Rightarrow> json dict list \<Rightarrow> json dict result" where
  "merge_catalog catalog entries =
     (case iter (dget_or catalog ''strategies'' (JList [])) of Inl e \<Rightarrow> Inl e
      | Inr vs \<Rightarrow> (case rmap entry_dict vs of Inl e \<Rightarrow> Inl e
        | Inr es \<Rightarrow> Inr (dset ''strategies'' (JList (map JDict
            (filter (\<lambda>s. entry_id s \<notin> set (map entry_id entries)) es @ entries))) catalog)))"

section \<open>The invariant of an import\<close>

definition entry_opt :: "json dict \<Rightarrow> string" where
  "entry_opt e = py_str (dget_or e ''nfqws_opt'' JNull)"

definition entry_protocol :: "json dict \<Rightarrow> string" where
  "entry_protocol e = py_str (dget_or e ''protocol'' JNull)"

definition of_protocol :: "string \<Rightarrow> json dict list \<Rightarrow> nat" where
  "of_protocol p es = length (filter (\<lambda>e. entry_protocol e = p) es)"

text \<open>
  The known identifiers and arguments are those of the catalog and of the new entries, none twice; a
  new entry carries validated arguments; the counters count the new entries and respect the limit.
\<close>

definition import_inv :: "import_cfg \<Rightarrow> import_state \<Rightarrow> import_state \<Rightarrow> bool" where
  "import_inv cfg st0 st = (
     im_ids st = rev (map entry_id (im_entries st)) @ im_ids st0 \<and>
     im_args st = rev (map entry_opt (im_entries st)) @ im_args st0 \<and>
     distinct (map entry_id (im_entries st)) \<and> set (map entry_id (im_entries st)) \<inter> set (im_ids st0) = {} \<and>
     distinct (map entry_opt (im_entries st)) \<and> set (map entry_opt (im_entries st)) \<inter> set (im_args st0) = {} \<and>
     list_all (\<lambda>e. \<exists>v. validate_value v = Inr (entry_opt e)) (im_entries st) \<and>
     (\<forall>p. dget_or (im_count st) p 0 = int (of_protocol p (im_entries st))) \<and>
     (ic_limit cfg \<noteq> 0 \<longrightarrow> (\<forall>p. int (of_protocol p (im_entries st)) \<le> max 0 (ic_limit cfg))))"

lemma import_entry_fields:
  "import_entry now rid dm domain protocol args sid row = Inr e \<Longrightarrow>
     entry_id e = sid \<and> entry_opt e = args \<and> entry_protocol e = protocol"
  by (auto simp: import_entry_def entry_id_def entry_opt_def entry_protocol_def dget_or_def split: sum.splits)

lemma import_row_cases:
  assumes "import_row cfg dm st v = Inr st'"
  obtains (skipped) w where "st' = st\<lparr>im_skipped := im_skipped st @ [w]\<rparr>"
  | (imported) row args p e where "v = JDict row" "validate_value (dget_or row ''args'' (JStr [])) = Inr args"
      "args \<notin> set (im_args st)" "ic_limit cfg = 0 \<or> dget_or (im_count st) p 0 < ic_limit cfg"
      "entry_id e \<notin> set (im_ids st)" "entry_opt e = args" "entry_protocol e = p"
      "st' = st\<lparr>im_entries := im_entries st @ [e], im_ids := entry_id e # im_ids st, im_args := args # im_args st,
          im_count := dset p (dget_or (im_count st) p 0 + 1) (im_count st)\<rparr>"
proof -
  obtain row where row: "v = JDict row" using assms by (cases v) (auto simp: import_row_def)
  let ?p = "row_protocol row" and ?d = "get_text dm ''domain''"
  let ?id = "fresh_id (im_ids st) (ic_prefix cfg @ ''_'' @ slug ?d 20 @ ''_'' @ slug ?p 16)"
  show ?thesis
  proof (cases "validate_value (dget_or row ''args'' (JStr []))")
    case (Inl e)
    with assms row skipped show ?thesis
      by (cases e) (auto simp: import_row_def Let_def skip_row_def)
  next
    case (Inr args)
    show ?thesis
    proof (cases "args \<in> set (im_args st) \<or> (ic_limit cfg \<noteq> 0 \<and> ic_limit cfg \<le> dget_or (im_count st) ?p 0)")
      case True
      with assms row Inr skipped show ?thesis
        by (auto simp: import_row_def Let_def skip_row_def split: if_splits)
    next
      case False
      with assms row Inr obtain e where
        e: "import_entry (ic_now cfg) (ic_run_id cfg) dm ?d ?p args ?id row = Inr e"
        "st' = st\<lparr>im_entries := im_entries st @ [e], im_ids := ?id # im_ids st, im_args := args # im_args st,
          im_count := dset ?p (dget_or (im_count st) ?p 0 + 1) (im_count st)\<rparr>"
        by (auto simp: import_row_def Let_def split: if_splits sum.splits)
      from import_entry_fields [OF e(1)] e(2) False Inr row
      show ?thesis by (intro imported [of row args ?p e]) (auto simp: fresh_id_fresh)
    qed
  qed
qed

lemma of_protocol_snoc: "of_protocol p (es @ [e]) = of_protocol p es + (if entry_protocol e = p then 1 else 0)"
  by (simp add: of_protocol_def)

lemma import_row_inv:
  assumes "import_row cfg dm st v = Inr st'" and "import_inv cfg st0 st"
  shows "import_inv cfg st0 st'"
  using assms(1)
proof (cases rule: import_row_cases)
  case (skipped w)
  with assms(2) show ?thesis by (simp add: import_inv_def)
next
  case (imported row args p e)
  have "int (of_protocol q (im_entries st @ [e])) \<le> max 0 (ic_limit cfg)" if "ic_limit cfg \<noteq> 0" for q
    using imported(4,7) assms(2) that by (auto simp: of_protocol_snoc import_inv_def)
  with imported assms(2) show ?thesis
    by (auto simp: import_inv_def of_protocol_snoc)
qed

lemma import_domain_inv:
  assumes "import_domain cfg st v = Inr st'" and "import_inv cfg st0 st"
  shows "import_inv cfg st0 st'"
proof -
  from assms(1) obtain dm rows where "rfold (import_row cfg dm) st rows = Inr st'"
    by (auto simp: import_domain_def split: sum.splits)
  then show ?thesis
    by (rule rfold_inv [where P = "import_inv cfg st0"]) (use assms(2) import_row_inv in auto)
qed

lemma import_start_inv: "import_inv cfg (import_start es) (import_start es)"
  by (simp add: import_inv_def import_start_def of_protocol_def dget_or_def)

lemma plan_import_cases:
  assumes "plan_import res settings existing run_id now = Inr (entries, skipped)"
  obtains cfg es doms st where "import_config settings run_id now = Inr cfg" "rmap entry_dict existing = Inr es"
    "get_items res ''domains'' = Inr doms" "rfold (import_domain cfg) (import_start es) doms = Inr st"
    "entries = im_entries st" "skipped = im_skipped st"
  using assms by (auto simp: plan_import_def split: sum.splits)

lemma plan_import_inv:
  assumes "plan_import res settings existing run_id now = Inr (entries, skipped)"
  obtains cfg es st where "import_config settings run_id now = Inr cfg" "rmap entry_dict existing = Inr es"
    "entries = im_entries st" "import_inv cfg (import_start es) st"
proof -
  obtain cfg es doms st where st: "import_config settings run_id now = Inr cfg" "rmap entry_dict existing = Inr es"
    "rfold (import_domain cfg) (import_start es) doms = Inr st" "entries = im_entries st"
    using assms by (rule plan_import_cases)
  from st(3) have "import_inv cfg (import_start es) st"
    by (rule rfold_inv [where P = "import_inv cfg (import_start es)"])
      (use import_start_inv import_domain_inv in auto)
  with st that show ?thesis by blast
qed

text \<open>Every row ends up in one of the two lists.\<close>

definition accounted :: "import_state \<Rightarrow> nat" where
  "accounted st = length (im_entries st) + length (im_skipped st)"

lemma import_row_accounted: "import_row cfg dm st v = Inr st' \<Longrightarrow> accounted st' = accounted st + 1"
  by (erule import_row_cases) (simp_all add: accounted_def)

lemma rfold_accounted:
  assumes "rfold f st xs = Inr st'" and "\<And>s x s'. x \<in> set xs \<Longrightarrow> f s x = Inr s' \<Longrightarrow> accounted s' = accounted s + n x"
  shows "accounted st' = accounted st + sum_list (map n xs)"
  using assms
proof (induction xs arbitrary: st)
  case Nil
  then show ?case by simp
next
  case (Cons x xs)
  from Cons.prems(1) obtain s where s: "f st x = Inr s" "rfold f s xs = Inr st'"
    by (auto simp: rbind_eq_Inr)
  have "accounted st' = accounted s + sum_list (map n xs)"
    by (rule Cons.IH [OF s(2)]) (auto intro: Cons.prems(2))
  with Cons.prems(2) [OF _ s(1)] show ?case by simp
qed

definition working_rows :: "json \<Rightarrow> nat" where
  "working_rows v = (case get_items (as_dict v) ''working'' of Inl e \<Rightarrow> 0 | Inr rows \<Rightarrow> length rows)"

lemma import_domain_accounted:
  assumes "import_domain cfg st v = Inr st'"
  shows "accounted st' = accounted st + working_rows v"
proof -
  from assms obtain dm rows where v: "v = JDict dm" "get_items dm ''working'' = Inr rows"
    "rfold (import_row cfg dm) st rows = Inr st'"
    by (cases v) (auto simp: import_domain_def split: sum.splits)
  from rfold_accounted [OF v(3), of "\<lambda>_. 1"] import_row_accounted v(1,2) show ?thesis
    by (simp add: working_rows_def sum_list_triv)
qed

section \<open>Validated texts and their rendering\<close>












section \<open>The merge\<close>

lemma merge_catalog_entries:
  assumes "dget catalog ''strategies'' = Some (JList (map JDict es))"
  shows "merge_catalog catalog new = Inr (dset ''strategies'' (JList (map JDict
    (filter (\<lambda>s. entry_id s \<notin> set (map entry_id new)) es @ new))) catalog)"
proof -
  have "rmap entry_dict (map JDict es) = Inr es" by (induction es) simp_all
  with assms show ?thesis by (simp add: merge_catalog_def dget_or_def)
qed

section \<open>Properties\<close>

text \<open>
  Property C15. An import never collides with the catalog: the new entries have identifiers that differ
  from each other and from every identifier of the catalog, their arguments are validated, differ from
  each other and from every argument text of the catalog, and there are at most \<open>max_import\<close> of them per
  protocol (when that limit is not zero).
\<close>

theorem plan_import_sound:
  assumes "plan_import res settings existing run_id now = Inr (entries, skipped)"
    and "rmap entry_dict existing = Inr es" and "import_config settings run_id now = Inr cfg"
  shows "distinct (map entry_id entries) \<and> set (map entry_id entries) \<inter> set (concat (map entry_ids es)) = {} \<and>
    distinct (map entry_opt entries) \<and> set (map entry_opt entries) \<inter> set (concat (map entry_args es)) = {} \<and>
    list_all (\<lambda>e. \<exists>v. validate_value v = Inr (entry_opt e)) entries \<and>
    (ic_limit cfg \<noteq> 0 \<longrightarrow> (\<forall>p. int (of_protocol p entries) \<le> max 0 (ic_limit cfg)))"
proof -
  obtain cfg' es' st where "import_config settings run_id now = Inr cfg'" "rmap entry_dict existing = Inr es'"
    "entries = im_entries st" "import_inv cfg' (import_start es') st"
    using assms(1) by (rule plan_import_inv)
  with assms(2,3) show ?thesis by (simp add: import_inv_def import_start_def)
qed

definition sample_import_row :: "string \<Rightarrow> json" where
  "sample_import_row args = JDict [(''protocol'', JStr ''HTTP''), (''args'', JStr args)]"

theorem plan_import_sound_witness:
  "\<exists>entries skipped. plan_import [(''domains'', JList [JDict [(''domain'', JStr ''a.b''),
      (''working'', JList [sample_import_row ''--x'', sample_import_row ''--x'', sample_import_row ''--y''])]])]
      [] [JDict [(''id'', JStr ''bcw_a_b_http''), (''nfqws_opt'', JStr ''--z'')]] ''r'' ''t'' = Inr (entries, skipped) \<and>
    length entries = 2 \<and> ''bcw_a_b_http'' \<notin> set (map entry_id entries) \<and> distinct (map entry_id entries)"
proof -
  let ?ex = "[JDict [(''id'', JStr ''bcw_a_b_http''), (''nfqws_opt'', JStr ''--z'')]]"
  let ?res = "[(''domains'', JList [JDict [(''domain'', JStr ''a.b''),
      (''working'', JList [sample_import_row ''--x'', sample_import_row ''--x'', sample_import_row ''--y''])]])]"
  have run: "(case plan_import ?res [] ?ex ''r'' ''t'' of Inr (es, sk) \<Rightarrow> length es = 2 | _ \<Rightarrow> False)"
    by code_simp
  then obtain entries skipped where p: "plan_import ?res [] ?ex ''r'' ''t'' = Inr (entries, skipped)" "length entries = 2"
    by (auto split: sum.splits)
  have es: "rmap entry_dict ?ex = Inr [[(''id'', JStr ''bcw_a_b_http''), (''nfqws_opt'', JStr ''--z'')]]" by simp
  obtain cfg where cfg: "import_config [] ''r'' ''t'' = Inr cfg"
    by (simp add: import_config_def dget_or_def py_or_def)
  from plan_import_sound [OF p(1) es cfg] p show ?thesis
    by (auto simp: entry_ids_def dget_or_def)
qed

text \<open>
  No row of a run is lost on import: the entries and the skipped rows together are as many
  as the working rows of all domains.
\<close>

theorem plan_import_accounts:
  assumes "plan_import res settings existing run_id now = Inr (entries, skipped)"
    and "get_items res ''domains'' = Inr doms"
  shows "length entries + length skipped = sum_list (map working_rows doms)"
proof -
  obtain cfg es doms' st where st: "get_items res ''domains'' = Inr doms'"
    "rfold (import_domain cfg) (import_start es) doms' = Inr st" "entries = im_entries st" "skipped = im_skipped st"
    using assms(1) by (rule plan_import_cases)
  from rfold_accounted [OF st(2), of working_rows] import_domain_accounted st(1,3,4) assms(2)
  show ?thesis by (simp add: accounted_def import_start_def)
qed

theorem plan_import_accounts_witness:
  "\<exists>entries skipped. plan_import [(''domains'', JList [JDict [(''working'', JList [sample_import_row ''x''])]])]
      [] [] ''r'' ''t'' = Inr (entries, skipped) \<and> length entries + length skipped = 1"
proof -
  let ?res = "[(''domains'', JList [JDict [(''working'', JList [sample_import_row ''x''])]])]"
  have "(case plan_import ?res [] [] ''r'' ''t'' of Inr (es, sk) \<Rightarrow> True | _ \<Rightarrow> False)"
    by code_simp
  then obtain entries skipped where p: "plan_import ?res [] [] ''r'' ''t'' = Inr (entries, skipped)"
    by (auto split: sum.splits)
  have "get_items ?res ''domains'' = Inr [JDict [(''working'', JList [sample_import_row ''x''])]]"
    by (simp add: get_items_def dget_or_def py_or_def)
  from plan_import_accounts [OF p this] p show ?thesis
    by (auto simp: working_rows_def get_items_def dget_or_def py_or_def)
qed



text \<open>
  Validation does not survive the join: it checks the tokens of the text, but stores them
  joined by blanks without their quotation. A quoted token with a blank inside comes apart when the
  entry is rendered, and an option that validation forbids (here \<open>--lua-init\<close>, which loads a script)
  reaches the engine.
\<close>

theorem validated_text_smuggles_option:
  "\<exists>t out args. validate_args t = Inr out \<and> strategy_args [(''nfqws_opt'', JStr out)] = Inr args \<and>
    ''--lua-init=@/tmp/x.lua'' \<in> set args \<and> ''--lua-init'' \<in> set FORBIDDEN_ARGS"
proof -
  have v: "validate_args (dquote # ''--payload=x --lua-init=@/tmp/x.lua'' @ [dquote]) =
      Inr ''--payload=x --lua-init=@/tmp/x.lua''"
    by code_simp
  have r: "strategy_args [(''nfqws_opt'', JStr ''--payload=x --lua-init=@/tmp/x.lua'')] =
      Inr [''--payload=x'', ''--lua-init=@/tmp/x.lua'']"
    by code_simp
  show ?thesis
    by (intro exI conjI, rule v, rule r) (simp_all add: FORBIDDEN_ARGS_def)
qed

text \<open>
  The protocol plays no part in switching the reassembly off: a TLS strategy whose text has
  neither of the two literal options is imported without the flag, although the announced rule covers
  every TLS ClientHello strategy.
\<close>

theorem tls_import_keeps_reassembly:
  assumes "import_entry now rid dm domain protocol args sid row = Inr e"
    and "\<not> contains ''--filter-tcp=443'' args" and "\<not> contains ''--payload=tls_client_hello'' args"
  shows "dget e ''no_reasm'' = None"
  using assms by (auto simp: import_entry_def needs_no_reasm_def split: sum.splits)

theorem tls_import_keeps_reassembly_witness:
  "\<exists>e. import_entry ''t'' ''r'' [] ''a.b'' ''HTTPS/TLS1.3'' ''--lua-desync=fake'' ''id'' [] = Inr e \<and>
    dget e ''no_reasm'' = None"
proof -
  have d: "entry_desc ''a.b'' [] = Inr (''Selected by blockcheckw: 0/0 full passes, n/a of the reference volume, 0 ms, authenticity: n/a (domain: a.b)'')"
    by code_simp
  obtain e where e: "import_entry ''t'' ''r'' [] ''a.b'' ''HTTPS/TLS1.3'' ''--lua-desync=fake'' ''id'' [] = Inr e"
    by (simp add: import_entry_def d)
  have "\<not> contains ''--filter-tcp=443'' ''--lua-desync=fake''" "\<not> contains ''--payload=tls_client_hello'' ''--lua-desync=fake''"
    by code_simp+
  from tls_import_keeps_reassembly [OF e this] e show ?thesis by blast
qed

end
