(* ===== verification/PanelCatalog.thy ===== *)
theory PanelCatalog
  imports Catalog
begin

text \<open>
  \<^verbatim>\<open>src/panel/panel.py\<close>, the strategy catalog: reading it, the active strategy, the import of a test
  result, the deletion of an entry, and the import of a finished selection run.
\<close>

section \<open>Reading the catalog\<close>

definition STRATEGIES_FILE :: string where
  "STRATEGIES_FILE = ''/opt/webzapret/config/strategies.json''"

text \<open>
  What the panel sees of the machine: the JSON files, and the small text files of the state directory
  (written by the shell scripts).
\<close>

record panel_files =
  pf_store :: store
  pf_state :: "string \<Rightarrow> string option"

definition state_get :: "panel_files \<Rightarrow> string \<Rightarrow> string \<Rightarrow> string" where
  "state_get pf key dflt = (case pf_state pf key of None \<Rightarrow> dflt | Some s \<Rightarrow> strip s)"

definition empty_catalog :: json where
  "empty_catalog = JDict [(''strategies'', JList [])]"

definition strategies :: "store \<Rightarrow> json result" where
  "strategies st = jget_or (read_json st STRATEGIES_FILE empty_catalog) ''strategies'' (JList [])"

text \<open>\<open>[s.get("id", "") for s in strategies()]\<close>.\<close>

definition strategy_ids :: "store \<Rightarrow> json list result" where
  "strategy_ids st = (case strategies st of Inl e \<Rightarrow> Inl e | Inr v \<Rightarrow> (case iter v of Inl e \<Rightarrow> Inl e
     | Inr vs \<Rightarrow> rmap (\<lambda>s. jget_or s ''id'' (JStr [])) vs))"

definition active_strategy :: "panel_files \<Rightarrow> string result" where
  "active_strategy pf = (case strategy_ids (pf_store pf) of Inl e \<Rightarrow> Inl e
     | Inr ids \<Rightarrow> (let cur = state_get pf ''strategy'' ''standard'' in Inr (if JStr cur \<in> set ids then cur else [])))"

definition active_exit_mode :: "panel_files \<Rightarrow> string" where
  "active_exit_mode pf = state_get pf ''exit_mode'' ''direct''"

section \<open>Deletion\<close>

text \<open>The answers of the route; the refusals are named after their messages.\<close>

datatype delete_result = UnknownStrategy string | BuiltInNone | ActiveStrategy | WriteFailed
  | Deleted string "json list"

definition without_id :: "json \<Rightarrow> json list \<Rightarrow> json list result" where
  "without_id sid vs = rbind (rmap entry_dict vs) (\<lambda>es.
     Inr (map JDict (filter (\<lambda>e. dget_or e ''id'' JNull \<noteq> sid) es)))"

definition delete_strategy :: "fault \<Rightarrow> json \<Rightarrow> panel_files \<Rightarrow> (panel_files \<times> delete_result) result" where
  "delete_strategy f strategy_id pf = (let sid = py_str (py_or strategy_id (JStr [])) in
     case strategy_ids (pf_store pf) of Inl e \<Rightarrow> Inl e
     | Inr ids \<Rightarrow>
       if JStr sid \<notin> set ids then Inr (pf, UnknownStrategy sid)
       else if sid = ''none'' then Inr (pf, BuiltInNone)
       else (case active_strategy pf of Inl e \<Rightarrow> Inl e
         | Inr act \<Rightarrow>
           if sid = act then Inr (pf, ActiveStrategy)
           else (case py_or (read_json (pf_store pf) STRATEGIES_FILE empty_catalog) empty_catalog of
               JDict cat \<Rightarrow> (case iter (dget_or cat ''strategies'' (JList [])) of Inl e \<Rightarrow> Inl e
                 | Inr vs \<Rightarrow> (case without_id (JStr sid) vs of Inl e \<Rightarrow> Inl e
                   | Inr left \<Rightarrow> (case write_json f STRATEGIES_FILE
                          (JDict (dset ''strategies'' (JList left) cat)) (pf_store pf) of
                       (st', ok) \<Rightarrow> Inr (pf\<lparr>pf_store := st'\<rparr>,
                         if ok then Deleted sid (map (\<lambda>s. dget_or (as_dict s) ''id'' JNull) left)
                         else WriteFailed))))
             | _ \<Rightarrow> Inl AttributeError)))"

section \<open>Import of a test result\<close>

text \<open>A number of a JSON value; arithmetic on anything else raises.\<close>

fun py_num :: "json \<Rightarrow> pyfloat result" where
  "py_num (JInt i) = Inr (Finite (of_int i))"
| "py_num (JBool b) = Inr (Finite (if b then 1 else 0))"
| "py_num (JFloat x) = Inr x"
| "py_num v = Inl TypeError"

text \<open>\<open>"%.1f%%" % x\<close>.\<close>

definition format_1f :: "pyfloat \<Rightarrow> string" where
  "format_1f x = (case x of Finite q \<Rightarrow> (let n = round_half_even (q * 10) in
       (if q < 0 then ''-'' else []) @ show_int (\<bar>n\<bar> div 10) @ ''.'' @ show_int (\<bar>n\<bar> mod 10))
     | PosInf \<Rightarrow> ''inf'' | NegInf \<Rightarrow> ''-inf'' | NaN \<Rightarrow> ''nan'')"

text \<open>
  The ranking key of the import: success rate first, then latency. A latency that is no number is
  refused here even where the code would never compare it.
\<close>

definition test_key :: "json dict \<Rightarrow> (pyfloat \<times> pyfloat) result" where
  "test_key s = rbind (py_num (dget_or s ''success_rate'' (JInt 0))) (\<lambda>r.
     rbind (py_num (dget_or s ''median_latency_ms'' (JInt 9999))) (\<lambda>l. Inr (py_neg r, l)))"

definition rank_tests :: "((pyfloat \<times> pyfloat) \<times> json dict) list \<Rightarrow> ((pyfloat \<times> pyfloat) \<times> json dict) list" where
  "rank_tests xs = sort_key fst xs"

interpretation tests_best_first: ranking fst rank_tests
  by unfold_locales (rule rank_tests_def)

definition keyed_test :: "json \<Rightarrow> ((pyfloat \<times> pyfloat) \<times> json dict) result" where
  "keyed_test v = (case entry_dict v of Inl e \<Rightarrow> Inl e
     | Inr d \<Rightarrow> (case test_key d of Inl e \<Rightarrow> Inl e | Inr k \<Rightarrow> Inr (k, d)))"

fun text_value :: "json \<Rightarrow> string result" where
  "text_value (JStr s) = Inr s"
| "text_value v = Inl AttributeError"

definition id_base :: "string \<Rightarrow> json \<Rightarrow> int \<Rightarrow> string result" where
  "id_base domain timestamp now = (let slug20 = take 20 (filter slug_char (lower domain)) in
     if truthy timestamp
     then (case timestamp of JStr t \<Rightarrow> Inr (''custom_'' @ slug20 @ ''_'' @ filter (\<lambda>c. c \<noteq> CHR ''-'') (take 10 t))
       | JList xs \<Rightarrow> Inl AttributeError
       | _ \<Rightarrow> Inl TypeError)
     else Inr (''custom_'' @ slug20 @ ''_'' @ show_int now))"

definition nth_id :: "string \<Rightarrow> nat \<Rightarrow> string" where
  "nth_id base idx = (if idx = 0 then base else numbered base (int idx + 1))"

definition imported_no_reasm :: "string list \<Rightarrow> bool" where
  "imported_no_reasm tokens = (list_ex (contains ''tls_client_hello'') tokens
     \<or> list_ex (\<lambda>t. startswith t ''--filter-tcp=443'') tokens)"

definition test_entry :: "string \<Rightarrow> string \<Rightarrow> string \<Rightarrow> json dict \<Rightarrow> json dict result" where
  "test_entry stamp domain sid s =
     (case dget_or s ''args'' (JStr []) of
        JStr args \<Rightarrow>
          if strip args = [] then Inl (ValueError ''Strategy args must be a non-empty string'')
          else (case shlex_split args of Inl e \<Rightarrow> Inl e
            | Inr tokens \<Rightarrow> (case py_num (dget_or s ''success_rate'' (JInt 0)) of Inl e \<Rightarrow> Inl e
              | Inr rate \<Rightarrow> (case py_int (dget_or s ''median_latency_ms'' (JInt 0)) of Inl e \<Rightarrow> Inl e
                | Inr lat \<Rightarrow> (let protocol = dget_or s ''protocol'' (JStr ''HTTPS/TLS1.2'') in Inr ([
                    (''id'', JStr sid),
                    (''name'', JStr (''Custom: '' @ domain @ '' ('' @ py_str protocol @ '')'')),
                    (''desc'', JStr (''Imported from '' @ domain @ '' test results ('' @ format_1f (times100 rate)
                       @ ''% success, '' @ show_int lat @ ''ms latency)'')),
                    (''nfqws_opt'', JStr args),
                    (''lua_opt'', JStr (if contains ''--lua-desync='' args then args else [])),
                    (''protocol'', protocol),
                    (''imported'', JBool True),
                    (''import_time'', JStr stamp),
                    (''import_original_args'', JStr args)]
                  @ (if imported_no_reasm tokens then [(''no_reasm'', JBool True)] else []))))))
      | _ \<Rightarrow> Inl (ValueError ''Strategy args must be a non-empty string''))"

text \<open>One round of the loop: the batch so far, and the list of the catalog with the entry replaced.\<close>

definition test_step ::
  "string \<Rightarrow> string \<Rightarrow> string \<Rightarrow> json dict list \<times> json list \<Rightarrow> nat \<times> json dict \<Rightarrow> (json dict list \<times> json list) result"
where
  "test_step stamp domain base st x = (case (st, x) of ((done_list, vs), (idx, s)) \<Rightarrow>
     (case test_entry stamp domain (nth_id base idx) s of Inl e \<Rightarrow> Inl e
      | Inr entry \<Rightarrow> (case without_id (JStr (nth_id base idx)) vs of Inl e \<Rightarrow> Inl e
        | Inr left \<Rightarrow> Inr (done_list @ [entry], left @ [JDict entry]))))"

datatype import_result = NoStrategies | ImportFailed pyexn | ImportWriteFailed | Imported "json dict list"

definition plan_tests ::
  "int \<Rightarrow> string \<Rightarrow> json dict \<Rightarrow> store \<Rightarrow> (json dict list \<times> json dict) option result"
where
  "plan_tests now stamp data st = (let listed = dget_or data ''strategies'' (JList []) in
     if \<not> truthy listed then Inr None
     else (case iter listed of Inl e \<Rightarrow> Inl e
      | Inr vs \<Rightarrow> (case rmap keyed_test vs of Inl e \<Rightarrow> Inl e
       | Inr keyed \<Rightarrow> (case text_value (dget_or data ''domain'' (JStr ''custom'')) of Inl e \<Rightarrow> Inl e
        | Inr domain \<Rightarrow> (case id_base domain (dget_or data ''timestamp'' (JStr [])) now of Inl e \<Rightarrow> Inl e
         | Inr base \<Rightarrow> (case read_json st STRATEGIES_FILE empty_catalog of
            JDict cat \<Rightarrow> (case iter (dget_or cat ''strategies'' (JList [])) of Inl e \<Rightarrow> Inl e
              | Inr old \<Rightarrow> (case rfold (test_step stamp domain base) ([], old)
                     (enumerate 0 (map snd (rank_tests keyed))) of Inl e \<Rightarrow> Inl e
                  | Inr (batch, new) \<Rightarrow> Inr (Some (batch, dset ''strategies'' (JList new) cat))))
          | _ \<Rightarrow> Inl AttributeError))))))"

text \<open>Whatever raises on the way is answered as an error; nothing has been written then.\<close>

definition import_strategy_from_json ::
  "fault \<Rightarrow> int \<Rightarrow> string \<Rightarrow> json \<Rightarrow> store \<Rightarrow> store \<times> import_result"
where
  "import_strategy_from_json f now stamp data st = (case data of
       JDict d \<Rightarrow> (case plan_tests now stamp d st of
           Inl e \<Rightarrow> (st, ImportFailed e)
         | Inr None \<Rightarrow> (st, NoStrategies)
         | Inr (Some (batch, cat)) \<Rightarrow> (case write_json f STRATEGIES_FILE (JDict cat) st of
             (st', ok) \<Rightarrow> (st', if ok then Imported batch else ImportWriteFailed)))
     | _ \<Rightarrow> (st, ImportFailed AttributeError))"

section \<open>Import of a finished selection run\<close>

definition BCW_STATE_DIR :: string where "BCW_STATE_DIR = ''/opt/webzapret/state/bcw''"
definition BCW_RUNS_DIR :: string where "BCW_RUNS_DIR = ''/opt/webzapret/state/bcw/runs''"

definition BCW_PROTOCOL_NAMES :: "(string \<times> string) list" where
  "BCW_PROTOCOL_NAMES = [(''http'', ''HTTP''), (''tls12'', ''HTTPS/TLS1.2''), (''tls13'', ''HTTPS/TLS1.3'')]"

datatype bcw_import_result = EngineMissing | NoFinishedRun string | NothingToImport "skipped_row list"
  | CatalogWriteFailed | BcwImported "json dict list" "skipped_row list"

text \<open>An explicit selection: the first domain that has a name, and the rows that are dictionaries with arguments.\<close>

fun first_domain :: "json list \<Rightarrow> json result" where
  "first_domain [] = Inr (JStr [])"
| "first_domain (v # vs) = (case entry_dict v of Inl e \<Rightarrow> Inl e
     | Inr dm \<Rightarrow> if truthy (dget_or dm ''domain'' JNull) then Inr (dget_or dm ''domain'' JNull) else first_domain vs)"

definition clean_row :: "json dict \<Rightarrow> json" where
  "clean_row row = JDict [(''protocol'', JStr (row_protocol row)), (''args'', JStr (py_str (dget_or row ''args'' JNull))),
     (''passes_ok'', dget_or row ''passes_ok'' (JInt 0)), (''passes_total'', dget_or row ''passes_total'' (JInt 0)),
     (''median_share'', dget_or row ''median_share'' JNull),
     (''median_latency_ms'', dget_or row ''median_latency_ms'' (JInt 0)),
     (''success_rate'', dget_or row ''success_rate'' (JFloat (Finite 1))),
     (''admits'', py_or (dget_or row ''admits'' JNull) (JList [])), (''observed'', dget_or row ''observed'' (JStr [])),
     (''working'', JBool True)]"

definition selected_rows :: "json list \<Rightarrow> json list" where
  "selected_rows rows = concat (map (\<lambda>v. case v of
     JDict row \<Rightarrow> if truthy (dget_or row ''args'' JNull) then [clean_row row] else [] | _ \<Rightarrow> []) rows)"

definition with_rows :: "json \<Rightarrow> json dict \<Rightarrow> json dict result" where
  "with_rows rows res = (case rows of JList (v # vs) \<Rightarrow>
       (case get_items res ''domains'' of Inl e \<Rightarrow> Inl e
        | Inr doms \<Rightarrow> (case first_domain doms of Inl e \<Rightarrow> Inl e
          | Inr dv \<Rightarrow> Inr (dset ''domains'' (JList [JDict [(''domain'', py_or dv (JStr ''manual'')),
               (''block_type'', JStr []), (''working'', JList (selected_rows (v # vs)))]]) res)))
     | _ \<Rightarrow> Inr res)"

text \<open>A limit that is no number is ignored; an infinite one raises.\<close>

definition with_limit :: "json \<Rightarrow> json dict \<Rightarrow> json dict result" where
  "with_limit limit settings = (if limit = JNull then Inr settings
     else (case py_int limit of Inr n \<Rightarrow> Inr (dset ''max_import'' (JInt (max 0 (min n 100))) settings)
       | Inl OverflowError \<Rightarrow> Inl OverflowError
       | Inl e \<Rightarrow> Inr settings))"

definition allowed_names :: "json list \<Rightarrow> string list" where
  "allowed_names ps = concat (map (\<lambda>p. case map_of BCW_PROTOCOL_NAMES (lower (strip (py_str p))) of
     None \<Rightarrow> [] | Some n \<Rightarrow> [n]) ps)"

fun in_names :: "string list \<Rightarrow> json \<Rightarrow> bool result" where
  "in_names ns (JStr s) = Inr (s \<in> set ns)"
| "in_names ns (JList xs) = Inl TypeError"
| "in_names ns (JDict d) = Inl TypeError"
| "in_names ns v = Inr False"

fun filter_rows :: "string list \<Rightarrow> json list \<Rightarrow> json list result" where
  "filter_rows ns [] = Inr []"
| "filter_rows ns (v # vs) = (case entry_dict v of Inl e \<Rightarrow> Inl e
     | Inr row \<Rightarrow> (case in_names ns (dget_or row ''protocol'' JNull) of Inl e \<Rightarrow> Inl e
       | Inr keep \<Rightarrow> (case filter_rows ns vs of Inl e \<Rightarrow> Inl e | Inr us \<Rightarrow> Inr (if keep then v # us else us))))"

definition filter_domain :: "string list \<Rightarrow> json \<Rightarrow> json result" where
  "filter_domain ns v = (case entry_dict v of Inl e \<Rightarrow> Inl e
     | Inr dm \<Rightarrow> (case get_items dm ''working'' of Inl e \<Rightarrow> Inl e
       | Inr rows \<Rightarrow> (case filter_rows ns rows of Inl e \<Rightarrow> Inl e
         | Inr rows' \<Rightarrow> Inr (JDict (dset ''working'' (JList rows') dm)))))"

definition with_protocols :: "json \<Rightarrow> json dict \<Rightarrow> json dict result" where
  "with_protocols protocols res = (if \<not> truthy protocols then Inr res
     else (case iter protocols of Inl e \<Rightarrow> Inl e
       | Inr ps \<Rightarrow> (case get_items res ''domains'' of Inl e \<Rightarrow> Inl e
         | Inr doms \<Rightarrow> (case rmap (filter_domain (allowed_names ps)) doms of Inl e \<Rightarrow> Inl e
           | Inr doms' \<Rightarrow> Inr (dset ''domains'' (JList doms') res)))))"

text \<open>
  The rest of \<open>bcw_import\<close>, once a finished run has been read and the local \<open>rows\<close> has a value. A settings
  file that holds no dictionary is outside the model.
\<close>

definition import_finished ::
  "fault \<Rightarrow> (string \<Rightarrow> string option) \<Rightarrow> string \<Rightarrow> json \<Rightarrow> json \<Rightarrow> json \<Rightarrow> json \<Rightarrow> json dict \<Rightarrow> store
    \<Rightarrow> (store \<times> bcw_import_result) result"
where
  "import_finished f environ now run_id protocols limit rows res0 st =
     (case with_rows rows res0 of Inl e \<Rightarrow> Inl e
      | Inr res1 \<Rightarrow> (case load_settings BCW_STATE_DIR environ st of None \<Rightarrow> Inl AttributeError
      | Some (settings0, _, _) \<Rightarrow> (case with_limit limit settings0 of Inl e \<Rightarrow> Inl e
      | Inr settings \<Rightarrow> (case with_protocols protocols res1 of Inl e \<Rightarrow> Inl e
      | Inr res \<Rightarrow> (case strategies st of Inl e \<Rightarrow> Inl e
      | Inr sv \<Rightarrow> (case iter (py_or sv (JList [])) of Inl e \<Rightarrow> Inl e
      | Inr existing \<Rightarrow> (case plan_import res settings existing (py_str (py_or run_id (JStr ''last''))) now of Inl e \<Rightarrow> Inl e
      | Inr (entries, skipped) \<Rightarrow> if entries = [] then Inr (st, NothingToImport skipped)
        else (case py_or (read_json st STRATEGIES_FILE empty_catalog) empty_catalog of
            JDict cat \<Rightarrow> (case merge_catalog cat entries of Inl e \<Rightarrow> Inl e
              | Inr merged \<Rightarrow> (case write_json f STRATEGIES_FILE (JDict merged) st of
                  (st', ok) \<Rightarrow> Inr (st', if ok then BcwImported entries skipped else CatalogWriteFailed)))
          | _ \<Rightarrow> Inl TypeError))))))))"

text \<open>
  \<open>bcw_import\<close>, with the value of its local variable \<open>rows\<close> as an argument (\<open>None\<close>: no value yet).
\<close>

definition bcw_import_rows ::
  "json option \<Rightarrow> fault \<Rightarrow> (string \<Rightarrow> string option) \<Rightarrow> string \<Rightarrow> bool \<Rightarrow> json \<Rightarrow> json \<Rightarrow> json \<Rightarrow> store
    \<Rightarrow> (store \<times> bcw_import_result) result"
where
  "bcw_import_rows rows f environ now ready run_id protocols limit st =
     (if \<not> ready then Inr (st, EngineMissing)
      else (let path = (if truthy run_id then os_join (os_join BCW_RUNS_DIR (py_str run_id)) ''result.json''
              else state_path BCW_STATE_DIR LAST_RUN_FILE)
        in case read_json st path JNull of
             JDict d \<Rightarrow> if \<not> truthy (dget_or d ''ok'' JNull) then Inr (st, NoFinishedRun path)
               else (case rows of None \<Rightarrow> Inl UnboundLocalError
                 | Some rv \<Rightarrow> import_finished f environ now run_id protocols limit rv d st)
           | _ \<Rightarrow> Inr (st, NoFinishedRun path)))"

text \<open>
  The function as it stands: the line \<open>rows = rows if isinstance(rows, list) else None\<close> reads the local
  before it has a value, since the parameter list lacks it; nothing after it is reached.
\<close>

definition bcw_import ::
  "fault \<Rightarrow> (string \<Rightarrow> string option) \<Rightarrow> string \<Rightarrow> bool \<Rightarrow> json \<Rightarrow> json \<Rightarrow> json \<Rightarrow> store
    \<Rightarrow> (store \<times> bcw_import_result) result"
where
  "bcw_import f environ now ready run_id protocols limit st =
     bcw_import_rows None f environ now ready run_id protocols limit st"

text \<open>
  The route calls it with four positional arguments (the run, the protocols, the limit, the rows); the
  function takes three.
\<close>

definition post_bcw_import :: "json \<Rightarrow> bcw_import_result result" where
  "post_bcw_import body = (case body of JDict d \<Rightarrow> Inl TypeError | _ \<Rightarrow> Inl AttributeError)"

section \<open>Lists of entries\<close>

text \<open>A catalog as the program writes it: a dictionary with a list of dictionaries.\<close>

definition catalog_at :: "store \<Rightarrow> json dict \<Rightarrow> json dict list \<Rightarrow> bool" where
  "catalog_at st cat es = (read_json st STRATEGIES_FILE empty_catalog = JDict cat
     \<and> dget cat ''strategies'' = Some (JList (map JDict es)))"

definition json_id :: "json dict \<Rightarrow> json" where
  "json_id e = dget_or e ''id'' JNull"

lemma rmap_entry_dict [simp]: "rmap entry_dict (map JDict es) = Inr es"
  by (induction es) simp_all

lemma without_id_entries [simp]:
  "without_id sid (map JDict es) = Inr (map JDict (filter (\<lambda>e. json_id e \<noteq> sid) es))"
  by (simp add: without_id_def json_id_def)

lemma rmap_ids: "rmap (\<lambda>s. jget_or s ''id'' (JStr [])) (map JDict es) = Inr (map (\<lambda>e. dget_or e ''id'' (JStr [])) es)"
  by (induction es) simp_all

lemma strategy_ids_at:
  "catalog_at st cat es \<Longrightarrow> strategy_ids st = Inr (map (\<lambda>e. dget_or e ''id'' (JStr [])) es)"
  by (auto simp: catalog_at_def strategy_ids_def strategies_def dget_or_def rmap_ids)

lemma catalog_at_written:
  assumes "write_json f STRATEGIES_FILE (JDict (dset ''strategies'' (JList (map JDict es')) cat)) st = (st', True)"
  shows "catalog_at st' (dset ''strategies'' (JList (map JDict es')) cat) es'"
  using write_json_read [OF assms] by (simp add: catalog_at_def)

lemma id_member_filter:
  assumes "sid \<noteq> cur" and "cur \<noteq> []"
  shows "JStr cur \<in> set (map (\<lambda>e. dget_or e ''id'' (JStr [])) (filter (\<lambda>e. json_id e \<noteq> JStr sid) es)) \<longleftrightarrow>
    JStr cur \<in> set (map (\<lambda>e. dget_or e ''id'' (JStr [])) es)"
  using assms by (fastforce simp: json_id_def dget_or_def split: option.splits)

lemma delete_cases:
  assumes cat: "catalog_at (pf_store pf) cat es" and del: "delete_strategy f v pf = Inr (pf', r)"
  obtains (refused) "pf' = pf" "\<forall>sid left. r \<noteq> Deleted sid left"
  | (written) sid act st' ok where "sid = py_str (py_or v (JStr []))" "sid \<noteq> ''none''"
      "JStr sid \<in> set (map (\<lambda>e. dget_or e ''id'' (JStr [])) es)" "active_strategy pf = Inr act" "sid \<noteq> act"
      "write_json f STRATEGIES_FILE (JDict (dset ''strategies'' (JList (map JDict
         (filter (\<lambda>e. json_id e \<noteq> JStr sid) es))) cat)) (pf_store pf) = (st', ok)"
      "pf' = pf\<lparr>pf_store := st'\<rparr>"
      "r = (if ok then Deleted sid (map json_id (filter (\<lambda>e. json_id e \<noteq> JStr sid) es)) else WriteFailed)"
proof -
  let ?sid = "py_str (py_or v (JStr []))"
  note ids = strategy_ids_at [OF cat]
  obtain act where act: "active_strategy pf = Inr act" by (auto simp: active_strategy_def ids Let_def)
  have read: "py_or (read_json (pf_store pf) STRATEGIES_FILE empty_catalog) empty_catalog = JDict cat"
    "dget_or cat ''strategies'' (JList []) = JList (map JDict es)"
    using cat by (auto simp: catalog_at_def py_or_def dget_or_def)
  show ?thesis
  proof (cases "JStr ?sid \<notin> set (map (\<lambda>e. dget_or e ''id'' (JStr [])) es) \<or> ?sid = ''none'' \<or> ?sid = act")
    case True
    with del have "pf' = pf" "\<forall>sid left. r \<noteq> Deleted sid left"
      by (auto simp: delete_strategy_def Let_def ids act split: if_splits)
    then show ?thesis by (rule refused)
  next
    case False
    obtain st' ok where w: "write_json f STRATEGIES_FILE (JDict (dset ''strategies'' (JList (map JDict
        (filter (\<lambda>e. json_id e \<noteq> JStr ?sid) es))) cat)) (pf_store pf) = (st', ok)" by fastforce
    with False del act read ids show ?thesis
      by (intro written [of ?sid act st' ok]) (auto simp: delete_strategy_def Let_def json_id_def comp_def)
  qed
qed

section \<open>A batch of imports\<close>

lemma nth_id_inj: "nth_id base i = nth_id base j \<longleftrightarrow> i = j"
proof -
  have "base \<noteq> numbered base k" for k by (simp add: numbered_def)
  moreover have "numbered base (int i + 1) = numbered base (int j + 1) \<longleftrightarrow> i = j"
    using show_int_inj [of "int i + 1" "int j + 1"] by (auto simp: numbered_def)
  ultimately show ?thesis by (auto simp: nth_id_def dest: sym)
qed

lemma test_entry_id: "test_entry stamp domain sid s = Inr e \<Longrightarrow> json_id e = JStr sid"
  by (auto simp: test_entry_def json_id_def dget_or_def Let_def split: json.splits if_splits sum.splits option.splits)

lemma test_step_entries:
  "test_step stamp domain base (acc, map JDict es) (n, s) = (case test_entry stamp domain (nth_id base n) s of
     Inl e \<Rightarrow> Inl e
   | Inr e \<Rightarrow> Inr (acc @ [e], map JDict (filter (\<lambda>x. json_id x \<noteq> JStr (nth_id base n)) es @ [e])))"
  by (simp add: test_step_def split: sum.split)

text \<open>What a batch does to the catalog: the entries of the same identifiers go, the batch comes last.\<close>

lemma test_batch:
  assumes "rfold (test_step stamp domain base) (acc, map JDict es) (enumerate n ss) = Inr (batch, vs)"
  shows "\<exists>new. batch = acc @ new \<and> map json_id new = map (\<lambda>i. JStr (nth_id base i)) [n..<n + length ss] \<and>
    vs = map JDict (filter (\<lambda>e. json_id e \<notin> set (map json_id new)) es @ new)"
  using assms
proof (induction ss arbitrary: n acc es)
  case Nil
  then show ?case by simp
next
  case (Cons s ss)
  let ?id = "JStr (nth_id base n)"
  from Cons.prems obtain e where e: "test_entry stamp domain (nth_id base n) s = Inr e"
    by (auto simp: test_step_entries rbind_eq_Inr split: sum.splits)
  let ?es = "filter (\<lambda>e. json_id e \<noteq> ?id) es @ [e]"
  have "rfold (test_step stamp domain base) (acc @ [e], map JDict ?es) (enumerate (Suc n) ss) = Inr (batch, vs)"
    using Cons.prems e by (simp add: test_step_entries)
  from Cons.IH [OF this] obtain new where new: "batch = (acc @ [e]) @ new"
    "map json_id new = map (\<lambda>i. JStr (nth_id base i)) [Suc n..<Suc n + length ss]"
    "vs = map JDict (filter (\<lambda>e. json_id e \<notin> set (map json_id new)) ?es @ new)" by blast
  have ide: "json_id e = ?id" by (rule test_entry_id [OF e])
  have "?id \<notin> set (map json_id new)" unfolding new(2) by (auto simp: nth_id_inj)
  with new ide show ?case
    by (intro exI [of _ "e # new"]) (auto simp: upt_conv_Cons filter_filter conj_commute simp del: upt_Suc
        intro!: filter_cong)
qed

lemma batch_ids_distinct:
  "map json_id new = map (\<lambda>i. JStr (nth_id base i)) [n..<m] \<Longrightarrow> distinct (map json_id new)"
  by (simp add: distinct_map inj_on_def nth_id_inj)

text \<open>A finished import, and one that was not written.\<close>

lemma imported_catalog:
  assumes "catalog_at st cat es" and "import_strategy_from_json f now stamp data st = (st', Imported batch)"
  shows "batch \<noteq> []" "distinct (map json_id batch)"
    "\<exists>cat'. catalog_at st' cat' (filter (\<lambda>e. json_id e \<notin> set (map json_id batch)) es @ batch)"
    "\<forall>e\<in>set batch. \<exists>i. json_id e = JStr i"
proof -
  from assms(2) obtain d newcat where d: "plan_tests now stamp d st = Inr (Some (batch, newcat))"
    "write_json f STRATEGIES_FILE (JDict newcat) st = (st', True)"
    by (auto simp: import_strategy_from_json_def split: json.splits sum.splits option.splits prod.splits if_splits)
  from d(1) assms(1) obtain vs keyed domain base new where s:
    "truthy (dget_or d ''strategies'' (JList []))" "iter (dget_or d ''strategies'' (JList [])) = Inr vs"
    "rmap keyed_test vs = Inr keyed"
    "rfold (test_step stamp domain base) ([], map JDict es) (enumerate 0 (map snd (rank_tests keyed))) = Inr (batch, new)"
    "newcat = dset ''strategies'' (JList new) cat"
    by (auto simp: plan_tests_def Let_def catalog_at_def dget_or_def split: if_splits sum.splits)
  from test_batch [OF s(4)] have b:
    "map json_id batch = map (\<lambda>i. JStr (nth_id base i)) [0..<0 + length (map snd (rank_tests keyed))]"
    "new = map JDict (filter (\<lambda>e. json_id e \<notin> set (map json_id batch)) es @ batch)"
    unfolding append_Nil by blast+
  have "vs \<noteq> []" using s(1,2) by (cases "dget_or d ''strategies'' (JList [])") auto
  then have "keyed \<noteq> []" using s(3) by (auto simp: rmap_eq_Inr)
  then have "length (rank_tests keyed) \<noteq> 0" by (simp add: tests_best_first.ranked_length)
  then show "batch \<noteq> []" using b(1) by auto
  show "distinct (map json_id batch)" by (rule batch_ids_distinct [OF b(1)])
  have "set (map json_id batch) \<subseteq> range JStr" unfolding b(1) by auto
  then show "\<forall>e\<in>set batch. \<exists>i. json_id e = JStr i" by auto
  have "catalog_at st' newcat (filter (\<lambda>e. json_id e \<notin> set (map json_id batch)) es @ batch)"
    using d(2) unfolding s(5) b(2) by (rule catalog_at_written)
  then show "\<exists>cat'. catalog_at st' cat' (filter (\<lambda>e. json_id e \<notin> set (map json_id batch)) es @ batch)" ..
qed

lemma not_imported_unchanged:
  assumes "import_strategy_from_json f now stamp data st = (st', r)" and "\<nexists>batch. r = Imported batch"
  shows "st' STRATEGIES_FILE = st STRATEGIES_FILE"
  using assms by (auto simp: import_strategy_from_json_def dest: write_json_target
      split: json.splits sum.splits option.splits prod.splits if_splits)

section \<open>Properties\<close>

text \<open>
  Property C17. Deleting a strategy removes exactly its entry and never the built-in or the active one: on
  success the identifier was in the catalog, is neither \<open>none\<close> nor the active strategy, the catalog that
  is left is the old one without that identifier, in the same order, and the active strategy is still
  the same. In every other case the catalog file is unchanged.
\<close>

theorem delete_strategy_safe:
  assumes "catalog_at (pf_store pf) cat es" and "delete_strategy f v pf = Inr (pf', r)"
  shows "(case r of Deleted sid left \<Rightarrow>
      JStr sid \<in> set (map (\<lambda>e. dget_or e ''id'' (JStr [])) es) \<and> sid \<noteq> ''none'' \<and> active_strategy pf \<noteq> Inr sid \<and>
      (\<exists>cat'. catalog_at (pf_store pf') cat' (filter (\<lambda>e. json_id e \<noteq> JStr sid) es)) \<and>
      active_strategy pf' = active_strategy pf
    | _ \<Rightarrow> pf_store pf' STRATEGIES_FILE = pf_store pf STRATEGIES_FILE)"
  using assms
proof (cases rule: delete_cases)
  case refused
  then show ?thesis by (cases r) auto
next
  case (written sid act st' ok)
  show ?thesis
  proof (cases ok)
    case False
    with written write_json_target [OF written(6)] show ?thesis by simp
  next
    case True
    let ?left = "filter (\<lambda>e. json_id e \<noteq> JStr sid) es"
    have cat': "catalog_at st' (dset ''strategies'' (JList (map JDict ?left)) cat) ?left"
      by (rule catalog_at_written) (use written(6) True in simp)
    let ?cur = "state_get pf ''strategy'' ''standard''"
    have act: "act = (if JStr ?cur \<in> set (map (\<lambda>e. dget_or e ''id'' (JStr [])) es) then ?cur else [])"
      using written(4) by (simp add: active_strategy_def strategy_ids_at [OF assms(1)] Let_def split: if_splits)
    have act': "active_strategy pf' = Inr (if JStr ?cur \<in> set (map (\<lambda>e. dget_or e ''id'' (JStr [])) ?left) then ?cur else [])"
      using written(7) by (simp add: active_strategy_def strategy_ids_at [OF cat'] Let_def state_get_def)
    have "active_strategy pf' = active_strategy pf"
    proof (cases "?cur = [] \<or> JStr ?cur \<notin> set (map (\<lambda>e. dget_or e ''id'' (JStr [])) es)")
      case True
      with act act' written(4) show ?thesis by (auto split: if_splits)
    next
      case False
      then have "sid \<noteq> ?cur" using act written(5) by auto
      with False id_member_filter [of sid ?cur es] act act' written(4) show ?thesis by simp
    qed
    with written True cat' show ?thesis by auto
  qed
qed

definition sample_catalog :: "json dict list \<Rightarrow> panel_files" where
  "sample_catalog es = \<lparr>pf_store = (\<lambda>_. None)(STRATEGIES_FILE \<mapsto> Json (JDict [(''strategies'', JList (map JDict es))])),
     pf_state = (\<lambda>_. None)\<rparr>"

lemma sample_catalog_at: "catalog_at (pf_store (sample_catalog es)) [(''strategies'', JList (map JDict es))] es"
  by (simp add: sample_catalog_def catalog_at_def read_json_def)

theorem delete_strategy_safe_witness:
  "\<exists>pf' cat'. delete_strategy NoFault (JStr ''b'')
      (sample_catalog [[(''id'', JStr ''standard'')], [(''id'', JStr ''b'')]]) = Inr (pf', Deleted ''b'' [JStr ''standard'']) \<and>
    catalog_at (pf_store pf') cat' [[(''id'', JStr ''standard'')]] \<and> active_strategy pf' = Inr ''standard''"
proof -
  let ?pf = "sample_catalog [[(''id'', JStr ''standard'')], [(''id'', JStr ''b'')]]"
  have "(case delete_strategy NoFault (JStr ''b'') ?pf of Inr (pf', r) \<Rightarrow> r = Deleted ''b'' [JStr ''standard''] | _ \<Rightarrow> False)"
    by code_simp
  then obtain pf' where del: "delete_strategy NoFault (JStr ''b'') ?pf = Inr (pf', Deleted ''b'' [JStr ''standard''])"
    by (auto split: sum.splits)
  have act: "active_strategy ?pf = Inr ''standard''" by code_simp
  from delete_strategy_safe [OF sample_catalog_at del] del act show ?thesis by (auto simp: json_id_def dget_or_def)
qed

text \<open>
  Property C18. The import of a test result is all or nothing. On success the batch is not empty, has
  pairwise different identifiers, and the catalog is the old one, less the entries that had one of
  these identifiers, followed by the batch; so a catalog without repeated identifiers stays one. In
  every other case, whatever the uploaded data is, the catalog file is unchanged.
\<close>

theorem import_tests_all_or_nothing:
  assumes "catalog_at st cat es" and "import_strategy_from_json f now stamp data st = (st', r)"
  shows "(case r of Imported batch \<Rightarrow> batch \<noteq> [] \<and> distinct (map json_id batch) \<and>
      (\<exists>cat'. catalog_at st' cat' (filter (\<lambda>e. json_id e \<notin> set (map json_id batch)) es @ batch)) \<and>
      (distinct (map json_id es) \<longrightarrow>
        distinct (map json_id (filter (\<lambda>e. json_id e \<notin> set (map json_id batch)) es @ batch)))
    | _ \<Rightarrow> st' STRATEGIES_FILE = st STRATEGIES_FILE)"
proof (cases r)
  case (Imported batch)
  from imported_catalog [OF assms(1) assms(2) [unfolded this]] Imported show ?thesis
    by (auto simp: distinct_map_filter)
qed (use not_imported_unchanged [OF assms(2)] in auto)

definition sample_test :: json where
  "sample_test = JDict [(''domain'', JStr ''X.com''), (''timestamp'', JStr ''2024-05-06T00''), (''strategies'', JList
     [JDict [(''args'', JStr ''--a''), (''success_rate'', JFloat (Finite (1/2)))],
      JDict [(''args'', JStr ''--b''), (''success_rate'', JInt 1)]])]"

theorem import_tests_all_or_nothing_witness:
  "\<exists>st' batch. import_strategy_from_json NoFault 0 ''t'' sample_test
      (pf_store (sample_catalog [[(''id'', JStr ''custom_xcom_20240506'')], [(''id'', JStr ''b'')]])) = (st', Imported batch) \<and>
    map json_id batch = [JStr ''custom_xcom_20240506'', JStr ''custom_xcom_20240506_2''] \<and> distinct (map json_id batch)"
proof -
  let ?st = "pf_store (sample_catalog [[(''id'', JStr ''custom_xcom_20240506'')], [(''id'', JStr ''b'')]])"
  have "(case snd (import_strategy_from_json NoFault 0 ''t'' sample_test ?st) of Imported batch \<Rightarrow>
      map json_id batch = [JStr ''custom_xcom_20240506'', JStr ''custom_xcom_20240506_2''] | _ \<Rightarrow> False)"
    by code_simp
  then obtain st' batch where imp: "import_strategy_from_json NoFault 0 ''t'' sample_test ?st = (st', Imported batch)"
    and ids: "map json_id batch = [JStr ''custom_xcom_20240506'', JStr ''custom_xcom_20240506_2'']"
    by (cases "import_strategy_from_json NoFault 0 ''t'' sample_test ?st") (auto split: import_result.splits)
  from import_tests_all_or_nothing [OF sample_catalog_at imp] imp ids show ?thesis by auto
qed

text \<open>
  The import of a finished selection run never imports: whenever there is a finished run to
  import from, the function raises before it reads a single row, the catalog is never written, and the
  route raises on every body. Given a value for the missing local, it would merge: an import that
  succeeds leaves the catalog with the old entries whose identifiers are not new, followed by the
  planned ones.
\<close>

theorem bcw_import_never_imports:
  assumes "read_json st (if truthy run_id then os_join (os_join BCW_RUNS_DIR (py_str run_id)) ''result.json''
      else state_path BCW_STATE_DIR LAST_RUN_FILE) JNull = JDict d" and "truthy (dget_or d ''ok'' JNull)"
    and "catalog_at st cat es"
  shows "bcw_import f environ now True run_id protocols limit st = Inl UnboundLocalError \<and>
    (\<exists>e. post_bcw_import body = Inl e) \<and>
    (\<forall>rv st' entries skipped.
      bcw_import_rows (Some rv) f environ now True run_id protocols limit st = Inr (st', BcwImported entries skipped) \<longrightarrow>
      (\<exists>cat'. catalog_at st' cat' (filter (\<lambda>e. entry_id e \<notin> set (map entry_id entries)) es @ entries)))"
proof -
  have read: "py_or (read_json st STRATEGIES_FILE empty_catalog) empty_catalog = JDict cat"
    "dget_or cat ''strategies'' (JList []) = JList (map JDict es)"
    using assms(3) by (auto simp: catalog_at_def py_or_def dget_or_def)
  have "\<exists>cat'. catalog_at st' cat' (filter (\<lambda>e. entry_id e \<notin> set (map entry_id entries)) es @ entries)"
    if imp: "bcw_import_rows (Some rv) f environ now True run_id protocols limit st = Inr (st', BcwImported entries skipped)"
    for rv st' entries skipped
  proof -
    from imp assms(1,2) have "import_finished f environ now run_id protocols limit rv d st = Inr (st', BcwImported entries skipped)"
      by (simp add: bcw_import_rows_def Let_def)
    then obtain merged ok where m: "merge_catalog cat entries = Inr merged"
      "write_json f STRATEGIES_FILE (JDict merged) st = (st', True)"
      unfolding import_finished_def read
      by (auto split: sum.splits option.splits prod.splits if_splits)
    from m(1) have "merged = dset ''strategies'' (JList (map JDict
        (filter (\<lambda>e. entry_id e \<notin> set (map entry_id entries)) es @ entries))) cat"
      by (simp add: merge_catalog_def read)
    with m(2) show ?thesis using catalog_at_written by blast
  qed
  with assms(1,2) show ?thesis
    by (cases body) (auto simp: bcw_import_def bcw_import_rows_def post_bcw_import_def Let_def)
qed

theorem bcw_import_never_imports_witness:
  "bcw_import NoFault (\<lambda>_. None) ''t'' True JNull JNull JNull
     ((pf_store (sample_catalog []))(state_path BCW_STATE_DIR LAST_RUN_FILE \<mapsto> Json (JDict [(''ok'', JBool True)])))
    = Inl UnboundLocalError"
proof -
  let ?st = "(pf_store (sample_catalog []))(state_path BCW_STATE_DIR LAST_RUN_FILE \<mapsto> Json (JDict [(''ok'', JBool True)]))"
  have "STRATEGIES_FILE \<noteq> state_path BCW_STATE_DIR LAST_RUN_FILE" by code_simp
  then have "catalog_at ?st [(''strategies'', JList (map JDict []))] []"
    using sample_catalog_at [of "[]"] by (simp add: catalog_at_def read_json_def)
  from bcw_import_never_imports [OF _ _ this, of JNull "[(''ok'', JBool True)]"] show ?thesis
    by (simp add: read_json_def dget_or_def)
qed

end
