(* ===== verification/Pipeline.thy ===== *)
theory Pipeline
  imports Runner PanelCatalog
begin

text \<open>
  The selection as a whole: what a run accepts is what its result file says, what an import plans from
  that result, and what the renderer of \<^verbatim>\<open>strategy.py\<close> hands to the engine.
\<close>

section \<open>Where an entry comes from\<close>

text \<open>A working row of the given domains whose arguments, once validated, are those of the entry.\<close>

definition from_row :: "json list \<Rightarrow> json dict \<Rightarrow> bool" where
  "from_row doms e = (\<exists>dm rows row. JDict dm \<in> set doms \<and> get_items dm ''working'' = Inr rows \<and>
     JDict row \<in> set rows \<and> validate_value (dget_or row ''args'' (JStr [])) = Inr (entry_opt e))"

lemma import_row_from:
  assumes "import_row cfg dm st v = Inr st'" and "JDict dm \<in> set doms" "get_items dm ''working'' = Inr rows" "v \<in> set rows"
    and "list_all (from_row doms) (im_entries st)"
  shows "list_all (from_row doms) (im_entries st')"
  using assms(1)
proof (cases rule: import_row_cases)
  case (skipped w)
  with assms(5) show ?thesis by simp
next
  case (imported row args p e)
  with assms(2-4) have "from_row doms e" unfolding from_row_def by blast
  with imported assms(5) show ?thesis by simp
qed

lemma import_domain_from:
  assumes "import_domain cfg st v = Inr st'" and "v \<in> set doms" and "list_all (from_row doms) (im_entries st)"
  shows "list_all (from_row doms) (im_entries st')"
proof -
  from assms(1) obtain dm rows where v: "v = JDict dm" "get_items dm ''working'' = Inr rows"
    "rfold (import_row cfg dm) st rows = Inr st'"
    by (cases v) (auto simp: import_domain_def split: sum.splits)
  from v(3) show ?thesis
    by (rule rfold_inv [where P = "\<lambda>s. list_all (from_row doms) (im_entries s)"])
      (use assms(2,3) v(1,2) import_row_from in auto)
qed

lemma plan_import_from:
  assumes "plan_import res settings existing run_id now = Inr (entries, skipped)" and "get_items res ''domains'' = Inr doms"
  shows "list_all (from_row doms) entries"
proof -
  obtain cfg es doms' st where st: "get_items res ''domains'' = Inr doms'"
    "rfold (import_domain cfg) (import_start es) doms' = Inr st" "entries = im_entries st"
    using assms(1) by (rule plan_import_cases)
  from st(2) have "list_all (from_row doms) (im_entries st)"
    by (rule rfold_inv [where P = "\<lambda>s. list_all (from_row doms) (im_entries s)"])
      (use assms(2) st(1) import_domain_from in \<open>auto simp: import_start_def\<close>)
  with st(3) show ?thesis by simp
qed

section \<open>The result of a run, read back\<close>

lemma get_items_list: "dget_or d k JNull = JList xs \<Longrightarrow> get_items d k = Inr xs"
  by (cases xs) (simp_all add: get_items_def py_or_def)

lemma result_domains: "get_items (result_json res) ''domains'' = Inr (map (\<lambda>d. JDict (domain_json d)) (rr_domains res))"
  by (rule get_items_list) (simp add: result_json_def dget_or_def)

lemma domain_working: "get_items (domain_json d) ''working'' = Inr (map (\<lambda>r. JDict (check_row_json r)) (dr_working d))"
  by (rule get_items_list) (simp add: domain_json_def dget_or_def)

lemma row_args: "dget_or (check_row_json r) k v = (if k = ''args'' then JStr (cr_args r) else dget_or (check_row_json r) k v)"
  by (simp add: check_row_json_def dget_or_def)

lemma validate_value_text: "validate_value (JStr t) = Inr out \<Longrightarrow> validate_args t = Inr out"
  by (cases t) (simp_all add: validate_value_def py_or_def)

lemma from_row_result:
  assumes "from_row (map (\<lambda>d. JDict (domain_json d)) ds) e"
  shows "\<exists>d\<in>set ds. \<exists>r\<in>set (dr_working d). validate_args (cr_args r) = Inr (entry_opt e)"
proof -
  from assms obtain d rows row where d: "d \<in> set ds" "get_items (domain_json d) ''working'' = Inr rows"
    "JDict row \<in> set rows" "validate_value (dget_or row ''args'' (JStr [])) = Inr (entry_opt e)"
    unfolding from_row_def by auto
  from d(2,3) obtain r where "r \<in> set (dr_working d)" "row = check_row_json r" unfolding domain_working by auto
  moreover have "dget_or (check_row_json r) ''args'' (JStr []) = JStr (cr_args r)"
    by (simp add: check_row_json_def dget_or_def)
  ultimately show ?thesis using d(1,4) validate_value_text by metis
qed

section \<open>Properties\<close>

text \<open>
  Property C22. Only what a run accepted is ever planned for import: the result file of a run reads back as
  the run's result, and every entry planned from it carries the validated arguments of a row that
  some check of the run measured as working and that has nothing against it under the run's settings.
\<close>

theorem import_only_accepted:
  assumes "run eng loads dirs_ok log_ok NoFault settings run_dir w = Inr (res, w')"
    and "read_json (rw_store w') (os_join run_dir ''result.json'') JNull = JDict d"
    and "plan_import d isettings existing run_id now = Inr (entries, skipped)"
  shows "list_all (\<lambda>e. \<exists>dm\<in>set (rr_domains res). \<exists>r\<in>set (dr_working dm). validate_args (cr_args r) = Inr (entry_opt e) \<and>
    cr_working r \<and> filter_reason settings r = Inr None) entries"
proof -
  from assms(1) have "read_json (rw_store w') (os_join run_dir ''result.json'') JNull = JDict (result_json res)"
    by (rule run_cases) simp
  with assms(2) have "d = result_json res" by simp
  with plan_import_from [OF assms(3)] result_domains
  have "list_all (from_row (map (\<lambda>d. JDict (domain_json d)) (rr_domains res))) entries" by simp
  moreover have "list_all (sound_domain settings) (rr_domains res)" using run_sound [OF assms(1)] by blast
  ultimately show ?thesis unfolding list_all_iff sound_domain_def by (blast dest: from_row_result)
qed

theorem import_only_accepted_witness:
  "\<exists>res w' d entries skipped. run sample_engine (\<lambda>_. None) True True NoFault sample_settings ''/r'' sample_world = Inr (res, w') \<and>
    read_json (rw_store w') ''/r/result.json'' JNull = JDict d \<and>
    plan_import d [] [] ''last'' ''t'' = Inr (entries, skipped) \<and> map entry_opt entries = [''--x''] \<and>
    list_all (\<lambda>e. \<exists>dm\<in>set (rr_domains res). \<exists>r\<in>set (dr_working dm). validate_args (cr_args r) = Inr (entry_opt e)) entries"
proof -
  have run: "(case run sample_engine (\<lambda>_. None) True True NoFault sample_settings ''/r'' sample_world of Inl e \<Rightarrow> False
      | Inr (res, w') \<Rightarrow> (case read_json (rw_store w') ''/r/result.json'' JNull of JDict d \<Rightarrow>
          (case plan_import d [] [] ''last'' ''t'' of Inl e \<Rightarrow> False
           | Inr (entries, skipped) \<Rightarrow> map entry_opt entries = [''--x'']) | _ \<Rightarrow> False))"
    by code_simp
  have path: "os_join ''/r'' ''result.json'' = ''/r/result.json''" by code_simp
  obtain res w' where r: "run sample_engine (\<lambda>_. None) True True NoFault sample_settings ''/r'' sample_world = Inr (res, w')"
    using run by (auto split: sum.splits)
  then obtain d where d: "read_json (rw_store w') ''/r/result.json'' JNull = JDict d"
    using run by (auto split: json.splits)
  then obtain entries skipped where i: "plan_import d [] [] ''last'' ''t'' = Inr (entries, skipped)" "map entry_opt entries = [''--x'']"
    using run r by (auto split: sum.splits)
  have "list_all (\<lambda>e. \<exists>dm\<in>set (rr_domains res). \<exists>r\<in>set (dr_working dm). validate_args (cr_args r) = Inr (entry_opt e) \<and>
      cr_working r \<and> filter_reason sample_settings r = Inr None) entries"
    by (rule import_only_accepted [OF r _ i(1)]) (simp add: path d)
  then have "list_all (\<lambda>e. \<exists>dm\<in>set (rr_domains res). \<exists>r\<in>set (dr_working dm). validate_args (cr_args r) = Inr (entry_opt e)) entries"
    by (rule list.pred_mono_strong) blast
  with r d i show ?thesis by (intro exI conjI)
qed

end
