(* ===== verification/Logs.thy ===== *)
theory Logs
  imports Lines Prelude StateFiles LocalClock "HOL-Library.Product_Lexorder" "HOL-Library.List_Lexorder"
begin

text \<open>
  \<^verbatim>\<open>src/panel/panel.py\<close>, the logs: the merged, time-ordered view of all module logs, its export, the tail of
  one log, and the route that reads them. The files are given as a map from module names.
\<close>

section \<open>Reading one log\<close>

definition LOG_MODULES :: "string list" where
  "LOG_MODULES = [''actions'', ''ss-server'', ''sockd'', ''nfqws'', ''redsocks'', ''ss-local'', ''udprelay'', ''panel'',
     ''test'', ''bcw'']"

definition WZ_LOG :: string where "WZ_LOG = ''/var/log/webzapret''"

definition LOG_EXPORT_MAX_BYTES :: int where "LOG_EXPORT_MAX_BYTES = 8 * 1024 * 1024"

type_synonym log_files = "string \<Rightarrow> log_file"

text \<open>\<open>_read_file_lines\<close>; \<open>None\<close> when there is no file.\<close>

definition read_file_lines :: "log_files \<Rightarrow> string \<Rightarrow> int \<Rightarrow> string list option" where
  "read_file_lines files path max_bytes = (case files path of NoFile \<Rightarrow> None
     | Unreadable msg \<Rightarrow> Some [''(log read error: '' @ msg @ '')'']
     | LogText t \<Rightarrow> Some (tail_lines max_bytes t))"

text \<open>\<^verbatim>\<open>^\[(\d{4}-\d{2}-\d{2}T\d{2}:\d{2}:\d{2}Z)\]\<close>, with \<open>d\<close> for a digit.\<close>

definition stamp_shape :: "string \<Rightarrow> bool" where
  "stamp_shape t = list_all2 (\<lambda>p c. if p = CHR ''d'' then is_digit c else c = p) ''dddd-dd-ddTdd:dd:ddZ'' t"

definition stamp_of :: "string \<Rightarrow> string option" where
  "stamp_of line = (if startswith line ''['' \<and> stamp_shape (take 20 (drop 1 line)) \<and> startswith (drop 21 line) '']''
     then Some (take 20 (drop 1 line)) else None)"

section \<open>The merged view\<close>

record log_entry =
  le_ts :: string
  le_rank :: nat
  le_seq :: nat
  le_text :: string

definition tag_prefix :: "string \<Rightarrow> string" where
  "tag_prefix m = (if m = ''actions'' then [] else ''['' @ m @ ''] '')"

text \<open>The lines of one module; a line without a stamp inherits the last one of its file.\<close>

fun module_entries :: "nat \<Rightarrow> string \<Rightarrow> string \<Rightarrow> nat \<Rightarrow> string list \<Rightarrow> log_entry list" where
  "module_entries rank m last_ts seq [] = []"
| "module_entries rank m last_ts seq (row # rows) =
     (let ts = (case stamp_of row of None \<Rightarrow> last_ts | Some t \<Rightarrow> t) in
       \<lparr>le_ts = ts, le_rank = rank, le_seq = seq, le_text = tag_prefix m @ row\<rparr>
         # module_entries rank m ts (Suc seq) rows)"

definition log_path :: "string \<Rightarrow> string" where
  "log_path m = os_join WZ_LOG (m @ ''.log'')"

definition entries_of :: "log_files \<Rightarrow> (string \<Rightarrow> int) \<Rightarrow> nat \<times> string \<Rightarrow> log_entry list" where
  "entries_of files tail_bytes x = (case read_file_lines files (log_path (snd x)) (tail_bytes (snd x)) of
       None \<Rightarrow> [] | Some rows \<Rightarrow> module_entries (fst x) (snd x) [] 0 rows)"

definition entry_key :: "log_entry \<Rightarrow> string \<times> nat \<times> nat" where
  "entry_key e = (le_ts e, le_rank e, le_seq e)"

definition sort_entries :: "log_entry list \<Rightarrow> log_entry list" where
  "sort_entries es = sort_key entry_key es"

definition collected_entries :: "log_files \<Rightarrow> (string \<Rightarrow> int) \<Rightarrow> log_entry list" where
  "collected_entries files tail_bytes =
     sort_entries (concat (map (entries_of files tail_bytes) (enumerate 0 LOG_MODULES)))"

interpretation log_order: ranking entry_key sort_entries
  by unfold_locales (rule sort_entries_def)

definition merged_log :: "log_files \<Rightarrow> int \<Rightarrow> string" where
  "merged_log files n = (let es = collected_entries files (\<lambda>m. if m = ''actions'' then 256 * 1024 else 64 * 1024)
     in if es = [] then ''(no log entries available across modules)'' @ [LF]
        else join [LF] (map le_text (last_n n es)) @ [LF])"

text \<open>The export; the dash in the second line of the header is U+2014 in the code. \<open>fsize\<close> is \<open>getsize\<close>.\<close>

definition ljust :: "nat \<Rightarrow> string \<Rightarrow> string" where
  "ljust k s = s @ replicate (k - length s) CHR '' ''"

definition rule_line :: string where
  "rule_line = ''# ================================================================''"

definition export_header :: "(string \<Rightarrow> int option) \<Rightarrow> int \<Rightarrow> string list" where
  "export_header fsize now = [rule_line,
     ''# web_zapret2 - connection log export (all modules, one file)'',
     ''# generated: '' @ utc_stamp now,
     ''# modules:   '' @ join '' '' LOG_MODULES,
     ''# fetch:     GET /api/logs/export  (HTTP Basic auth if enabled)'', rule_line]
     @ map (\<lambda>m. ''# '' @ ljust 10 m @ '' '' @ (case fsize (log_path m) of None \<Rightarrow> ''n/a'' | Some k \<Rightarrow> show_int k) @ '' bytes'')
         LOG_MODULES
     @ [rule_line]"

definition export_logs :: "log_files \<Rightarrow> (string \<Rightarrow> int option) \<Rightarrow> int \<Rightarrow> string" where
  "export_logs files fsize now = (let lines = map le_text (collected_entries files (\<lambda>m. LOG_EXPORT_MAX_BYTES));
       lines' = (if lines = [] then [''(no log entries available across modules)''] else lines)
     in join [LF] (export_header fsize now @ lines') @ [LF])"

section \<open>The tail of one log, and the route\<close>

definition source_char :: "char \<Rightarrow> bool" where
  "source_char c = (is_lower_az c \<or> is_digit c \<or> c = CHR ''_'' \<or> c = CHR ''-'')"

definition valid_source :: "string \<Rightarrow> bool" where
  "valid_source s = (s \<noteq> [] \<and> length s \<le> 64 \<and> list_all source_char s)"

definition tail_log :: "log_files \<Rightarrow> string \<Rightarrow> int \<Rightarrow> string" where
  "tail_log files src n0 = (let n = max 1 (min n0 5000) in
     if \<not> valid_source src then ''(bad log source)''
     else if src = ''all'' then merged_log files n
     else (case read_file_lines files (log_path src) (256 * 1024) of
         None \<Rightarrow> ''(no log for '' @ src @ '')'' @ [LF]
       | Some rows \<Rightarrow> join [LF] (last_n n rows) @ [LF]))"

text \<open>
  \<open>dict(pair.split("=", 1) for pair in query.split("&") if "=" in pair)\<close>; a path without a query has no
  second part.
\<close>

definition parse_query :: "string \<Rightarrow> string dict" where
  "parse_query q = foldl (\<lambda>d pair. dset (before CHR ''='' pair) (after CHR ''='' pair) d) []
     (filter (\<lambda>pair. CHR ''='' \<in> set pair) (split_on CHR ''&'' q))"

definition logs_route :: "log_files \<Rightarrow> string \<Rightarrow> (string \<times> string) result" where
  "logs_route files path = (if CHR ''?'' \<notin> set path then Inl IndexError
     else (let q = parse_query (after CHR ''?'' path); src = dget_or q ''src'' ''all'';
           nt = dget_or q ''n'' ''200'';
           n = (case int_of_text (if nt = [] then ''200'' else nt) of None \<Rightarrow> 200 | Some k \<Rightarrow> k)
         in Inr (src, tail_log files src n)))"

section \<open>Facts\<close>

lemma module_entries_rank: "e \<in> set (module_entries r m ts k rows) \<Longrightarrow> le_rank e = r"
  by (induction r m ts k rows rule: module_entries.induct) (auto simp: Let_def)

lemma module_entries_text: "map le_text (module_entries r m ts k rows) = map (\<lambda>row. tag_prefix m @ row) rows"
  by (induction r m ts k rows rule: module_entries.induct) (auto simp: Let_def)

lemma module_entries_seq: "map le_seq (module_entries r m ts k rows) = [k..<k + length rows]"
  by (induction r m ts k rows rule: module_entries.induct) (auto simp: Let_def upt_conv_Cons simp del: upt_Suc)

lemma entries_of_rank: "e \<in> set (entries_of files b x) \<Longrightarrow> le_rank e = fst x"
  by (auto simp: entries_of_def dest: module_entries_rank split: option.splits)

lemma filter_rank_entries:
  "filter (\<lambda>e. le_rank e = r) (entries_of files b x) = (if fst x = r then entries_of files b x else [])"
  by (auto simp: filter_empty_conv dest: entries_of_rank intro!: filter_True)

lemma filter_rank_concat:
  "distinct (map fst xs) \<Longrightarrow> (r, m) \<in> set xs \<Longrightarrow>
     filter (\<lambda>e. le_rank e = r) (concat (map (entries_of files b) xs)) = entries_of files b (r, m)"
proof (induction xs)
  case (Cons x xs)
  show ?case
  proof (cases "x = (r, m)")
    case True
    with Cons.prems have "\<forall>y\<in>set xs. fst y \<noteq> r" by force
    then have "filter (\<lambda>e. le_rank e = r) (concat (map (entries_of files b) xs)) = []"
      by (fastforce simp: filter_empty_conv dest: entries_of_rank)
    with True show ?thesis by (simp add: filter_rank_entries)
  next
    case False
    with Cons.prems(2) have rm: "(r, m) \<in> set xs" by auto
    with Cons.prems(1) have "fst x \<noteq> r" by (auto simp: rev_image_eqI)
    with Cons rm False show ?thesis by (simp add: filter_rank_entries)
  qed
qed simp

text \<open>The stamps of a module never decrease: then its entries stand in the order of their keys.\<close>

lemma module_entries_sorted:
  "sorted (map le_ts (module_entries r m ts k rows)) \<Longrightarrow> sorted (map entry_key (module_entries r m ts k rows))"
proof (induction r m ts k rows rule: module_entries.induct)
  case (2 r m ts k row rows)
  let ?ts = "case stamp_of row of None \<Rightarrow> ts | Some t \<Rightarrow> t"
  have seq: "\<forall>e\<in>set (module_entries r m ?ts (Suc k) rows). Suc k \<le> le_seq e"
    using arg_cong [OF module_entries_seq [of r m ?ts "Suc k" rows], of set] by force
  have rank: "\<forall>e\<in>set (module_entries r m ?ts (Suc k) rows). le_rank e = r" by (auto dest: module_entries_rank)
  from "2.prems" have ts: "\<forall>e\<in>set (module_entries r m ?ts (Suc k) rows). ?ts \<le> le_ts e"
    and sorted: "sorted (map le_ts (module_entries r m ?ts (Suc k) rows))" by (auto simp: Let_def)
  have "(?ts, r, k) \<le> entry_key e" if e: "e \<in> set (module_entries r m ?ts (Suc k) rows)" for e
    using bspec [OF seq e] bspec [OF rank e] bspec [OF ts e] by (auto simp: entry_key_def less_eq_prod_def le_less)
  with "2.IH" [OF refl sorted] show ?case by (auto simp: Let_def entry_key_def)
qed simp

text \<open>A stamp and a stamped line, without reference to the pattern, and the stamp that a line has or inherits.\<close>

definition iso_stamp :: "string \<Rightarrow> bool" where
  "iso_stamp t = (length t = 20 \<and> (\<forall>i<20. if i \<in> {4, 7} then t ! i = CHR ''-'' else if i = 10 then t ! i = CHR ''T''
     else if i \<in> {13, 16} then t ! i = CHR '':'' else if i = 19 then t ! i = CHR ''Z'' else is_digit (t ! i)))"

definition stamped :: "string \<Rightarrow> string \<Rightarrow> bool" where
  "stamped t row = (iso_stamp t \<and> (\<exists>more. row = ''['' @ t @ '']'' @ more))"

definition inherits :: "string \<Rightarrow> string list \<Rightarrow> nat \<Rightarrow> string \<Rightarrow> bool" where
  "inherits ts rows i t =
     ((\<exists>j\<le>i. stamped t (rows ! j) \<and> (\<forall>k. j < k \<and> k \<le> i \<longrightarrow> (\<nexists>u. stamped u (rows ! k)))) \<or>
      (t = ts \<and> (\<forall>k\<le>i. \<nexists>u. stamped u (rows ! k))))"

lemma less_20: "(\<forall>i<20::nat. P i) \<longleftrightarrow> list_all P [0,1,2,3,4,5,6,7,8,9,10,11,12,13,14,15,16,17,18,19]"
proof -
  have "(\<forall>i<20. P i) \<longleftrightarrow> list_all P [0..<20]" by (auto simp: list_all_iff)
  also have "[0..<20::nat] = [0,1,2,3,4,5,6,7,8,9,10,11,12,13,14,15,16,17,18,19]" by code_simp
  finally show ?thesis .
qed

lemma stamp_shape_iff: "stamp_shape t \<longleftrightarrow> iso_stamp t"
proof -
  have "length ''dddd-dd-ddTdd:dd:ddZ'' = 20" by simp
  then show ?thesis
    unfolding stamp_shape_def iso_stamp_def list_all2_conv_all_nth by (simp only: less_20) (auto simp: is_digit_def)
qed

lemma iso_stamp_length: "iso_stamp t \<Longrightarrow> length t = 20"
  by (auto simp: iso_stamp_def)

lemma stamp_of_iff: "stamp_of row = Some t \<longleftrightarrow> stamped t row"
proof
  assume "stamp_of row = Some t"
  then have *: "startswith row ''[''" "iso_stamp (take 20 (drop 1 row))" "startswith (drop 21 row) '']''" "t = take 20 (drop 1 row)"
    by (auto simp: stamp_of_def stamp_shape_iff split: if_splits)
  from *(1) obtain row' where r: "row = CHR ''['' # row'" by (cases row) (auto simp: startswith_def)
  with *(3) obtain more where "drop 20 row' = CHR '']'' # more" by (cases "drop 20 row'") (auto simp: startswith_def)
  then have "row' = take 20 row' @ CHR '']'' # more" by (metis append_take_drop_id)
  with r * show "stamped t row" by (auto simp: stamped_def)
next
  assume "stamped t row"
  then show "stamp_of row = Some t"
    by (auto simp: stamped_def stamp_of_def stamp_shape_iff iso_stamp_length startswith_def)
qed

lemma stamp_of_None: "stamp_of row = None \<longleftrightarrow> (\<nexists>u. stamped u row)"
  by (auto simp flip: stamp_of_iff)

lemma module_entries_length [simp]: "length (module_entries r m ts k rows) = length rows"
  by (induction r m ts k rows rule: module_entries.induct) (auto simp: Let_def)

lemma inherits_Cons:
  "inherits ts (row # rows) (Suc i) t \<longleftrightarrow> inherits (case stamp_of row of None \<Rightarrow> ts | Some u \<Rightarrow> u) rows i t"
proof -
  have all: "(\<forall>k\<le>Suc i. P k) \<longleftrightarrow> P 0 \<and> (\<forall>k\<le>i. P (Suc k))" for P
    by (metis Suc_le_mono le0 not0_implies_Suc)
  have ex: "(\<exists>j\<le>Suc i. P j) \<longleftrightarrow> P 0 \<or> (\<exists>j\<le>i. P (Suc j))" for P
    by (metis Suc_le_mono le0 not0_implies_Suc)
  have gap0: "(\<forall>k. 0 < k \<and> k \<le> Suc i \<longrightarrow> Q k) \<longleftrightarrow> (\<forall>k\<le>i. Q (Suc k))" for Q
    by (metis Suc_le_mono gr0_implies_Suc zero_less_Suc)
  have gap: "(\<forall>k. Suc j < k \<and> k \<le> Suc i \<longrightarrow> Q k) \<longleftrightarrow> (\<forall>k. j < k \<and> k \<le> i \<longrightarrow> Q (Suc k))" for j Q
    by (metis Suc_le_mono Suc_less_eq Suc_lessE)
  have split: "inherits ts (row # rows) (Suc i) t \<longleftrightarrow>
      (stamped t row \<and> (\<forall>k\<le>i. \<nexists>u. stamped u (rows ! k))) \<or>
      (\<exists>j\<le>i. stamped t (rows ! j) \<and> (\<forall>k. j < k \<and> k \<le> i \<longrightarrow> (\<nexists>u. stamped u (rows ! k)))) \<or>
      (t = ts \<and> (\<nexists>u. stamped u row) \<and> (\<forall>k\<le>i. \<nexists>u. stamped u (rows ! k)))"
    unfolding inherits_def all ex gap0 gap nth_Cons_0 nth_Cons_Suc by (rule disj_assoc)
  show ?thesis
  proof (cases "stamp_of row")
    case None
    then have no: "\<not> stamped v row" for v using stamp_of_None by blast
    show ?thesis unfolding split None option.case by (simp only: no inherits_def) blast
  next
    case (Some u)
    then have yes: "stamped v row \<longleftrightarrow> v = u" for v using stamp_of_iff [of row v] by auto
    show ?thesis unfolding split Some option.case by (simp only: yes inherits_def) blast
  qed
qed

lemma module_entries_ts:
  "i < length rows \<Longrightarrow> inherits ts rows i t \<longleftrightarrow> le_ts (module_entries r m ts k rows ! i) = t"
proof (induction r m ts k rows arbitrary: i rule: module_entries.induct)
  case (2 r m ts k row rows)
  show ?case
  proof (cases i)
    case 0
    have "inherits ts (row # rows) 0 t \<longleftrightarrow> stamped t row \<or> (t = ts \<and> (\<nexists>u. stamped u row))" by (simp add: inherits_def)
    with 0 show ?thesis by (auto simp: Let_def simp flip: stamp_of_iff split: option.splits)
  next
    case (Suc j)
    with 2 show ?thesis by (simp add: inherits_Cons Let_def)
  qed
qed simp

text \<open>What an entry of the merged view must be.\<close>

definition log_line :: "log_files \<Rightarrow> (string \<Rightarrow> int) \<Rightarrow> string list \<Rightarrow> log_entry \<Rightarrow> bool" where
  "log_line files limit names e = (le_rank e < length names \<and> (let m = names ! le_rank e in
     \<exists>rows. read_file_lines files (WZ_LOG @ ''/'' @ m @ ''.log'') (limit m) = Some rows \<and> le_seq e < length rows \<and>
       inherits [] rows (le_seq e) (le_ts e) \<and>
       le_text e = (if m = ''actions'' then [] else ''['' @ m @ ''] '') @ rows ! le_seq e))"

lemma module_entries_iff:
  "e \<in> set (module_entries r m [] 0 rows) \<longleftrightarrow> le_rank e = r \<and> le_seq e < length rows \<and>
     inherits [] rows (le_seq e) (le_ts e) \<and> le_text e = tag_prefix m @ rows ! le_seq e"
  (is "_ \<longleftrightarrow> ?R")
proof -
  let ?es = "module_entries r m [] 0 rows"
  have nth: "le_rank (?es ! i) = r \<and> le_seq (?es ! i) = i \<and> le_text (?es ! i) = tag_prefix m @ rows ! i" if "i < length rows" for i
  proof -
    have "le_seq (?es ! i) = map le_seq ?es ! i" "le_text (?es ! i) = map le_text ?es ! i" using that by simp_all
    moreover have "?es ! i \<in> set ?es" using that by simp
    then have "le_rank (?es ! i) = r" by (rule module_entries_rank)
    ultimately show ?thesis using that by (simp add: module_entries_seq module_entries_text del: nth_map) simp
  qed
  show ?thesis
  proof
    assume "e \<in> set ?es"
    then obtain i where "i < length rows" "e = ?es ! i" by (auto simp: in_set_conv_nth)
    with nth [of i] module_entries_ts [of i rows "[]" "le_ts e" r m 0] show ?R by auto
  next
    assume R: ?R
    with nth [of "le_seq e"] module_entries_ts [of "le_seq e" rows "[]" "le_ts e" r m 0]
    have "e = ?es ! le_seq e" by (intro log_entry.equality) auto
    with R show "e \<in> set ?es" by (metis module_entries_length nth_mem)
  qed
qed

lemma plain_log_path: "m \<noteq> [] \<Longrightarrow> CHR ''/'' \<notin> set m \<Longrightarrow> log_path m = WZ_LOG @ ''/'' @ m @ ''.log''"
  by (cases m) (auto simp: log_path_def os_join_def WZ_LOG_def)

lemma module_paths: "m \<in> set LOG_MODULES \<Longrightarrow> log_path m = WZ_LOG @ ''/'' @ m @ ''.log''"
  by (rule plain_log_path) (auto simp: LOG_MODULES_def)

lemma entries_of_iff:
  "e \<in> set (entries_of files limit (r, m)) \<longleftrightarrow> le_rank e = r \<and> (\<exists>rows. read_file_lines files (log_path m) (limit m) = Some rows \<and>
     le_seq e < length rows \<and> inherits [] rows (le_seq e) (le_ts e) \<and> le_text e = tag_prefix m @ rows ! le_seq e)"
  by (cases "read_file_lines files (log_path m) (limit m)") (auto simp: entries_of_def module_entries_iff)

lemma collected_iff: "e \<in> set (collected_entries files limit) \<longleftrightarrow> log_line files limit LOG_MODULES e"
proof -
  have "e \<in> set (collected_entries files limit) \<longleftrightarrow>
      (\<exists>r<length LOG_MODULES. e \<in> set (entries_of files limit (r, LOG_MODULES ! r)))"
    by (auto simp: collected_entries_def sort_entries_def in_set_enumerate_eq)
  also have "\<dots> \<longleftrightarrow> le_rank e < length LOG_MODULES \<and> e \<in> set (entries_of files limit (le_rank e, LOG_MODULES ! le_rank e))"
    by (auto simp: entries_of_iff)
  also have "\<dots> \<longleftrightarrow> log_line files limit LOG_MODULES e"
    unfolding entries_of_iff log_line_def Let_def
    by (rule conj_cong [OF refl]) (simp add: module_paths tag_prefix_def)
  finally show ?thesis .
qed

lemma distinct_module_entries: "distinct (map (\<lambda>e. (le_rank e, le_seq e)) (module_entries r m ts k rows))"
proof -
  have "distinct (map le_seq (module_entries r m ts k rows))" by (simp add: module_entries_seq)
  then show ?thesis by (auto simp: distinct_map inj_on_def)
qed

lemma distinct_collected: "distinct (map (\<lambda>e. (le_rank e, le_seq e)) (collected_entries files limit))"
proof -
  let ?k = "\<lambda>e. (le_rank e, le_seq e)"
  have "distinct (map ?k (concat (map (entries_of files limit) xs)))" if "distinct (map fst xs)" for xs
    using that
  proof (induction xs)
    case (Cons x xs)
    have "distinct (map ?k (entries_of files limit x))"
      by (auto simp: entries_of_def distinct_module_entries split: option.splits)
    moreover have "?k ` set (entries_of files limit x) \<inter> ?k ` set (concat (map (entries_of files limit) xs)) = {}"
      using Cons.prems by (fastforce dest: entries_of_rank)
    ultimately show ?case using Cons by simp
  qed simp
  from this [of "enumerate 0 LOG_MODULES"]
  have "distinct (map ?k (concat (map (entries_of files limit) (enumerate 0 LOG_MODULES))))" by simp
  then show ?thesis
    by (simp add: collected_entries_def sort_entries_def distinct_map)
qed

lemma tail_lines_whole: "int (length t) \<le> limit \<Longrightarrow> tail_lines limit t = splitlines t"
  by (simp add: tail_lines_def Let_def)

text \<open>A module whose own stamps never decrease keeps its lines in the order of its file.\<close>

lemma module_order_kept:
  assumes "(r, m) \<in> set (enumerate 0 LOG_MODULES)" and "sorted (map le_ts (entries_of files limit (r, m)))"
  shows "filter (\<lambda>e. le_rank e = r) (collected_entries files limit) = entries_of files limit (r, m)"
proof -
  have "filter (\<lambda>e. le_rank e = r) (collected_entries files limit) = sort_key entry_key (entries_of files limit (r, m))"
    using filter_rank_concat [of "enumerate 0 LOG_MODULES" r m files limit] assms(1)
    by (simp add: collected_entries_def sort_entries_def filter_sort)
  moreover have "sorted (map entry_key (entries_of files limit (r, m)))"
    using assms(2) by (auto simp: entries_of_def intro: module_entries_sorted split: option.splits)
  ultimately show ?thesis by (simp add: sort_key_id_if_sorted)
qed

section \<open>Properties\<close>

text \<open>
  Property C29. The merged view is the logs of the ten modules and nothing else, in order: its entries are exactly the
  lines read from the files of the ten modules, once each, with the tag of the module (none for actions) and with
  the stamp that the line begins with or inherits from the last stamped line before it; they stand by
  stamp, then module, then line number; and a file within the limit is read as a whole.
\<close>

theorem merged_view_exact:
  "(\<forall>e. e \<in> set (collected_entries files limit) \<longleftrightarrow> log_line files limit
      [''actions'', ''ss-server'', ''sockd'', ''nfqws'', ''redsocks'', ''ss-local'', ''udprelay'', ''panel'', ''test'', ''bcw''] e) \<and>
   distinct (map (\<lambda>e. (le_rank e, le_seq e)) (collected_entries files limit)) \<and>
   sorted (map (\<lambda>e. (le_ts e, le_rank e, le_seq e)) (collected_entries files limit)) \<and>
   (\<forall>p k t. files p = LogText t \<and> int (length t) \<le> k \<longrightarrow> read_file_lines files p k = Some (splitlines t))"
proof -
  have "sorted (map entry_key (collected_entries files limit))"
    unfolding collected_entries_def by (rule log_order.ranked_sorted)
  then show ?thesis
    using collected_iff [of _ files limit] distinct_collected [of files limit]
    by (simp add: entry_key_def [abs_def] LOG_MODULES_def read_file_lines_def tail_lines_whole)
qed

text \<open>The sources that are admitted, and the files that a source may depend on.\<close>

definition source_alphabet :: string where
  "source_alphabet = ''abcdefghijklmnopqrstuvwxyz0123456789_-''"

definition plain_source :: "string \<Rightarrow> bool" where
  "plain_source src = (1 \<le> length src \<and> length src \<le> 64 \<and> set src \<subseteq> set source_alphabet)"

lemma source_char_iff: "source_char c \<longleftrightarrow> c \<in> set source_alphabet"
proof
  have az: "list_all (\<lambda>n. char_of n \<in> set source_alphabet) [97..<123::nat]"
    and digit: "list_all (\<lambda>n. char_of n \<in> set source_alphabet) [48..<58::nat]"
    and sign: "CHR ''_'' \<in> set source_alphabet" "CHR ''-'' \<in> set source_alphabet" by code_simp+
  assume "source_char c"
  then consider "is_lower_az c" | "is_digit c" | "c = CHR ''_''" | "c = CHR ''-''" by (auto simp: source_char_def)
  then show "c \<in> set source_alphabet"
  proof cases
    case 1
    then have "of_char c \<in> {97..<123::nat}" by (simp add: is_lower_az_def ord_def)
    with az have "char_of (of_char c :: nat) \<in> set source_alphabet" unfolding list_all_iff set_upt by blast
    then show ?thesis by simp
  next
    case 2
    then have "of_char c \<in> {48..<58::nat}" by (simp add: is_digit_def ord_def)
    with digit have "char_of (of_char c :: nat) \<in> set source_alphabet" unfolding list_all_iff set_upt by blast
    then show ?thesis by simp
  qed (use sign in simp_all)
next
  have "list_all source_char source_alphabet" by code_simp
  then show "c \<in> set source_alphabet \<Longrightarrow> source_char c" by (simp add: list_all_iff)
qed

lemma valid_source_iff: "valid_source src \<longleftrightarrow> plain_source src"
  unfolding valid_source_def plain_source_def list_all_iff source_char_iff subset_iff by (cases src) auto

lemma plain_source_path: "plain_source src \<Longrightarrow> CHR ''/'' \<notin> set src \<and> log_path src = WZ_LOG @ ''/'' @ src @ ''.log''"
proof -
  assume src: "plain_source src"
  have "CHR ''/'' \<notin> set source_alphabet" by code_simp
  with src have "CHR ''/'' \<notin> set src" "src \<noteq> []" by (auto simp: plain_source_def)
  with plain_log_path show ?thesis by blast
qed

definition same_logs :: "log_files \<Rightarrow> log_files \<Rightarrow> bool" where
  "same_logs files files' = (\<forall>m. CHR ''/'' \<notin> set m \<longrightarrow> files' (WZ_LOG @ ''/'' @ m @ ''.log'') = files (WZ_LOG @ ''/'' @ m @ ''.log''))"

lemma same_logs_read: "same_logs files files' \<Longrightarrow> CHR ''/'' \<notin> set m \<Longrightarrow>
    read_file_lines files' (WZ_LOG @ ''/'' @ m @ ''.log'') k = read_file_lines files (WZ_LOG @ ''/'' @ m @ ''.log'') k"
  by (simp add: same_logs_def read_file_lines_def)

lemma same_logs_collected:
  assumes "same_logs files files'"
  shows "collected_entries files' limit = collected_entries files limit"
proof -
  have "entries_of files' limit x = entries_of files limit x" if "x \<in> set (enumerate 0 LOG_MODULES)" for x
  proof -
    from that have "snd x \<in> snd ` set (enumerate 0 LOG_MODULES)" by (rule imageI)
    then have m: "snd x \<in> set LOG_MODULES" by (simp only: map_snd_enumerate flip: set_map)
    then have "CHR ''/'' \<notin> set (snd x)" by (auto simp: LOG_MODULES_def)
    with same_logs_read [OF assms] show ?thesis by (simp add: entries_of_def module_paths [OF m])
  qed
  then show ?thesis unfolding collected_entries_def by (metis (mono_tags, lifting) map_eq_conv)
qed

lemma bounded_tail:
  "\<exists>p rows. xs = p @ rows \<and> last_n (max 1 (min n 5000)) xs = rows \<and> int (length rows) \<le> min 5000 (max 1 n) \<and>
    int (length rows) = min (min 5000 (max 1 n)) (int (length xs)) \<and> (rows = [] \<longrightarrow> xs = [])"
proof -
  let ?n = "max 1 (min n 5000)"
  obtain p where "xs = p @ last_n ?n xs" using last_n_suffix by blast
  moreover have "int (length (last_n ?n xs)) = min ?n (int (length xs))" by (rule length_last_n) simp
  ultimately show ?thesis by (intro exI [of _ p] exI [of _ "last_n ?n xs"]) (auto simp: min_def max_def split: if_splits)
qed

text \<open>
  Property C30. The log route stays within the log directory and its bounds, whatever the source: its answer depends on
  files directly in that directory only; a source that is not one to 64 lower-case letters, digits,
  underscores and hyphens is refused; the answer for one log is a suffix of its lines, and the one for all
  logs a suffix of the merged view, of at most as many lines as asked for, and at most 5000 (exactly as
  many, while there are so many, for a log within the 256 KiB that are read).
\<close>

theorem tail_log_confined:
  "(\<forall>files'. same_logs files files' \<longrightarrow> tail_log files' src n = tail_log files src n) \<and>
   (\<not> plain_source src \<longrightarrow> tail_log files src n = ''(bad log source)'') \<and>
   (plain_source src \<and> src \<noteq> ''all'' \<longrightarrow>
     (case files (WZ_LOG @ ''/'' @ src @ ''.log'') of
        NoFile \<Rightarrow> tail_log files src n = ''(no log for '' @ src @ '')'' @ [LF]
      | Unreadable msg \<Rightarrow> tail_log files src n = ''(log read error: '' @ msg @ '')'' @ [LF]
      | LogText t \<Rightarrow> (\<exists>p rows. splitlines t = p @ rows \<and> tail_log files src n = join [LF] rows @ [LF] \<and>
          int (length rows) \<le> min 5000 (max 1 n) \<and>
          (int (length t) \<le> 256 * 1024 \<longrightarrow> int (length rows) = min (min 5000 (max 1 n)) (int (length (splitlines t))))))) \<and>
   (src = ''all'' \<and> tail_log files src n \<noteq> ''(no log entries available across modules)'' @ [LF] \<longrightarrow>
     (\<exists>p rows. map le_text (collected_entries files (\<lambda>m. if m = ''actions'' then 256 * 1024 else 64 * 1024)) = p @ rows \<and> rows \<noteq> [] \<and>
        tail_log files src n = join [LF] rows @ [LF] \<and> int (length rows) \<le> min 5000 (max 1 n)))"
proof (intro conjI allI impI)
  fix files' assume same: "same_logs files files'"
  show "tail_log files' src n = tail_log files src n"
  proof (cases "plain_source src")
    case True
    with same_logs_read [OF same, of src] plain_source_path [OF True] show ?thesis
      by (simp add: tail_log_def merged_log_def same_logs_collected [OF same] Let_def)
  qed (simp add: tail_log_def valid_source_iff)
next
  assume "\<not> plain_source src"
  then show "tail_log files src n = ''(bad log source)''" by (simp add: tail_log_def valid_source_iff)
next
  assume src: "plain_source src \<and> src \<noteq> ''all''"
  let ?path = "WZ_LOG @ ''/'' @ src @ ''.log''"
  have tl: "tail_log files src n = (case read_file_lines files ?path (256 * 1024) of
      None \<Rightarrow> ''(no log for '' @ src @ '')'' @ [LF] | Some rows \<Rightarrow> join [LF] (last_n (max 1 (min n 5000)) rows) @ [LF])"
    using src plain_source_path [of src] by (simp add: tail_log_def valid_source_iff)
  show "case files ?path of NoFile \<Rightarrow> tail_log files src n = ''(no log for '' @ src @ '')'' @ [LF]
      | Unreadable msg \<Rightarrow> tail_log files src n = ''(log read error: '' @ msg @ '')'' @ [LF]
      | LogText t \<Rightarrow> (\<exists>p rows. splitlines t = p @ rows \<and> tail_log files src n = join [LF] rows @ [LF] \<and>
          int (length rows) \<le> min 5000 (max 1 n) \<and>
          (int (length t) \<le> 256 * 1024 \<longrightarrow> int (length rows) = min (min 5000 (max 1 n)) (int (length (splitlines t)))))"
  proof (cases "files ?path")
    case (LogText t)
    obtain p1 where p1: "splitlines t = p1 @ tail_lines (256 * 1024) t" using tail_lines_suffix by blast
    obtain p2 rows where r: "tail_lines (256 * 1024) t = p2 @ rows" "last_n (max 1 (min n 5000)) (tail_lines (256 * 1024) t) = rows"
      "int (length rows) \<le> min 5000 (max 1 n)"
      "int (length rows) = min (min 5000 (max 1 n)) (int (length (tail_lines (256 * 1024) t)))" using bounded_tail by blast
    from tl LogText r(2) have "tail_log files src n = join [LF] rows @ [LF]" by (simp add: read_file_lines_def)
    moreover have "splitlines t = (p1 @ p2) @ rows" using p1 r(1) by simp
    moreover have "int (length rows) = min (min 5000 (max 1 n)) (int (length (splitlines t)))" if "int (length t) \<le> 256 * 1024"
      using r(4) tail_lines_whole [OF that] by simp
    ultimately show ?thesis unfolding LogText log_file.case using r(3) by blast
  qed (use tl in \<open>simp_all add: read_file_lines_def last_n_def\<close>)
next
  assume all: "src = ''all'' \<and> tail_log files src n \<noteq> ''(no log entries available across modules)'' @ [LF]"
  let ?limit = "\<lambda>m. if m = ''actions'' then 256 * 1024 else 64 * 1024 :: int"
  let ?es = "collected_entries files ?limit"
  have v: "valid_source ''all''" by code_simp
  from all v have es: "?es \<noteq> []" and tl: "tail_log files src n = join [LF] (map le_text (last_n (max 1 (min n 5000)) ?es)) @ [LF]"
    by (auto simp: tail_log_def merged_log_def Let_def split: if_splits)
  obtain p rows where r: "?es = p @ rows" "last_n (max 1 (min n 5000)) ?es = rows" "int (length rows) \<le> min 5000 (max 1 n)"
    "rows = [] \<longrightarrow> ?es = []" using bounded_tail [of ?es n] by blast
  have "map le_text ?es = map le_text p @ map le_text rows" using arg_cong [OF r(1), of "map le_text"] by simp
  moreover have "map le_text rows \<noteq> []" using r(4) es by auto
  moreover have "tail_log files src n = join [LF] (map le_text rows) @ [LF]" using tl by (simp only: r(2))
  moreover have "int (length (map le_text rows)) \<le> min 5000 (max 1 n)" using r(3) by simp
  ultimately show "\<exists>p rows. map le_text (collected_entries files (\<lambda>m. if m = ''actions'' then 256 * 1024 else 64 * 1024)) = p @ rows \<and> rows \<noteq> [] \<and>
        tail_log files src n = join [LF] rows @ [LF] \<and> int (length rows) \<le> min 5000 (max 1 n)"
    by blast
qed

definition sample_logs :: log_files where
  "sample_logs path = (if path = ''/var/log/webzapret/nfqws.log'' then LogText (''[2024-01-01T00:00:02Z] b'' @ [LF] @ ''more'')
     else if path = ''/var/log/webzapret/panel.log'' then LogText ''[2024-01-01T00:00:01Z] a''
     else if path = ''/var/log/x.log'' then LogText ''secret'' else NoFile)"

theorem merged_view_exact_witness:
  "read_file_lines sample_logs ''/var/log/webzapret/panel.log'' 1000 = Some [''[2024-01-01T00:00:01Z] a''] \<and>
   map le_text (collected_entries sample_logs (\<lambda>_. 1000)) =
     [''[panel] [2024-01-01T00:00:01Z] a'', ''[nfqws] [2024-01-01T00:00:02Z] b'', ''[nfqws] more'']"
proof -
  have f: "sample_logs ''/var/log/webzapret/panel.log'' = LogText ''[2024-01-01T00:00:01Z] a''" by (simp add: sample_logs_def)
  have "splitlines ''[2024-01-01T00:00:01Z] a'' = [''[2024-01-01T00:00:01Z] a'']"
    "map le_text (collected_entries sample_logs (\<lambda>_. 1000)) =
     [''[panel] [2024-01-01T00:00:01Z] a'', ''[nfqws] [2024-01-01T00:00:02Z] b'', ''[nfqws] more'']"
    by code_simp+
  moreover have "read_file_lines sample_logs ''/var/log/webzapret/panel.log'' 1000 = Some (splitlines ''[2024-01-01T00:00:01Z] a'')"
  proof -
    from merged_view_exact [of sample_logs "\<lambda>_. 1000"] have
      "\<forall>p k t. sample_logs p = LogText t \<and> int (length t) \<le> k \<longrightarrow> read_file_lines sample_logs p k = Some (splitlines t)"
      by (elim conjE)
    from this [rule_format, OF conjI [OF f]] show ?thesis by simp
  qed
  ultimately show ?thesis by simp
qed

theorem tail_log_confined_witness:
  "tail_log sample_logs ''../x'' 5 = ''(bad log source)'' \<and>
   (\<exists>p rows. splitlines (''[2024-01-01T00:00:02Z] b'' @ [LF] @ ''more'') = p @ rows \<and>
      tail_log sample_logs ''nfqws'' 1 = join [LF] rows @ [LF] \<and> length rows \<le> 1)"
proof -
  have "\<not> plain_source ''../x''" "plain_source ''nfqws''" by code_simp+
  moreover have "sample_logs (WZ_LOG @ ''/'' @ ''nfqws'' @ ''.log'') = LogText (''[2024-01-01T00:00:02Z] b'' @ [LF] @ ''more'')"
    by (simp add: sample_logs_def WZ_LOG_def)
  ultimately show ?thesis
    using tail_log_confined [of sample_logs "''../x''" 5] tail_log_confined [of sample_logs "''nfqws''" 1] by auto
qed

end
