(* ===== verification/Translate.thy ===== *)
theory Translate
  imports PyValue
begin

text \<open>
  \<open>translate_nfqws_args\<close> of \<^verbatim>\<open>src/panel/panel.py\<close>: the options of a test result (payload and Lua calls)
  rewritten to the older \<^verbatim>\<open>--dpi-desync\<close> family.
\<close>

definition LUA_DESYNC :: string where "LUA_DESYNC = ''--lua-desync=''"

definition nonspace_run :: "string \<Rightarrow> string" where
  "nonspace_run s = takeWhile (\<lambda>c. \<not> is_space c) s"

text \<open>\<^verbatim>\<open>re.findall("--lua-desync=([^\s]+)", args)\<close>: the texts behind the option, left to right.\<close>

function lua_specs :: "string \<Rightarrow> string list" where
  "lua_specs [] = []"
| "lua_specs (c # s) =
     (if startswith (c # s) LUA_DESYNC \<and> nonspace_run (drop (length LUA_DESYNC) (c # s)) \<noteq> []
      then nonspace_run (drop (length LUA_DESYNC) (c # s))
        # lua_specs (dropWhile (\<lambda>c. \<not> is_space c) (drop (length LUA_DESYNC) (c # s)))
      else lua_specs s)"
  by pat_completeness auto
termination
proof (relation "measure length")
  fix c :: char and s
  have "length (dropWhile (\<lambda>c. \<not> is_space c) (drop (length LUA_DESYNC) (c # s))) \<le> length (drop (length LUA_DESYNC) (c # s))"
    by (rule length_dropWhile_le)
  also have "\<dots> < length (c # s)" by (simp add: LUA_DESYNC_def)
  finally show "(dropWhile (\<lambda>c. \<not> is_space c) (drop (length LUA_DESYNC) (c # s)), c # s) \<in> measure length"
    by simp
qed auto

record desync =
  ds_modes :: "string list"
  ds_positions :: "string list"
  ds_fooling :: "string list"
  ds_repeats :: "int option"

definition method_modes :: "string \<Rightarrow> string list" where
  "method_modes m = (if m = ''fakeddisorder'' then [''fake'', ''multidisorder'']
     else if m = ''fakedsplit'' then [''fake'', ''fakedsplit''] else [m])"

text \<open>\<open>token.split("=")[1]\<close>.\<close>

definition second_part :: "string \<Rightarrow> string" where
  "second_part t = split_on CHR ''='' t ! 1"

definition add_missing :: "string \<Rightarrow> string list \<Rightarrow> string list" where
  "add_missing x xs = (if x \<in> set xs then xs else xs @ [x])"

definition tls_fooling :: "string list \<Rightarrow> string list \<Rightarrow> string list" where
  "tls_fooling mods f0 = (let f1 = (if ''rnd'' \<in> set mods then add_missing ''ts'' f0 else f0);
       f2 = (if ''dupsid'' \<in> set mods then add_missing ''badseq'' f1 else f1)
     in if ''padencap'' \<in> set mods then add_missing ''badseq'' f2 else f2)"

definition desync_token :: "desync \<Rightarrow> string \<Rightarrow> desync result" where
  "desync_token d t =
     (if startswith t ''pos='' then Inr (d\<lparr>ds_positions := ds_positions d @ [after CHR ''='' t]\<rparr>)
      else if startswith t ''repeats='' then
        (case py_int (JStr (second_part t)) of Inl e \<Rightarrow> Inl e | Inr n \<Rightarrow> Inr (d\<lparr>ds_repeats := Some n\<rparr>))
      else if startswith t ''tcp_ack='' then Inr (d\<lparr>ds_fooling := ds_fooling d @ [''badseq'']\<rparr>)
      else if t = ''tcp_ts_up'' then Inr (d\<lparr>ds_fooling := ds_fooling d @ [''ts'']\<rparr>)
      else if startswith t ''tls_mod='' then
        Inr (d\<lparr>ds_fooling := tls_fooling (split_on CHR '','' (second_part t)) (ds_fooling d)\<rparr>)
      else Inr d)"

definition desync_spec :: "desync \<Rightarrow> string \<Rightarrow> desync result" where
  "desync_spec d spec = (case split_on CHR '':'' spec of [] \<Rightarrow> Inr d
     | method # tokens \<Rightarrow> rfold desync_token (d\<lparr>ds_modes := ds_modes d @ method_modes method\<rparr>) tokens)"

definition target_filter :: "string \<Rightarrow> string" where
  "target_filter protocol = (if contains ''QUIC'' protocol \<or> contains ''UDP'' protocol then ''--filter-udp=443''
     else if contains ''HTTP'' protocol \<and> \<not> contains ''TLS'' protocol then ''--filter-tcp=80''
     else ''--filter-tcp=443'')"

definition with_first_packet :: "string list \<Rightarrow> string list" where
  "with_first_packet ps = (if ''midsld'' \<in> set ps \<and> ''1'' \<notin> set ps then ''1'' # ps else ps)"

definition desync_opt :: "string \<Rightarrow> string \<Rightarrow> string" where
  "desync_opt name v = ''--dpi-desync'' @ name @ ''='' @ v"

definition desync_parts :: "string \<Rightarrow> desync \<Rightarrow> string list" where
  "desync_parts filter_opt d = (let modes = fromkeys (ds_modes d); poss = fromkeys (ds_positions d);
       fool = fromkeys (ds_fooling d) in
     [filter_opt]
     @ (if modes \<noteq> [] then [desync_opt [] (join '','' modes)] else [])
     @ (if poss \<noteq> [] then [desync_opt ''-split-pos'' (join '','' (with_first_packet poss))] else [])
     @ (if fool \<noteq> [] then [desync_opt ''-fooling'' (join '','' fool)] else [])
     @ (case ds_repeats d of None \<Rightarrow> [] | Some n \<Rightarrow> [desync_opt ''-repeats'' (show_int n)]))"

definition translate_nfqws_args :: "string \<Rightarrow> string \<Rightarrow> string result" where
  "translate_nfqws_args args protocol =
     (if args = [] \<or> (\<not> contains ''--payload='' args \<and> \<not> contains LUA_DESYNC args) then Inr args
      else if lua_specs args = [] then Inr (target_filter protocol)
      else (case rfold desync_spec \<lparr>ds_modes = [], ds_positions = [], ds_fooling = [], ds_repeats = None\<rparr>
              (lua_specs args) of Inl e \<Rightarrow> Inl e
        | Inr d \<Rightarrow> Inr (join '' '' (desync_parts (target_filter protocol) d))))"

section \<open>Facts\<close>

declare lua_specs.simps [simp del]

text \<open>Every spec that is found has no white space and is not empty.\<close>

lemma lua_specs_words: "w \<in> set (lua_specs s) \<Longrightarrow> w \<noteq> [] \<and> (\<forall>c\<in>set w. \<not> is_space c)"
proof (induction s rule: lua_specs.induct)
  case 1
  then show ?case by (simp add: lua_specs.simps)
next
  case (2 c s)
  let ?r = "drop (length LUA_DESYNC) (c # s)"
  show ?case
  proof (cases "startswith (c # s) LUA_DESYNC \<and> nonspace_run ?r \<noteq> []")
    case True
    then have "w = nonspace_run ?r \<or> w \<in> set (lua_specs (dropWhile (\<lambda>c. \<not> is_space c) ?r))"
      using "2.prems" unfolding lua_specs.simps(2) if_P [OF True] by simp
    then show ?thesis
    proof
      assume "w = nonspace_run ?r"
      with True show ?thesis by (auto simp: nonspace_run_def dest: set_takeWhileD)
    next
      assume "w \<in> set (lua_specs (dropWhile (\<lambda>c. \<not> is_space c) ?r))"
      with True show ?thesis by (rule "2.IH"(1))
    qed
  next
    case False
    have "w \<in> set (lua_specs s)" using "2.prems" unfolding lua_specs.simps(2) if_not_P [OF False] .
    with False show ?thesis by (rule "2.IH"(2))
  qed
qed

text \<open>The texts collected from the specs hold no white space.\<close>

definition unspaced :: "string \<Rightarrow> bool" where
  "unspaced t = list_all (\<lambda>c. \<not> is_space c) t"

definition clean_desync :: "desync \<Rightarrow> bool" where
  "clean_desync d = (list_all unspaced (ds_modes d) \<and> list_all unspaced (ds_positions d) \<and> list_all unspaced (ds_fooling d))"

lemma unspaced_subset: "unspaced t \<Longrightarrow> set u \<subseteq> set t \<Longrightarrow> unspaced u"
  by (auto simp: unspaced_def list_all_iff)

lemma unspaced_append [simp]: "unspaced (t @ u) \<longleftrightarrow> unspaced t \<and> unspaced u"
  by (simp add: unspaced_def)

lemma set_after: "set (after c t) \<subseteq> set t"
  by (auto simp: after_def dest!: in_set_dropD set_dropWhileD)

lemma unspaced_fooling [simp]: "unspaced ''badseq''" "unspaced ''ts''"
  by code_simp+

lemma clean_tls_fooling: "list_all unspaced f \<Longrightarrow> list_all unspaced (tls_fooling mods f)"
  by (simp add: tls_fooling_def add_missing_def Let_def)

lemma desync_token_clean:
  "clean_desync d \<Longrightarrow> unspaced t \<Longrightarrow> desync_token d t = Inr d' \<Longrightarrow> clean_desync d'"
  by (cases "py_int (JStr (second_part t))")
    (auto simp: desync_token_def clean_desync_def clean_tls_fooling unspaced_subset [OF _ set_after] split: if_split_asm)

lemma set_split_on: "p \<in> set (split_on c s) \<Longrightarrow> set p \<subseteq> set s"
proof (induction s arbitrary: p)
  case Nil
  then show ?case by simp
next
  case (Cons x s)
  obtain y ys where y: "split_on c s = y # ys" by (cases "split_on c s") auto
  with Cons.IH have "set y \<subseteq> set s" "\<And>p. p \<in> set ys \<Longrightarrow> set p \<subseteq> set s" by simp_all
  with Cons.prems y show ?case by (auto split: if_splits)
qed

lemma method_modes_unspaced: "unspaced m \<Longrightarrow> list_all unspaced (method_modes m)"
  by (simp add: method_modes_def) code_simp

lemma desync_spec_clean:
  assumes "clean_desync d" and "unspaced spec" and "desync_spec d spec = Inr d'"
  shows "clean_desync d'"
proof -
  obtain m ts where s: "split_on CHR '':'' spec = m # ts" by (cases "split_on CHR '':'' spec") auto
  have u: "\<And>t. t \<in> set (m # ts) \<Longrightarrow> unspaced t"
    using set_split_on [of _ "CHR '':''" spec] s by (intro unspaced_subset [OF assms(2)]) simp
  from assms(3) s have "rfold desync_token (d\<lparr>ds_modes := ds_modes d @ method_modes m\<rparr>) ts = Inr d'"
    by (simp add: desync_spec_def)
  then show ?thesis
  proof (rule rfold_inv [where P = clean_desync])
    show "clean_desync (d\<lparr>ds_modes := ds_modes d @ method_modes m\<rparr>)"
      using assms(1) u by (simp add: clean_desync_def method_modes_unspaced)
  qed (use u desync_token_clean in auto)
qed

text \<open>Every spec adds at least one mode.\<close>

lemma desync_token_modes: "desync_token d t = Inr d' \<Longrightarrow> ds_modes d' = ds_modes d"
  by (cases "py_int (JStr (second_part t))") (auto simp: desync_token_def split: if_split_asm)

lemma desync_tokens_modes: "rfold desync_token d ts = Inr d' \<Longrightarrow> ds_modes d' = ds_modes d"
  by (erule rfold_inv [where P = "\<lambda>x. ds_modes x = ds_modes d"]) (auto dest: desync_token_modes)

lemma desync_spec_modes: "desync_spec d spec = Inr d' \<Longrightarrow> ds_modes d' \<noteq> []"
  by (auto simp: desync_spec_def method_modes_def split: list.splits if_split_asm dest!: desync_tokens_modes)

lemma desync_specs_modes:
  assumes "rfold desync_spec d specs = Inr d'" and "specs \<noteq> []"
  shows "ds_modes d' \<noteq> []"
proof -
  obtain spec specs' where s: "specs = specs' @ [spec]" using assms(2) by (cases specs rule: rev_cases) auto
  with assms(1) show ?thesis by (auto simp: rfold_append rbind_eq_Inr dest: desync_spec_modes)
qed

section \<open>The words of a translation\<close>

definition own_option :: "string \<Rightarrow> bool" where
  "own_option w = list_ex (startswith w) [''--dpi-desync='', ''--dpi-desync-split-pos='',
     ''--dpi-desync-fooling='', ''--dpi-desync-repeats='']"

lemma unspaced_join: "list_all unspaced xs \<Longrightarrow> unspaced (join '','' xs)"
  by (auto simp: unspaced_def list_all_iff is_space_def ord_def dest!: join_member)

lemma fromkeys_unspaced: "list_all unspaced xs \<Longrightarrow> list_all unspaced (fromkeys xs)"
  by (simp add: list_all_iff)

lemma first_packet_unspaced: "list_all unspaced xs \<Longrightarrow> list_all unspaced (with_first_packet xs)"
  unfolding with_first_packet_def by (auto simp: unspaced_def is_space_def ord_def)

lemma target_filter_unspaced: "unspaced (target_filter protocol)"
proof -
  have "unspaced ''--filter-udp=443''" "unspaced ''--filter-tcp=80''" "unspaced ''--filter-tcp=443''" by code_simp+
  then show ?thesis by (simp add: target_filter_def)
qed

lemma desync_opt_unspaced: "unspaced name \<Longrightarrow> unspaced v \<Longrightarrow> unspaced (desync_opt name v)"
proof -
  have "unspaced ''--dpi-desync''" "unspaced ''=''" by code_simp+
  then show "unspaced name \<Longrightarrow> unspaced v \<Longrightarrow> unspaced (desync_opt name v)"
    unfolding desync_opt_def by (simp only: unspaced_append)
qed

lemma option_names: "unspaced []" "unspaced ''-split-pos''" "unspaced ''-fooling''" "unspaced ''-repeats''"
  by code_simp+

lemma own_options: "name \<in> {[], ''-split-pos'', ''-fooling'', ''-repeats''} \<Longrightarrow> own_option (desync_opt name v)"
  by (auto simp: own_option_def desync_opt_def)

lemma desync_parts_words:
  assumes "clean_desync d" and "ds_modes d \<noteq> []"
  shows "\<exists>opts. desync_parts (target_filter protocol) d = target_filter protocol # opts \<and> opts \<noteq> [] \<and>
    list_all own_option opts \<and> list_all unspaced opts"
proof -
  have "unspaced (show_int n)" for n using show_int_no_space [of n] by (simp add: unspaced_def list_all_iff)
  moreover note clean = assms(1) [unfolded clean_desync_def]
  have "unspaced (join '','' (fromkeys (ds_modes d)))" "unspaced (join '','' (with_first_packet (fromkeys (ds_positions d))))"
    "unspaced (join '','' (fromkeys (ds_fooling d)))"
    using clean by (auto intro!: unspaced_join fromkeys_unspaced first_packet_unspaced)
  ultimately show ?thesis using assms(2) unfolding desync_parts_def Let_def
    by (cases "ds_repeats d") (auto simp: own_options option_names intro!: desync_opt_unspaced)
qed

lemma unspaced_words: "list_all unspaced ws \<Longrightarrow> [] \<notin> set ws \<Longrightarrow> split_ws (join '' '' ws) = ws"
  by (rule split_ws_join) (auto simp: unspaced_def list_all_iff)

text \<open>
  A translated text cannot carry an option of its own: when the text of a test result has a
  payload or a Lua call, the words of the translation are one filter option, chosen by the protocol
  alone, followed by options of the \<^verbatim>\<open>--dpi-desync\<close> family only, whatever stands in the Lua calls; and there
  is at least one of these whenever a Lua call was found.
\<close>

theorem translation_own_options:
  assumes "translate_nfqws_args args protocol = Inr out"
    and "contains ''--payload='' args \<or> contains LUA_DESYNC args"
  shows "\<exists>opts. split_ws out = target_filter protocol # opts \<and> list_all own_option opts \<and>
    (opts = [] \<longleftrightarrow> lua_specs args = [])"
proof -
  have ne: "args \<noteq> []" using assms(2) by (auto simp: LUA_DESYNC_def)
  have tf: "target_filter protocol \<noteq> []" by (simp add: target_filter_def)
  let ?d = "\<lparr>ds_modes = [], ds_positions = [], ds_fooling = [], ds_repeats = None\<rparr>"
  show ?thesis
  proof (cases "lua_specs args = []")
    case True
    with assms ne tf unspaced_words [of "[target_filter protocol]"] target_filter_unspaced show ?thesis
      by (auto simp: translate_nfqws_args_def)
  next
    case False
    with assms ne obtain d where d: "rfold desync_spec ?d (lua_specs args) = Inr d"
      "out = join '' '' (desync_parts (target_filter protocol) d)"
      by (auto simp: translate_nfqws_args_def split: sum.splits)
    have "clean_desync d"
      using d(1)
    proof (rule rfold_inv [where P = clean_desync])
      show "clean_desync ?d" by (simp add: clean_desync_def)
      show "clean_desync s'" if "clean_desync s" "x \<in> set (lua_specs args)" "desync_spec s x = Inr s'" for s x s'
        by (rule desync_spec_clean [OF that(1) _ that(3)])
          (use lua_specs_words [OF that(2)] in \<open>simp add: unspaced_def list_all_iff\<close>)
    qed
    moreover have "ds_modes d \<noteq> []" using d(1) False by (rule desync_specs_modes)
    ultimately obtain opts where opts: "desync_parts (target_filter protocol) d = target_filter protocol # opts"
      "opts \<noteq> []" "list_all own_option opts" "list_all unspaced opts"
      using desync_parts_words by blast
    moreover have "[] \<notin> set opts" using opts(3) by (auto simp: list_all_iff own_option_def)
    ultimately show ?thesis using d(2) tf False target_filter_unspaced unspaced_words [of "target_filter protocol # opts"] by auto
  qed
qed

theorem translation_own_options_witness:
  "\<exists>opts. split_ws ''--filter-tcp=443 --dpi-desync=fake,multidisorder --dpi-desync-repeats=6''
     = target_filter ''HTTPS/TLS1.2'' # opts \<and> list_all own_option opts \<and> opts \<noteq> []"
proof -
  let ?args = "''--payload=tls --lua-desync=fakeddisorder:repeats=6''"
  have "translate_nfqws_args ?args ''HTTPS/TLS1.2''
      = Inr ''--filter-tcp=443 --dpi-desync=fake,multidisorder --dpi-desync-repeats=6''" by code_simp
  moreover have "contains ''--payload='' ?args" "lua_specs ?args \<noteq> []" by code_simp+
  ultimately show ?thesis using translation_own_options [of ?args "''HTTPS/TLS1.2''"] by fastforce
qed

end
