(* ===== verification/Schedule.thy ===== *)
theory Schedule
  imports StateFiles LocalClock
begin

text \<open>
  The time-based selection: \<open>next_run_at\<close>, \<open>schedule_due\<close> and \<open>format_local\<close> of
  \<^verbatim>\<open>src/blockcheck.py\<close>, and the panel's scheduler tick and re-arming (\<open>_bcw_scheduler\<close> and the
  \<^verbatim>\<open>/api/bcw/schedule\<close> route of \<^verbatim>\<open>src/panel/panel.py\<close>), which keep \<open>next_run\<close> and \<open>last_run\<close> in the
  same file as the schedule overrides. Instants are rational seconds; the clock is the steady clock.
\<close>

section \<open>The next instant\<close>

definition MINUTE :: int where "MINUTE = 60"

text \<open>
  The loop \<open>while target <= now: target += step\<close>. The step is at least five minutes, so the guard on
  it never decides; it makes the function total.
\<close>

function catch_up :: "rat \<Rightarrow> rat \<Rightarrow> rat \<Rightarrow> rat" where
  "catch_up step now target =
     (if 0 < step \<and> target \<le> now then catch_up step now (target + step) else target)"
  by pat_completeness auto
termination
proof (relation "measure (\<lambda>(step, now, target). nat (\<lfloor>(now - target) / step\<rfloor> + 1))")
  fix step now target :: rat
  assume s: "0 < step \<and> target \<le> now"
  then have "(now - (target + step)) / step = (now - target) / step - 1"
    by (simp add: field_simps)
  moreover have "0 \<le> \<lfloor>(now - target) / step\<rfloor>" using s by simp
  ultimately show "((step, now, target + step), step, now, target)
      \<in> measure (\<lambda>(step, now, target). nat (\<lfloor>(now - target) / step\<rfloor> + 1))"
    by simp
qed simp

declare catch_up.simps [simp del]

fun unhashable :: "json \<Rightarrow> bool" where
  "unhashable (JList xs) = True"
| "unhashable (JDict d) = True"
| "unhashable _ = False"

fun is_day :: "json \<Rightarrow> bool" where
  "is_day (JStr s) = (s \<in> set DAYS)"
| "is_day _ = False"

text \<open>\<open>[d for d in schedule.get("days", DAYS) if d in _DAY_INDEX] or list(DAYS)\<close>.\<close>

definition known_days :: "json \<Rightarrow> json list result" where
  "known_days v = rbind (iter v) (\<lambda>xs. if list_ex unhashable xs then Inl TypeError
     else let ds = filter is_day xs in Inr (if ds = [] then map JStr DAYS else ds))"

text \<open>\<open>hour, minute = [int(x) for x in str(at).split(":")]\<close>.\<close>

definition hour_minute :: "json \<Rightarrow> (int \<times> int) result" where
  "hour_minute v = rbind (rmap (\<lambda>x. py_int (JStr x)) (split_on CHR '':'' (py_str v)))
     (\<lambda>ns. case ns of [h, m] \<Rightarrow> Inr (h, m) | _ \<Rightarrow> Inl (ValueError ''unpack''))"

text \<open>\<open>float(v)\<close> of an instant; the program stores finite numbers only.\<close>

definition instant :: "json \<Rightarrow> rat result" where
  "instant v = rbind (py_float v) (\<lambda>x. case x of Finite q \<Rightarrow> Inr q | _ \<Rightarrow> Inl OverflowError)"

definition candidate :: "int \<Rightarrow> rat \<Rightarrow> int \<Rightarrow> int \<Rightarrow> int \<Rightarrow> int" where
  "candidate off anchor h m offset = mktime off
     ((localtime off \<lfloor>anchor + of_int (offset * 24 * 3600)\<rfloor>)\<lparr>tm_hour := h, tm_min := m, tm_sec := 0\<rparr>)"

definition day_name :: "int \<Rightarrow> int \<Rightarrow> json" where
  "day_name off c = JStr (DAYS ! nat (tm_wday (localtime off c)))"

definition first_slot :: "int \<Rightarrow> rat \<Rightarrow> int \<Rightarrow> int \<Rightarrow> bool \<Rightarrow> json list \<Rightarrow> int option" where
  "first_slot off anchor h m weekly days =
     find (\<lambda>c. \<not> of_int c \<le> anchor \<and> \<not> (weekly \<and> day_name off c \<notin> set days))
       (map (candidate off anchor h m) [0..8])"

text \<open>The anchor of the daily and weekly modes: \<open>max(now, float(last_run))\<close>.\<close>

definition anchor_of :: "rat \<Rightarrow> json \<Rightarrow> rat result" where
  "anchor_of now last_run = (if last_run = JNull then Inr now
     else (case instant last_run of Inl e \<Rightarrow> Inl e | Inr l \<Rightarrow> Inr (max now l)))"

definition next_run_at :: "int \<Rightarrow> json dict \<Rightarrow> rat \<Rightarrow> json \<Rightarrow> json result" where
  "next_run_at off schedule now last_run =
     (if \<not> truthy (dget_or schedule ''enabled'' JNull) then Inr JNull
      else if dget_or schedule ''mode'' (JStr ''daily'') = JStr ''interval'' then
        (case py_int (dget_or schedule ''interval_min'' (JInt 360)) of
           Inl e \<Rightarrow> Inl e
         | Inr i \<Rightarrow>
             if last_run = JNull then
               Inr (JFloat (Finite (if truthy (dget_or schedule ''run_on_start'' JNull) then now
                  else now + of_int (max 5 i * MINUTE))))
             else (case instant last_run of
                 Inl e \<Rightarrow> Inl e
               | Inr l \<Rightarrow> Inr (JFloat (Finite (catch_up (of_int (max 5 i * MINUTE)) now
                   (l + of_int (max 5 i * MINUTE)))))))
      else if \<not> valid_hhmm (dget_or schedule ''at'' JNull) then Inr JNull
      else (case hour_minute (dget_or schedule ''at'' JNull) of
          Inl e \<Rightarrow> Inl e
        | Inr (h, m) \<Rightarrow> (case known_days (dget_or schedule ''days'' (JList (map JStr DAYS))) of
            Inl e \<Rightarrow> Inl e
          | Inr days \<Rightarrow> (case anchor_of now last_run of
              Inl e \<Rightarrow> Inl e
            | Inr anchor \<Rightarrow> Inr (case first_slot off anchor h m
                  (dget_or schedule ''mode'' (JStr ''daily'') = JStr ''weekly'') days of
                None \<Rightarrow> JNull | Some c \<Rightarrow> JInt c)))))"

definition schedule_due :: "json dict \<Rightarrow> rat \<Rightarrow> json \<Rightarrow> bool result" where
  "schedule_due schedule now next_run =
     (if \<not> truthy (dget_or schedule ''enabled'' JNull) \<or> next_run = JNull then Inr False
      else rbind (py_float next_run) (\<lambda>x. Inr (x \<noteq> NaN \<and> x \<le> Finite now)))"

definition format_local :: "int \<Rightarrow> json \<Rightarrow> string result" where
  "format_local off stamp = (if \<not> truthy stamp then Inr []
     else rbind (instant stamp) (\<lambda>q. Inr (format_time off \<lfloor>q\<rfloor>)))"

section \<open>The scheduler of the panel\<close>

definition dpop :: "string \<Rightarrow> json dict \<Rightarrow> json dict" where
  "dpop k d = AList.delete k d"

text \<open>
  One tick of the background loop at time \<open>now\<close>: the new store, and the slot that fired, if any.
  Whatever raises is caught and reported; the store then stays as it is. A failed write of the state
  file is ignored by the code, and so it is here.
\<close>

definition scheduler_tick ::
  "bool \<Rightarrow> fault \<Rightarrow> int \<Rightarrow> string \<Rightarrow> (string \<Rightarrow> string option) \<Rightarrow> rat \<Rightarrow> store \<Rightarrow> store \<times> json option"
where
  "scheduler_tick ready f off dir environ now st =
     (let path = state_path dir SCHEDULE_FILE in
      case (load_schedule dir environ st, persisted st path) of
        (Some (schedule, ws, es), Some state) \<Rightarrow>
          if \<not> ready then (st, None)
          else if \<not> truthy (dget_or schedule ''enabled'' JNull) then
            (if truthy (dget_or state ''next_run'' JNull)
             then (fst (write_json f path (JDict (dpop ''next_run'' state)) st), None) else (st, None))
          else if \<not> truthy (dget_or state ''next_run'' JNull) then
            (case next_run_at off schedule now (dget_or state ''last_run'' JNull) of
               Inl e \<Rightarrow> (st, None)
             | Inr t \<Rightarrow> (fst (write_json f path (JDict (dset ''next_run'' t state)) st), None))
          else (case schedule_due schedule now (dget_or state ''next_run'' JNull) of
               Inl e \<Rightarrow> (st, None)
             | Inr False \<Rightarrow> (st, None)
             | Inr True \<Rightarrow>
                 (let fired = dget_or state ''next_run'' JNull in
                  case next_run_at off schedule now fired of
                    Inl e \<Rightarrow> (st, None)
                  | Inr t \<Rightarrow> (fst (write_json f path
                      (JDict (dset ''next_run'' t (dset ''last_run'' fired state))) st), Some fired)))
      | _ \<Rightarrow> (st, None))"

text \<open>The schedule route: save, then drop the stored slot so that the next tick arms a new one.\<close>

definition post_schedule ::
  "fault \<Rightarrow> fault \<Rightarrow> string \<Rightarrow> (string \<Rightarrow> string option) \<Rightarrow> json dict \<Rightarrow> store \<Rightarrow> (store \<times> outcome \<times> bool) option"
where
  "post_schedule f g dir environ values st =
     (case save_schedule f dir environ values st of None \<Rightarrow> None
      | Some (st1, res, saved) \<Rightarrow>
          if saved then (case persisted st1 (state_path dir SCHEDULE_FILE) of None \<Rightarrow> None
            | Some state \<Rightarrow> Some (fst (write_json g (state_path dir SCHEDULE_FILE)
                (JDict (dpop ''next_run'' state)) st1), res, saved))
          else Some (st1, res, saved))"

section \<open>The interval mode\<close>

text \<open>The loop stops at the first instant of the grid \<open>target + k * step\<close> after \<open>now\<close>.\<close>

lemma catch_up_grid:
  assumes "0 < step"
  shows "\<exists>k::nat. catch_up step now target = target + of_nat k * step \<and>
    now < catch_up step now target \<and> (k = 0 \<or> catch_up step now target \<le> now + step)"
  using assms
proof (induction step now target rule: catch_up.induct)
  case (1 step now target)
  show ?case
  proof (cases "target \<le> now")
    case True
    with 1 obtain k :: nat where k: "catch_up step now (target + step) = target + step + of_nat k * step"
      "now < catch_up step now (target + step)"
      "k = 0 \<or> catch_up step now (target + step) \<le> now + step" by blast
    with True \<open>0 < step\<close> show ?thesis
      by (subst (1 2 3) catch_up.simps) (intro exI [of _ "Suc k"], auto simp: algebra_simps)
  next
    case False
    then show ?thesis by (subst (1 2 3) catch_up.simps) (intro exI [of _ 0], simp)
  qed
qed

section \<open>The daily and weekly modes\<close>

text \<open>The local time of day of an instant, and whether the schedule admits its day.\<close>

definition at_time :: "int \<Rightarrow> int \<Rightarrow> int \<Rightarrow> int \<Rightarrow> bool" where
  "at_time off c h m = (tm_hour (localtime off c) = h \<and> tm_min (localtime off c) = m \<and> tm_sec (localtime off c) = 0)"

lemma at_time_is_slot: "at_time off c h m = steady.is_slot off c h m"
  by (simp add: at_time_def steady.is_slot_def)

lemma floor_shift: "\<lfloor>(a::rat) + of_int n\<rfloor> = \<lfloor>a\<rfloor> + n"
  by simp

lemma candidate_eq: "candidate off anchor h m k = steady.slot off \<lfloor>anchor\<rfloor> h m + DAY * k"
proof -
  have "\<lfloor>anchor + of_int (k * 24 * 3600)\<rfloor> = \<lfloor>anchor\<rfloor> + DAY * k"
    by (simp only: floor_shift) (simp add: DAY_def)
  then show ?thesis by (simp add: candidate_def steady.slot_shift flip: steady.slot_def)
qed

lemma int_le_rat_iff: "of_int c \<le> (a::rat) \<longleftrightarrow> c \<le> \<lfloor>a\<rfloor>"
  by (simp add: le_floor_iff)


text \<open>What the schedule admits as an instant for a run.\<close>

definition admitted :: "int \<Rightarrow> bool \<Rightarrow> json list \<Rightarrow> int \<Rightarrow> bool" where
  "admitted off weekly days c = (weekly \<longrightarrow> day_name off c \<in> set days)"

lemma day_name_slot:
  assumes "0 \<le> h" "h < 24" "0 \<le> m" "m < 60"
  shows "day_name off (steady.slot off a h m + DAY * k) =
    JStr (DAYS ! nat ((tm_wday (localtime off a) + k) mod 7))"
  by (simp add: day_name_def steady.wday_slot [OF assms])

lemma weekday_reached:
  assumes "days \<noteq> []" and "set days \<subseteq> JStr ` set DAYS" and "0 \<le> (lo::int)"
  shows "\<exists>k. lo \<le> k \<and> k < lo + 7 \<and> JStr (DAYS ! nat ((w + k) mod 7)) \<in> set days"
proof -
  from assms(1,2) obtain j where j: "j < length DAYS" "JStr (DAYS ! j) \<in> set days"
    by (metis image_iff in_set_conv_nth last_in_set subsetD)
  define k where "k = lo + (int j - w - lo) mod 7"
  have "(w + k) mod 7 = (w + lo + (int j - w - lo)) mod 7"
    unfolding k_def by (metis add.assoc mod_add_right_eq)
  with j(1) have "(w + k) mod 7 = int j" by (simp add: DAYS_def)
  with j(2) show ?thesis
    by (intro exI [of _ k]) (simp add: k_def)
qed

lemma slot_exists:
  assumes hm: "0 \<le> h" "h < 24" "0 \<le> m" "m < 60"
    and days: "weekly \<Longrightarrow> days \<noteq> [] \<and> set days \<subseteq> JStr ` set DAYS"
  shows "\<exists>k. 0 \<le> k \<and> k \<le> 7 \<and> a < steady.slot off a h m + DAY * k \<and>
    admitted off weekly days (steady.slot off a h m + DAY * k) \<and>
    steady.slot off a h m + DAY * k \<le> a + DAY * (if weekly then 7 else 1)"
proof -
  let ?S = "steady.slot off a h m"
  define lo where "lo = (if a < ?S then 0 else 1 :: int)"
  have lo: "0 \<le> lo" by (simp add: lo_def)
  have S: "?S < a + DAY" "a < ?S + DAY"
    using hm steady.slot_next_day [of h m a off] steady.start_le [of off a]
    by (simp_all add: steady.slot_eq DAY_def)
  obtain k where k: "lo \<le> k" "k < lo + (if weekly then 7 else 1)" "admitted off weekly days (?S + DAY * k)"
  proof (cases weekly)
    case True
    with days have "days \<noteq> []" "set days \<subseteq> JStr ` set DAYS" by simp_all
    from weekday_reached [OF this lo, of "tm_wday (localtime off a)"] True
    show ?thesis by (auto simp: admitted_def day_name_slot [OF hm] intro: that)
  next
    case False
    then show ?thesis by (intro that [of lo]) (simp_all add: admitted_def)
  qed
  have "a < ?S + DAY * k" using k(1) S(2) by (auto simp: lo_def DAY_def split: if_splits)
  moreover have "?S + DAY * k \<le> a + DAY * (if weekly then 7 else 1)"
    using k(2) S(1) by (auto simp: lo_def DAY_def split: if_splits)
  ultimately show ?thesis using k by (intro exI [of _ k]) (auto simp: lo_def split: if_splits)
qed

lemma find_least:
  assumes "x \<in> set xs" and "P x" and "sorted xs"
  shows "\<exists>y. find P xs = Some y \<and> y \<in> set xs \<and> P y \<and> (\<forall>z\<in>set xs. P z \<longrightarrow> y \<le> z)"
  using assms by (induction xs) auto

lemma first_slot_least:
  assumes hm: "0 \<le> h" "h < 24" "0 \<le> m" "m < 60"
    and days: "weekly \<Longrightarrow> days \<noteq> [] \<and> set days \<subseteq> JStr ` set DAYS"
  shows "\<exists>c. first_slot off anchor h m weekly days = Some c \<and> anchor < of_int c \<and> at_time off c h m \<and>
    admitted off weekly days c \<and> of_int c \<le> anchor + of_int (DAY * (if weekly then 7 else 1)) \<and>
    (\<forall>c'. anchor < of_int c' \<and> at_time off c' h m \<and> admitted off weekly days c' \<longrightarrow> c \<le> c')"
proof -
  let ?a = "\<lfloor>anchor\<rfloor>"
  let ?f = "\<lambda>k. steady.slot off ?a h m + DAY * k"
  let ?P = "\<lambda>c. ?a < c \<and> admitted off weekly days c"
  let ?xs = "map ?f [0..8]"
  have slots: "candidate off anchor h m = ?f" by (auto simp: candidate_eq)
  have P: "(\<lambda>c. \<not> of_int c \<le> anchor \<and> \<not> (weekly \<and> day_name off c \<notin> set days)) = ?P"
    by (auto simp: int_le_rat_iff admitted_def)
  have sorted: "sorted ?xs"
    by (auto simp: sorted_map DAY_def intro!: sorted_wrt_mono_rel [OF _ sorted_upto])
  obtain k where k: "0 \<le> k" "k \<le> 7" "?P (?f k)" "?f k \<le> ?a + DAY * (if weekly then 7 else 1)"
    using slot_exists [OF hm days] by blast
  then have "?f k \<in> set ?xs" by auto
  from find_least [of _ _ ?P, OF this k(3) sorted] obtain c where c: "find ?P ?xs = Some c" "c \<in> set ?xs" "?P c"
    "\<forall>z\<in>set ?xs. ?P z \<longrightarrow> c \<le> z" by blast
  from c(2) obtain i where i: "0 \<le> i" "i \<le> 8" "c = ?f i" by auto
  have least: "c \<le> c'" if c': "?P c'" "at_time off c' h m" for c'
  proof -
    from c' obtain j where j: "0 \<le> j" "c' = ?f j"
      by (auto simp: at_time_is_slot elim: steady.is_slot_offset)
    show ?thesis
    proof (cases "j \<le> 8")
      case True
      with j c'(1) c(4) show ?thesis by auto
    next
      case False
      with i j show ?thesis by (simp add: DAY_def)
    qed
  qed
  have at: "at_time off (?f n) h m" for n
    using steady.is_slot_slot [OF hm, of off "?a + DAY * n"]
    by (simp add: at_time_is_slot steady.slot_shift)
  have "c \<le> ?f k" by (rule least [OF k(3) at])
  with k(4) have bound: "c \<le> ?a + DAY * (if weekly then 7 else 1)" by simp
  have "of_int c \<le> anchor + of_int (DAY * (if weekly then 7 else 1))"
  proof -
    have "(of_int c :: rat) \<le> of_int (?a + DAY * (if weekly then 7 else 1))" using bound by (simp only: of_int_le_iff)
    also have "\<dots> \<le> anchor + of_int (DAY * (if weekly then 7 else 1))" by simp
    finally show ?thesis .
  qed
  moreover have "first_slot off anchor h m weekly days = Some c"
    unfolding first_slot_def slots P by (rule c(1))
  ultimately show ?thesis
    using c(3) i(3) at least by (intro exI [of _ c]) (auto simp: floor_less_iff)
qed

section \<open>Reading the time of day\<close>

lemma valid_hour_digits:
  "valid_hour s \<Longrightarrow> s \<noteq> [] \<and> list_all is_digit s \<and> 0 \<le> parse_digits s \<and> parse_digits s < 24"
  by (auto simp: valid_hour_def is_digit_def ord_def parse_digits_def digit_val_def split: list.splits)

lemma valid_minute_digits:
  "valid_minute s \<Longrightarrow> s \<noteq> [] \<and> list_all is_digit s \<and> 0 \<le> parse_digits s \<and> parse_digits s < 60"
  by (auto simp: valid_minute_def is_digit_def ord_def parse_digits_def digit_val_def split: list.splits)

lemma int_of_digits:
  assumes "s \<noteq> []" and "list_all is_digit s" and "length s \<le> 4300"
  shows "int_of_text s = Some (parse_digits s)"
proof -
  obtain c t where s: "s = c # t" using assms(1) by (cases s) auto
  with assms(2) have "split_sign s = (1, s)" by (simp add: split_sign_def is_digit_not_sign)
  moreover have "strip s = s"
    by (rule strip_no_space) (use assms(2) in \<open>auto simp: list_all_iff is_digit_not_space\<close>)
  ultimately show ?thesis using assms by (simp add: int_of_text_def digit_run_digits)
qed

lemma hour_minute_valid:
  assumes "valid_hhmm (JStr s)" and "strip s = s"
  shows "\<exists>h m. hour_minute (JStr s) = Inr (h, m) \<and> 0 \<le> h \<and> h < 24 \<and> 0 \<le> m \<and> m < 60"
proof -
  have s: "CHR '':'' \<in> set s" "valid_hour (before CHR '':'' s)" "valid_minute (after CHR '':'' s)"
    using assms by (auto simp: valid_hhmm_def py_or_def Let_def split: if_splits)
  define b a where "b = before CHR '':'' s" and "a = after CHR '':'' s"
  have b: "b \<noteq> []" "list_all is_digit b" "0 \<le> parse_digits b" "parse_digits b < 24"
    using valid_hour_digits [OF s(2)] by (simp_all add: b_def)
  have a: "a \<noteq> []" "list_all is_digit a" "0 \<le> parse_digits a" "parse_digits a < 60"
    using valid_minute_digits [OF s(3)] by (simp_all add: a_def)
  have len: "length b \<le> 4300" "length a \<le> 4300"
    using s(2,3) by (auto simp: a_def b_def valid_hour_def valid_minute_def split: list.splits)
  have colon: "\<not> is_digit CHR '':''" by (simp add: is_digit_def ord_def)
  have "s = b @ CHR '':'' # a" using before_after [OF s(1)] by (simp add: a_def b_def)
  moreover have "CHR '':'' \<notin> set b" "CHR '':'' \<notin> set a"
    using a(2) b(2) colon by (auto simp: list_all_iff)
  ultimately have "split_on CHR '':'' s = [b, a]"
    by (simp add: split_on_append_sep split_on_no_sep)
  then have "hour_minute (JStr s) = Inr (parse_digits b, parse_digits a)"
    using int_of_digits [OF b(1,2) len(1)] int_of_digits [OF a(1,2) len(2)] by (simp add: hour_minute_def)
  with a b show ?thesis by blast
qed

section \<open>Schedules as the loader returns them\<close>

text \<open>Every schedule that \<open>load_schedule\<close> returns has this form.\<close>

definition loaded_schedule :: "json dict \<Rightarrow> bool" where
  "loaded_schedule sch = (wf_dict SCHEDULE_SPEC sch \<and>
     (\<exists>ds. dget sch ''days'' = Some (JList (map JStr ds)) \<and> ds \<noteq> [] \<and> set ds \<subseteq> set DAYS))"

lemma normalized_loaded:
  assumes "wf_dict SCHEDULE_SPEC base"
  shows "loaded_schedule (fst (normalize_schedule values base))"
proof -
  obtain out ws es where n: "normalize_schedule values base = (out, ws, es)"
    by (cases "normalize_schedule values base")
  from normalize_schedule_facts [OF assms n] show ?thesis by (auto simp: n loaded_schedule_def)
qed

lemma load_schedule_loaded:
  "load_schedule dir environ st = Some (sch, ws, es) \<Longrightarrow> loaded_schedule sch"
  using normalized_loaded [OF schedule_env_wf [of environ]]
  by (auto simp: load_schedule_def split: option.splits) (metis fst_conv)

lemma loaded_parts:
  assumes "loaded_schedule sch"
  obtains n s md ds where "dget sch ''interval_min'' = Some (JInt n)" "5 \<le> n" "n \<le> 10080"
    "dget sch ''at'' = Some (JStr s)" "strip s = s"
    "dget sch ''mode'' = Some (JStr md)" "md \<in> {''interval'', ''daily'', ''weekly''}"
    "dget sch ''days'' = Some (JList (map JStr ds))" "ds \<noteq> []" "set ds \<subseteq> set DAYS"
proof -
  have wf: "wf_dict SCHEDULE_SPEC sch" using assms by (simp add: loaded_schedule_def)
  from wf_row [OF wf schedule_rows(2)] wf_row [OF wf schedule_rows(3)] wf_row [OF wf schedule_rows(4)] assms that
  show ?thesis by (auto simp: loaded_schedule_def)
qed

lemma known_days_loaded:
  assumes "ds \<noteq> []" and "set ds \<subseteq> set DAYS"
  shows "known_days (JList (map JStr ds)) = Inr (map JStr ds)"
proof -
  have "filter is_day (map JStr ds) = map JStr ds"
    by (rule filter_True) (use assms(2) in auto)
  moreover have "\<not> list_ex unhashable (map JStr ds)" by (auto simp: list_ex_iff)
  ultimately show ?thesis using assms(1) by (simp add: known_days_def)
qed

fun as_json_list :: "json \<Rightarrow> json list" where
  "as_json_list (JList xs) = xs"
| "as_json_list _ = []"

lemma dget_or_Some [simp]: "dget d k = Some v \<Longrightarrow> dget_or d k w = v"
  by (simp add: dget_or_def)

lemma next_run_slot:
  assumes "loaded_schedule sch" and "truthy (dget_or sch ''enabled'' JNull)"
    and "dget_or sch ''mode'' JNull \<noteq> JStr ''interval''" and "valid_hhmm (dget_or sch ''at'' JNull)"
    and "anchor_of now last_run = Inr a"
  shows "\<exists>h m c. hour_minute (dget_or sch ''at'' JNull) = Inr (h, m) \<and>
    next_run_at off sch now last_run = Inr (JInt c) \<and> a < of_int c \<and> at_time off c h m \<and>
    (let weekly = (dget_or sch ''mode'' JNull = JStr ''weekly'');
         days = as_json_list (dget_or sch ''days'' JNull)
     in admitted off weekly days c \<and> of_int c \<le> a + of_int (DAY * (if weekly then 7 else 1)) \<and>
        (\<forall>c'. a < of_int c' \<and> at_time off c' h m \<and> admitted off weekly days c' \<longrightarrow> c \<le> c'))"
proof -
  obtain n s md ds where sch: "dget sch ''at'' = Some (JStr s)" "strip s = s" "dget sch ''mode'' = Some (JStr md)"
    "dget sch ''days'' = Some (JList (map JStr ds))" "ds \<noteq> []" "set ds \<subseteq> set DAYS"
    using assms(1) by (rule loaded_parts)
  from assms(4) sch have "valid_hhmm (JStr s)" by simp
  from hour_minute_valid [OF this sch(2)] obtain h m where
    hm: "hour_minute (JStr s) = Inr (h, m)" "0 \<le> h" "h < 24" "0 \<le> m" "m < 60" by blast
  have days: "map JStr ds \<noteq> [] \<and> set (map JStr ds) \<subseteq> JStr ` set DAYS" using sch(5,6) by auto
  from first_slot_least [OF hm(2-5), of "md = ''weekly''" "map JStr ds" off a] days obtain c where
    c: "first_slot off a h m (md = ''weekly'') (map JStr ds) = Some c" "a < of_int c" "at_time off c h m"
      "admitted off (md = ''weekly'') (map JStr ds) c"
      "of_int c \<le> a + of_int (DAY * (if md = ''weekly'' then 7 else 1))"
      "\<forall>c'. a < of_int c' \<and> at_time off c' h m \<and> admitted off (md = ''weekly'') (map JStr ds) c' \<longrightarrow> c \<le> c'"
    by blast
  have "next_run_at off sch now last_run = Inr (JInt c)"
    using assms(2-5) sch hm c(1) known_days_loaded [OF sch(5,6)]
    by (simp add: next_run_at_def)
  with c hm(1) sch show ?thesis by (simp add: Let_def)
qed

lemma next_run_interval:
  assumes "loaded_schedule sch" and "truthy (dget_or sch ''enabled'' JNull)"
    and "dget_or sch ''mode'' JNull = JStr ''interval''" and "dget_or sch ''interval_min'' JNull = JInt n"
  shows "(last_run = JNull \<longrightarrow> next_run_at off sch now last_run =
      Inr (JFloat (Finite (if truthy (dget_or sch ''run_on_start'' JNull) then now else now + of_int (60 * n))))) \<and>
    (\<forall>l. last_run \<noteq> JNull \<and> instant last_run = Inr l \<longrightarrow>
      (\<exists>k t. 1 \<le> k \<and> t = l + of_nat k * of_int (60 * n) \<and> next_run_at off sch now last_run = Inr (JFloat (Finite t)) \<and>
        now < t \<and> (k = 1 \<or> t \<le> now + of_int (60 * n))))"
proof -
  obtain i md where sch: "dget sch ''interval_min'' = Some (JInt i)" "5 \<le> i" "dget sch ''mode'' = Some (JStr md)"
    using assms(1) by (rule loaded_parts)
  with assms have n: "i = n" "5 \<le> n" "md = ''interval''" by simp_all
  then have step: "(0::rat) < of_int (60 * n)" by simp
  have run: "next_run_at off sch now last_run =
      (if last_run = JNull then Inr (JFloat (Finite (if truthy (dget_or sch ''run_on_start'' JNull) then now
          else now + of_int (60 * n))))
       else (case instant last_run of Inl e \<Rightarrow> Inl e
         | Inr l \<Rightarrow> Inr (JFloat (Finite (catch_up (of_int (60 * n)) now (l + of_int (60 * n)))))))"
    using assms(2) sch n by (simp add: next_run_at_def MINUTE_def mult.commute max_def split: sum.split)
  have "\<exists>k t. 1 \<le> k \<and> t = l + of_nat k * of_int (60 * n) \<and> next_run_at off sch now last_run = Inr (JFloat (Finite t)) \<and>
      now < t \<and> (k = 1 \<or> t \<le> now + of_int (60 * n))"
    if l: "last_run \<noteq> JNull" "instant last_run = Inr l" for l
  proof -
    from catch_up_grid [OF step, of now "l + of_int (60 * n)"] obtain k :: nat where
      k: "catch_up (of_int (60 * n)) now (l + of_int (60 * n)) = l + of_int (60 * n) + of_nat k * of_int (60 * n)"
      "now < catch_up (of_int (60 * n)) now (l + of_int (60 * n))"
      "k = 0 \<or> catch_up (of_int (60 * n)) now (l + of_int (60 * n)) \<le> now + of_int (60 * n)" by blast
    then show ?thesis
      by (intro exI [of _ "Suc k"] exI [of _ "catch_up (of_int (60 * n)) now (l + of_int (60 * n))"])
        (auto simp: run l algebra_simps)
  qed
  with run show ?thesis by auto
qed

section \<open>The tick\<close>

lemma next_run_after:
  assumes "loaded_schedule sch" and "last_run \<noteq> JNull" and "next_run_at off sch now last_run = Inr t"
    and "t \<noteq> JNull"
  shows "\<exists>q. instant t = Inr q \<and> now < q"
proof -
  have en: "truthy (dget_or sch ''enabled'' JNull)"
    using assms(3,4) by (auto simp: next_run_at_def split: if_splits)
  show ?thesis
  proof (cases "dget_or sch ''mode'' JNull = JStr ''interval''")
    case True
    obtain n where n: "dget sch ''interval_min'' = Some (JInt n)"
      using assms(1) by (rule loaded_parts)
    obtain md where md: "dget sch ''mode'' = Some (JStr md)"
      using assms(1) by (rule loaded_parts)
    with True assms(2,3) en n obtain l where l: "instant last_run = Inr l"
      by (auto simp: next_run_at_def split: sum.splits)
    from next_run_interval [OF assms(1) en True, of n last_run off now] n l assms(2,3)
    show ?thesis by (auto simp: instant_def)
  next
    case False
    obtain md where md: "dget sch ''mode'' = Some (JStr md)"
      using assms(1) by (rule loaded_parts)
    with False assms(3,4) en have v: "valid_hhmm (dget_or sch ''at'' JNull)"
      by (auto simp: next_run_at_def split: if_splits)
    have "\<exists>a. anchor_of now last_run = Inr a"
      using assms(3) en md False v by (auto simp: next_run_at_def split: sum.splits)
    then obtain a where a: "anchor_of now last_run = Inr a" ..
    then have "now \<le> a" using assms(2) by (auto simp: anchor_of_def split: sum.splits)
    with next_run_slot [OF assms(1) en False v a, of off] assms(3) show ?thesis
      by (auto simp: instant_def Let_def)
  qed
qed

text \<open>A loaded schedule never makes \<open>next_run_at\<close> raise, as long as the previous slot is a number.\<close>

lemma next_run_total:
  assumes "loaded_schedule sch" and "last_run = JNull \<or> instant last_run = Inr q"
  shows "\<exists>t. next_run_at off sch now last_run = Inr t \<and>
    (t = JNull \<longleftrightarrow> \<not> truthy (dget_or sch ''enabled'' JNull) \<or>
      (dget_or sch ''mode'' JNull \<noteq> JStr ''interval'' \<and> \<not> valid_hhmm (dget_or sch ''at'' JNull)))"
proof -
  obtain n md where sch: "dget sch ''interval_min'' = Some (JInt n)" "dget sch ''mode'' = Some (JStr md)"
    using assms(1) by (rule loaded_parts)
  have a: "\<exists>a. anchor_of now last_run = Inr a" using assms(2) by (auto simp: anchor_of_def)
  show ?thesis
  proof (cases "truthy (dget_or sch ''enabled'' JNull) \<and> md \<noteq> ''interval'' \<and> valid_hhmm (dget_or sch ''at'' JNull)")
    case True
    with a next_run_slot [OF assms(1)] sch show ?thesis by fastforce
  next
    case False
    with assms(2) sch show ?thesis by (auto simp: next_run_at_def Let_def)
  qed
qed

lemma tick_fires:
  assumes "scheduler_tick ready f off dir environ now st = (st', Some s)"
  obtains sch ws es state t where "load_schedule dir environ st = Some (sch, ws, es)"
    "persisted st (state_path dir SCHEDULE_FILE) = Some state" "truthy (dget_or sch ''enabled'' JNull)"
    "dget_or state ''next_run'' JNull = s" "truthy s" "schedule_due sch now s = Inr True"
    "next_run_at off sch now s = Inr t" "ready"
    "st' = fst (write_json f (state_path dir SCHEDULE_FILE)
       (JDict (dset ''next_run'' t (dset ''last_run'' s state))) st)"
proof -
  from assms obtain sch ws es where sch: "load_schedule dir environ st = Some (sch, ws, es)"
    by (cases "load_schedule dir environ st") (auto simp: scheduler_tick_def)
  from assms sch obtain state where state: "persisted st (state_path dir SCHEDULE_FILE) = Some state"
    by (cases "persisted st (state_path dir SCHEDULE_FILE)") (auto simp: scheduler_tick_def)
  from assms sch state that show ?thesis
    by (auto simp: scheduler_tick_def Let_def split: if_splits sum.splits bool.splits)
qed

lemma instant_float: "instant v = Inr q \<Longrightarrow> py_float v = Inr (Finite q)"
  unfolding instant_def rbind_eq_Inr by (elim exE conjE, case_tac x) auto

lemma due_le: "schedule_due sch now s = Inr True \<Longrightarrow> instant s = Inr q \<Longrightarrow> q \<le> now"
  by (auto simp: schedule_due_def instant_def rbind_eq_Inr split: if_splits pyfloat.splits)

text \<open>Settings of the store that a tick leaves: the schedule itself is not touched.\<close>

lemma norm_key_cong:
  "dget vs (fst ki) = dget vs' (fst ki) \<Longrightarrow> norm_key vs base st ki = norm_key vs' base st ki"
  by (cases ki; cases st) (simp add: norm_key_def)

lemma norm_keys_cong:
  assumes "\<And>k. k \<in> set (map fst spec) \<Longrightarrow> dget vs k = dget vs' k"
  shows "norm_keys spec vs base = norm_keys spec vs' base"
proof -
  have "foldl (norm_key vs base) st spec = foldl (norm_key vs' base) st spec" for st
    using assms
  proof (induction spec arbitrary: st)
    case (Cons ki spec)
    then have "norm_key vs base st ki = norm_key vs' base st ki" by (intro norm_key_cong) simp
    with Cons show ?case by simp
  qed simp
  then show ?thesis by (simp add: norm_keys_def)
qed

lemma normalize_schedule_cong:
  assumes "\<And>k. k \<in> set (map fst SCHEDULE_SPEC) \<Longrightarrow> dget vs k = dget vs' k"
  shows "normalize_schedule vs base = normalize_schedule vs' base"
  using norm_keys_cong [of SCHEDULE_SPEC vs vs' base] assms
  by (simp add: normalize_schedule_def normalize_def)

lemma dget_dpop [simp]: "dget (dpop k d) k' = (if k' = k then None else dget d k')"
  by (simp add: dget_def dpop_def delete_conv')

lemma slots_not_in_spec: "''next_run'' \<notin> set (map fst SCHEDULE_SPEC)" "''last_run'' \<notin> set (map fst SCHEDULE_SPEC)"
  by (simp_all add: SCHEDULE_SPEC_def)

section \<open>Properties\<close>

text \<open>
  Property C9. In the daily and weekly modes \<open>next_run_at\<close> returns the first instant after the anchor (the
  later of now and the previous slot) whose local time of day is exactly the configured one and, in
  the weekly mode, whose day is one of the configured days. Such an instant always exists, at most one
  day (one week) after the anchor, so the search over nine days never comes back empty.
\<close>

theorem next_run_least_slot:
  assumes "loaded_schedule sch" and "truthy (dget_or sch ''enabled'' JNull)"
    and "dget_or sch ''mode'' JNull \<noteq> JStr ''interval''" and "valid_hhmm (dget_or sch ''at'' JNull)"
    and "anchor_of now last_run = Inr a"
  shows "\<exists>h m c. hour_minute (dget_or sch ''at'' JNull) = Inr (h, m) \<and>
    next_run_at off sch now last_run = Inr (JInt c) \<and> a < of_int c \<and> at_time off c h m \<and>
    (let weekly = (dget_or sch ''mode'' JNull = JStr ''weekly'');
         days = as_json_list (dget_or sch ''days'' JNull)
     in admitted off weekly days c \<and> of_int c \<le> a + of_int (DAY * (if weekly then 7 else 1)) \<and>
        (\<forall>c'. a < of_int c' \<and> at_time off c' h m \<and> admitted off weekly days c' \<longrightarrow> c \<le> c'))"
  by (rule next_run_slot [OF assms])

theorem next_run_least_slot_witness:
  "\<exists>c. next_run_at 10800 (fst (normalize_schedule [(''enabled'', JBool True), (''mode'', JStr ''weekly''),
      (''days'', JStr ''sat,sun''), (''at'', JStr ''4:05'')] (schedule_env (\<lambda>_. None)))) 1700000000 JNull = Inr (JInt c) \<and>
    at_time 10800 c 4 5 \<and> 1700000000 < c"
proof -
  let ?sch = "fst (normalize_schedule [(''enabled'', JBool True), (''mode'', JStr ''weekly''),
      (''days'', JStr ''sat,sun''), (''at'', JStr ''4:05'')] (schedule_env (\<lambda>_. None)))"
  have 1: "loaded_schedule ?sch" by (rule normalized_loaded [OF schedule_env_wf])
  have 2: "truthy (dget_or ?sch ''enabled'' JNull)"
    and 3: "dget_or ?sch ''mode'' JNull \<noteq> JStr ''interval''"
    and 4: "valid_hhmm (dget_or ?sch ''at'' JNull)"
    and hm: "hour_minute (dget_or ?sch ''at'' JNull) = Inr (4, 5)"
    by code_simp+
  have 5: "anchor_of 1700000000 JNull = Inr 1700000000" by (simp add: anchor_of_def)
  from next_run_least_slot [OF 1 2 3 4 5, of 10800] hm show ?thesis by (auto simp: of_int_less_iff [of 1700000000, simplified])
qed

text \<open>
  Property C10. In the interval mode the first run is now (with \<open>run_on_start\<close>) or one interval from now;
  later ones lie on the grid of the previous slot: the next instant is the previous one plus a whole
  number of intervals, in the future, and at most one interval away unless it is the immediate
  successor. A long outage is skipped over and never produces a burst of runs; the loop terminates.
\<close>

theorem next_run_interval_grid:
  assumes "loaded_schedule sch" and "truthy (dget_or sch ''enabled'' JNull)"
    and "dget_or sch ''mode'' JNull = JStr ''interval''" and "dget_or sch ''interval_min'' JNull = JInt n"
  shows "(last_run = JNull \<longrightarrow> next_run_at off sch now last_run =
      Inr (JFloat (Finite (if truthy (dget_or sch ''run_on_start'' JNull) then now else now + of_int (60 * n))))) \<and>
    (\<forall>l. last_run \<noteq> JNull \<and> instant last_run = Inr l \<longrightarrow>
      (\<exists>k t. 1 \<le> k \<and> t = l + of_nat k * of_int (60 * n) \<and> next_run_at off sch now last_run = Inr (JFloat (Finite t)) \<and>
        now < t \<and> (k = 1 \<or> t \<le> now + of_int (60 * n))))"
  by (rule next_run_interval [OF assms])

theorem next_run_interval_grid_witness:
  "\<exists>k t. 1 \<le> k \<and> t = 1000 + of_nat k * 3600 \<and> 500000 < t \<and>
    next_run_at 0 (fst (normalize_schedule [(''enabled'', JBool True), (''mode'', JStr ''interval''),
      (''interval_min'', JInt 60)] (schedule_env (\<lambda>_. None)))) 500000 (JInt 1000) = Inr (JFloat (Finite t))"
proof -
  let ?sch = "fst (normalize_schedule [(''enabled'', JBool True), (''mode'', JStr ''interval''),
      (''interval_min'', JInt 60)] (schedule_env (\<lambda>_. None)))"
  have 1: "loaded_schedule ?sch" by (rule normalized_loaded [OF schedule_env_wf])
  have 2: "truthy (dget_or ?sch ''enabled'' JNull)"
    and 3: "dget_or ?sch ''mode'' JNull = JStr ''interval''"
    and 4: "dget_or ?sch ''interval_min'' JNull = JInt 60"
    by code_simp+
  from next_run_interval_grid [OF 1 2 3 4, of "JInt 1000" 0 500000]
  show ?thesis by (auto simp: instant_def)
qed

text \<open>
  Property C11. A slot fires once: when a tick fires a slot and the new state is written, the slot is
  recorded as the last run, and whatever a later tick fires is a slot after that tick's time, so
  neither the same slot nor a slot missed before it is ever fired again.
\<close>

theorem scheduler_fires_once:
  assumes "scheduler_tick ready NoFault off dir environ now st = (st1, Some s)"
    and "scheduler_tick ready' f off dir environ' now' st1 = (st2, Some s')"
  shows "\<exists>state q'. persisted st1 (state_path dir SCHEDULE_FILE) = Some state \<and>
    dget state ''last_run'' = Some s \<and> dget state ''next_run'' = Some s' \<and>
    instant s' = Inr q' \<and> now < q' \<and> q' \<le> now'"
proof -
  let ?path = "state_path dir SCHEDULE_FILE"
  from assms(1) obtain sch ws es state t where 1: "load_schedule dir environ st = Some (sch, ws, es)"
    "truthy s" "next_run_at off sch now s = Inr t"
    "st1 = fst (write_json NoFault ?path (JDict (dset ''next_run'' t (dset ''last_run'' s state))) st)"
    by (rule tick_fires)
  let ?state = "dset ''next_run'' t (dset ''last_run'' s state)"
  obtain ok where "write_json NoFault ?path (JDict ?state) st = (st1, ok)"
    using 1(4) by (metis prod.collapse)
  with write_json_ok [OF this] have per: "persisted st1 ?path = Some ?state" by (simp add: persisted_written)
  from assms(2) obtain sch' where 2: "dget_or ?state ''next_run'' JNull = s'" "truthy s'"
    "schedule_due sch' now' s' = Inr True"
    using per by (elim tick_fires) auto
  then have t: "t = s'" by simp
  have "s \<noteq> JNull" "s' \<noteq> JNull" using 1(2) 2(2) by auto
  with next_run_after [OF load_schedule_loaded [OF 1(1)] _ 1(3)] t obtain q' where
    q': "instant s' = Inr q'" "now < q'" by auto
  with due_le [OF 2(3)] per t show ?thesis by simp
qed

theorem scheduler_fires_once_witness:
  "\<exists>st st1 st2 s s' state q'.
    scheduler_tick True NoFault 0 ''/s'' (\<lambda>_. None) 100000 st = (st1, Some s) \<and>
    scheduler_tick True NoFault 0 ''/s'' (\<lambda>_. None) 200000 st1 = (st2, Some s') \<and>
    persisted st1 (state_path ''/s'' SCHEDULE_FILE) = Some state \<and> dget state ''last_run'' = Some s \<and>
    instant s' = Inr q' \<and> 100000 < q'"
proof -
  let ?st = "(\<lambda>_. None)(state_path ''/s'' SCHEDULE_FILE \<mapsto> Json (JDict
    [(''enabled'', JBool True), (''at'', JStr ''04:00''), (''next_run'', JInt 99999)]))"
  have 1: "snd (scheduler_tick True NoFault 0 ''/s'' (\<lambda>_. None) 100000 ?st) = Some (JInt 99999)"
    by code_simp
  have 2: "snd (scheduler_tick True NoFault 0 ''/s'' (\<lambda>_. None) 200000
      (fst (scheduler_tick True NoFault 0 ''/s'' (\<lambda>_. None) 100000 ?st))) = Some (JInt 100800)"
    by code_simp
  from 1 obtain st1 where st1: "scheduler_tick True NoFault 0 ''/s'' (\<lambda>_. None) 100000 ?st = (st1, Some (JInt 99999))"
    by (metis prod.collapse)
  with 2 obtain st2 where st2: "scheduler_tick True NoFault 0 ''/s'' (\<lambda>_. None) 200000 st1 = (st2, Some (JInt 100800))"
    by (metis fst_conv prod.collapse)
  from scheduler_fires_once [OF st1 st2] st1 st2 show ?thesis by blast
qed

text \<open>
  The tick ignores a failed write of the state file: as long as the file cannot be written,
  every later tick fires the same slot again.
\<close>

theorem unwritten_slot_fires_again:
  assumes "scheduler_tick ready f off dir environ now st = (st', Some s)" and "f \<noteq> NoFault"
    and "now \<le> now'" and "instant s = Inr q" and "ready'"
  shows "\<exists>st''. scheduler_tick ready' g off dir environ now' st' = (st'', Some s)"
proof -
  let ?path = "state_path dir SCHEDULE_FILE"
  from assms(1) obtain sch ws es state t where 1: "load_schedule dir environ st = Some (sch, ws, es)"
    "persisted st ?path = Some state" "truthy (dget_or sch ''enabled'' JNull)"
    "dget_or state ''next_run'' JNull = s" "truthy s" "schedule_due sch now s = Inr True"
    "next_run_at off sch now s = Inr t"
    "st' = fst (write_json f ?path (JDict (dset ''next_run'' t (dset ''last_run'' s state))) st)"
    by (rule tick_fires)
  obtain ok where w: "write_json f ?path (JDict (dset ''next_run'' t (dset ''last_run'' s state))) st = (st', ok)"
    using 1(8) by (metis prod.collapse)
  with write_json_ok [OF w] assms(2) have per: "persisted st' ?path = Some state"
    using 1(2) by (simp add: persisted_written)
  then have load: "load_schedule dir environ st' = Some (sch, ws, es)"
    using 1(1,2) by (simp add: schedule_file.load_eq)
  have due: "schedule_due sch now' s = Inr True"
    using 1(3,5,6) assms(3) instant_float [OF assms(4)]
    by (auto simp: schedule_due_def rbind_eq_Inr split: if_splits)
  obtain t' where "next_run_at off sch now' s = Inr t'"
    using next_run_total [OF load_schedule_loaded [OF 1(1)], of s q] assms(4) by blast
  with 1(3,4,5) due per load assms(5) show ?thesis
    by (auto simp: scheduler_tick_def Let_def)
qed

theorem unwritten_slot_fires_again_witness:
  "\<exists>st st' st''. scheduler_tick True OpenFails 0 ''/s'' (\<lambda>_. None) 100000 st = (st', Some (JInt 99999)) \<and>
    scheduler_tick True OpenFails 0 ''/s'' (\<lambda>_. None) 100015 st' = (st'', Some (JInt 99999))"
proof -
  let ?st = "(\<lambda>_. None)(state_path ''/s'' SCHEDULE_FILE \<mapsto> Json (JDict
    [(''enabled'', JBool True), (''at'', JStr ''04:00''), (''next_run'', JInt 99999)]))"
  have "snd (scheduler_tick True OpenFails 0 ''/s'' (\<lambda>_. None) 100000 ?st) = Some (JInt 99999)"
    by code_simp
  then obtain st1 where st1: "scheduler_tick True OpenFails 0 ''/s'' (\<lambda>_. None) 100000 ?st = (st1, Some (JInt 99999))"
    by (metis prod.collapse)
  have "instant (JInt 99999) = Inr 99999" by (simp add: instant_def)
  from unwritten_slot_fires_again [OF st1 _ _ this, of 100015 True OpenFails] st1 show ?thesis by auto
qed

text \<open>
  Changing the schedule through the panel re-arms it: after the route has saved and written,
  the stored slot is gone, the last run is kept, and the loader returns exactly the schedule the
  route answered with.
\<close>

theorem post_schedule_rearms:
  assumes "post_schedule NoFault NoFault dir environ values st = Some (st', res, True)"
  shows "\<exists>state. persisted st' (state_path dir SCHEDULE_FILE) = Some state \<and>
    dget state ''next_run'' = None \<and> load_schedule dir environ st' = Some res"
proof -
  let ?path = "state_path dir SCHEDULE_FILE"
  from assms obtain st1 state where 1: "save_schedule NoFault dir environ values st = Some (st1, res, True)"
    "persisted st1 ?path = Some state" "st' = fst (write_json NoFault ?path (JDict (dpop ''next_run'' state)) st1)"
    by (auto simp: post_schedule_def split: option.splits if_splits)
  obtain ok where w: "write_json NoFault ?path (JDict (dpop ''next_run'' state)) st1 = (st', ok)"
    using 1(3) by (metis prod.collapse)
  with write_json_ok [OF w] have per: "persisted st' ?path = Some (dpop ''next_run'' state)"
    by (simp add: persisted_written)
  have "normalize_schedule (dpop ''next_run'' state) (schedule_env environ) =
      normalize_schedule state (schedule_env environ)"
    by (rule normalize_schedule_cong) (metis dget_dpop slots_not_in_spec(1))
  with schedule_file.save_then_load [OF 1(1) TrueI] per 1(2)
  have "load_schedule dir environ st' = Some res" by (simp add: schedule_file.load_eq)
  with per show ?thesis by auto
qed

theorem post_schedule_rearms_witness:
  "\<exists>st' res state. post_schedule NoFault NoFault ''/s'' (\<lambda>_. None) [(''at'', JStr ''07:00'')]
      ((\<lambda>_. None)(state_path ''/s'' SCHEDULE_FILE \<mapsto> Json (JDict [(''next_run'', JInt 99999)]))) = Some (st', res, True) \<and>
    persisted st' (state_path ''/s'' SCHEDULE_FILE) = Some state \<and> dget state ''next_run'' = None"
proof -
  let ?st = "(\<lambda>_. None)(state_path ''/s'' SCHEDULE_FILE \<mapsto> Json (JDict [(''next_run'', JInt 99999)]))"
  have "(case post_schedule NoFault NoFault ''/s'' (\<lambda>_. None) [(''at'', JStr ''07:00'')] ?st of
      None \<Rightarrow> False | Some (st', res, ok) \<Rightarrow> ok)"
    by code_simp
  then obtain st' res where p: "post_schedule NoFault NoFault ''/s'' (\<lambda>_. None) [(''at'', JStr ''07:00'')] ?st = Some (st', res, True)"
    by (auto split: option.splits)
  from post_schedule_rearms [OF this] p show ?thesis by blast
qed

end
