(* ===== verification/FloatText.thy ===== *)
theory FloatText
  imports PyNumber
begin

text \<open>
  \<open>float(repr(x)) = x\<close> on the decimals: the text that Python prints for a float, in the fixed and in the
  scientific notation, is read back as the same float.
\<close>

section \<open>Decimals\<close>

definition decimal :: "rat \<Rightarrow> bool" where
  "decimal q = (\<exists>n k. q = of_int n / 10 ^ k)"

lemma scale10_powi: "scale10 q e = q * 10 powi e"
  by (simp add: scale10_def power_int_def field_simps)

lemma decimal_scale10 [simp]: "decimal (scale10 (of_int n) e)"
proof (cases "0 \<le> e")
  case True
  then have "scale10 (of_int n) e = of_int (n * 10 ^ nat e) / 10 ^ 0" by (simp add: scale10_def)
  then show ?thesis unfolding decimal_def by blast
next
  case False
  then have "scale10 (of_int n) e = of_int n / 10 ^ nat (- e)" by (simp add: scale10_def)
  then show ?thesis unfolding decimal_def by blast
qed

lemma decimal_of_int [simp]: "decimal (of_int n)"
  using decimal_scale10 [of n 0] by (simp add: scale10_def)

lemma decimal_minus: "decimal q \<Longrightarrow> decimal (- q)"
proof -
  assume "decimal q"
  then obtain n k where "q = of_int n / 10 ^ k" by (auto simp: decimal_def)
  then have "- q = of_int (- n) / 10 ^ k" by simp
  then show ?thesis unfolding decimal_def by blast
qed

lemma float_of_text_decimal: "float_of_text s = Some (Finite q) \<Longrightarrow> decimal q"
proof -
  assume s: "float_of_text s = Some (Finite q)"
  have d: "decimal r" if "decimal_of_text l = Some r" for l r
    using that by (auto simp: decimal_of_text_def Let_def split: option.splits if_splits)
  obtain sg t where t: "split_sign (strip s) = (sg, t)" by fastforce
  from s t obtain r where "decimal_of_text (lower t) = Some r" "q = r \<or> q = - r"
    by (auto simp: float_of_text_def Let_def split: if_splits)
  with d decimal_minus show ?thesis by blast
qed

section \<open>How many places a decimal needs\<close>

lemma count_factor_split:
  assumes "1 < p" and "0 < d"
  shows "\<exists>r. d = p ^ count_factor p d * r \<and> 0 < r \<and> \<not> p dvd r"
  using assms
proof (induction p d rule: count_factor.induct)
  case (1 p d)
  show ?case
  proof (cases "d mod p = 0")
    case True
    with 1 have "0 < d div p" by (metis dvd_imp_mod_0 mod_0_imp_dvd pos_imp_zdiv_pos_iff zdvd_imp_le less_trans zero_less_one)
    with 1 True obtain r where r: "d div p = p ^ count_factor p (d div p) * r" "0 < r" "\<not> p dvd r" by auto
    have "d = p * (d div p)" using True by (metis mult_div_mod_eq add.right_neutral)
    also have "p * (d div p) = p ^ Suc (count_factor p (d div p)) * r" using r(1) by simp
    also have "Suc (count_factor p (d div p)) = count_factor p d"
      using 1 True by (subst (2) count_factor.simps) simp
    finally show ?thesis using r(2,3) by blast
  next
    case False
    with 1 show ?thesis by (subst count_factor.simps) (auto simp: dvd_eq_mod_eq_0)
  qed
qed

lemma coprime_combination: "a * x + b * y = (1::int) \<Longrightarrow> coprime a b"
  by (rule coprimeI) (metis dvd_add dvd_mult2)

lemma coprime_five_two: "coprime (5 ^ b :: int) (2 ^ a)"
  using coprime_combination [of 5 1 2 "-2"] by simp

lemma coprime_five: "\<not> 5 dvd u \<Longrightarrow> coprime u (5::int)"
proof -
  assume "\<not> 5 dvd u"
  moreover define q where "q = u div 5"
  ultimately have "u = 5 * q + 1 \<or> u = 5 * q + 2 \<or> u = 5 * q + 3 \<or> u = 5 * q + 4" by presburger
  then show ?thesis
    using coprime_combination [of u 1 5 "- q"] coprime_combination [of u "-2" 5 "2 * q + 1"]
      coprime_combination [of u 2 5 "- 2 * q - 1"] coprime_combination [of u "-1" 5 "q + 1"] by auto
qed

lemma decimal_places_dvd:
  assumes "0 < d" and "d dvd 10 ^ k"
  shows "d dvd 10 ^ decimal_places d"
proof -
  let ?a = "count_factor 2 d" and ?b = "count_factor 5 d"
  obtain r where r: "d = 2 ^ ?a * r" "0 < r" "\<not> 2 dvd r" using count_factor_split [of 2 d] assms(1) by auto
  obtain s where s: "d = 5 ^ ?b * s" "\<not> 5 dvd s" using count_factor_split [of 5 d] assms(1) by auto
  have "5 ^ ?b dvd 2 ^ ?a * r" using r(1) s(1) by (metis dvd_triv_left)
  then have "5 ^ ?b dvd r" using coprime_five_two by (simp add: coprime_dvd_mult_right_iff)
  then obtain u where u: "r = 5 ^ ?b * u" by (elim dvdE)
  have d: "d = 2 ^ ?a * 5 ^ ?b * u" using r(1) u by (metis mult.assoc)
  have "\<not> 2 dvd u" using r(3) u by auto
  moreover have "\<not> 5 dvd u"
  proof
    assume "5 dvd u"
    have "5 ^ ?b * s = 5 ^ ?b * (2 ^ ?a * u)" using d s(1) by (metis mult.assoc mult.commute)
    then have "s = 2 ^ ?a * u" by simp
    with \<open>5 dvd u\<close> s(2) show False by auto
  qed
  ultimately have "coprime u 2" "coprime u 5"
    by (simp_all add: coprime_five)
  then have "coprime u (10 ^ k)" by (metis coprime_mult_right_iff coprime_power_right_iff mult_2 numeral_Bit0)
  moreover have "u dvd 10 ^ k" using assms(2) d by (metis dvd_mult_right dvd_trans dvd_refl)
  ultimately have "is_unit u" by (metis coprime_common_divisor dvd_refl)
  moreover have "2 ^ ?a * 5 ^ ?b dvd (10 :: int) ^ decimal_places d"
  proof -
    have "(10::int) ^ decimal_places d = 2 ^ decimal_places d * 5 ^ decimal_places d" by (simp flip: power_mult_distrib)
    then show ?thesis by (simp add: mult_dvd_mono le_imp_power_dvd decimal_places_def)
  qed
  ultimately show ?thesis using d by (metis mult_unit_dvd_iff)
qed

lemma decimal_digits:
  assumes "decimal q" and "quotient_of q = (n, d)"
  shows "of_int (n * 10 ^ decimal_places d div d) = q * 10 ^ decimal_places d"
proof -
  obtain m k where m: "q = of_int m / 10 ^ k" using assms(1) by (auto simp: decimal_def)
  have d: "0 < d" "coprime n d" "q = of_int n / of_int d"
    using assms(2) quotient_of_denom_pos quotient_of_coprime quotient_of_div by blast+
  have "(of_int (n * 10 ^ k) :: rat) = of_int (m * d)" using m d(1,3) by (simp add: field_simps)
  then have "n * 10 ^ k = m * d" by (simp only: of_int_eq_iff)
  then have "d dvd n * 10 ^ k" by simp
  with d(2) have "d dvd 10 ^ k" by (simp add: coprime_commute coprime_dvd_mult_right_iff)
  from decimal_places_dvd [OF d(1) this] obtain c where "10 ^ decimal_places d = d * c" by (elim dvdE)
  moreover from this have "(10::rat) ^ decimal_places d = of_int d * of_int c" by (metis of_int_mult of_int_numeral of_int_power)
  ultimately show ?thesis using d(1,3) by simp
qed

section \<open>Reading the printed text\<close>

lemma parse_append: "parse_digits (xs @ ys) = parse_digits xs * 10 ^ length ys + parse_digits ys"
proof (induction ys rule: rev_induct)
  case (snoc y ys)
  then show ?case unfolding append_assoc [symmetric] by (simp add: parse_digits_def algebra_simps)
qed (simp add: parse_digits_def)

lemma parse_zeros [simp]: "parse_digits (replicate k CHR ''0'') = 0"
proof (induction k)
  case (Suc k)
  then show ?case using parse_append [of "''0''" "replicate k CHR ''0''"] by (simp add: parse_digits_def digit_val_def ord_def)
qed (simp add: parse_digits_def)

lemma parse_zero_Cons [simp]: "parse_digits (CHR ''0'' # s) = parse_digits s"
  using parse_append [of "''0''" s] parse_zeros [of 1] by simp

lemma zeros_behind: "\<exists>z. s = rstrip (\<lambda>c. c = CHR ''0'') s @ replicate z CHR ''0''"
proof -
  let ?P = "\<lambda>c. c = CHR ''0''"
  have "takeWhile ?P (rev s) = replicate (length (takeWhile ?P (rev s))) CHR ''0''"
    by (rule replicate_eqI [symmetric, THEN sym]) (auto dest: set_takeWhileD)
  moreover have "s = rstrip ?P s @ rev (takeWhile ?P (rev s))"
    unfolding rstrip_def by (metis rev_append rev_rev_ident takeWhile_dropWhile_id)
  ultimately show ?thesis by (metis rev_replicate)
qed

text \<open>The texts that \<open>float\<close> reads: digits, maybe a point and digits, maybe an exponent.\<close>

definition digits :: "string \<Rightarrow> bool" where
  "digits s = list_all is_digit s"

lemma digits_append [simp]: "digits (s @ t) \<longleftrightarrow> digits s \<and> digits t"
  and digits_Cons [simp]: "digits (c # s) \<longleftrightarrow> is_digit c \<and> digits s"
  and digits_Nil [simp]: "digits []"
  and digits_zeros [simp]: "digits (replicate k CHR ''0'')"
  by (auto simp: digits_def list_all_iff is_digit_def ord_def)

lemma digits_take [simp]: "digits s \<Longrightarrow> digits (take k s)" and digits_drop [simp]: "digits s \<Longrightarrow> digits (drop k s)"
  by (auto simp: digits_def list_all_iff dest: in_set_takeD in_set_dropD)

lemma digits_show_pos [simp]: "0 \<le> n \<Longrightarrow> digits (show_pos n)"
  using show_pos_digits by (simp add: digits_def list_all_iff)

lemma digits_no: "digits s \<Longrightarrow> CHR ''e'' \<notin> set s \<and> CHR ''.'' \<notin> set s"
  by (auto simp: digits_def list_all_iff is_digit_def ord_def)

lemma digits_run: "digits s \<Longrightarrow> (if s = [] then Some [] else digit_run s) = Some s"
  by (simp add: digits_def digit_run_digits)

lemma decimal_of_fixed:
  "digits i \<Longrightarrow> digits f \<Longrightarrow> i \<noteq> [] \<Longrightarrow>
     decimal_of_text (i @ CHR ''.'' # f) = Some (scale10 (of_int (parse_digits (i @ f))) (- int (length f)))"
  using digits_no [of i] digits_no [of f] digits_run [of i] digits_run [of f]
  by (cases "f = []") (simp_all add: decimal_of_text_def Let_def)

lemma decimal_of_scientific:
  assumes "digits i" "digits f" "i \<noteq> []" "digits x" "x \<noteq> []" and m: "m = i @ (if f = [] then [] else CHR ''.'' # f)"
  shows "decimal_of_text (m @ CHR ''e'' # (if neg then CHR ''-'' else CHR ''+'') # x) =
    Some (scale10 (of_int (parse_digits (i @ f))) ((if neg then - parse_digits x else parse_digits x) - int (length f)))"
proof -
  have e: "CHR ''e'' \<notin> set m" using m digits_no [OF assms(1)] digits_no [OF assms(2)] by simp
  have parts: "before CHR ''.'' m = i" "after CHR ''.'' m = f" using m digits_no [OF assms(1)] by auto
  have s: "split_sign ((if neg then CHR ''-'' else CHR ''+'') # x) = (if neg then -1 else 1, x)" by (simp add: split_sign_def)
  have x: "digit_run x = Some x" using assms(4,5) by (simp add: digits_def digit_run_digits)
  show ?thesis
    using assms(1-3) digits_run [OF assms(1)] digits_run [OF assms(2)]
    by (cases "f = []") (simp_all add: decimal_of_text_def Let_def e parts s x)
qed

definition float_char :: "char \<Rightarrow> bool" where
  "float_char c = (is_digit c \<or> c \<in> set ''.e+-'')"

lemma digits_float: "digits s \<Longrightarrow> list_all float_char s"
  by (auto simp: digits_def list_all_iff float_char_def)

lemma float_char_plain: "float_char c \<Longrightarrow> lower_char c = c \<and> \<not> is_space c"
  by (auto simp: float_char_def lower_char_def is_space_def is_digit_def ord_def Let_def)

lemma float_of_plain:
  assumes "list_all float_char (c # s)" and "is_digit c"
  shows "float_of_text (c # s) = map_option Finite (decimal_of_text (c # s))"
    and "float_of_text (CHR ''-'' # c # s) = map_option (\<lambda>q. Finite (- q)) (decimal_of_text (c # s))"
proof -
  have l: "lower (c # s) = c # s" using assms(1) float_char_plain by (simp add: lower_def list_all_iff map_idI)
  have st: "strip (c # s) = c # s" "strip (CHR ''-'' # c # s) = CHR ''-'' # c # s"
    using assms(1) float_char_plain by (auto intro!: strip_no_space simp: list_all_iff)
  have "c \<noteq> CHR ''i''" "c \<noteq> CHR ''n''" using assms(2) by (auto simp: is_digit_def ord_def)
  then show "float_of_text (c # s) = map_option Finite (decimal_of_text (c # s))"
    and "float_of_text (CHR ''-'' # c # s) = map_option (\<lambda>q. Finite (- q)) (decimal_of_text (c # s))"
    using is_digit_not_sign [OF assms(2)] by (simp_all add: float_of_text_def st split_sign_def l comp_def)
qed

text \<open>The text of a positive decimal, by its digits \<open>ds\<close> and the place \<open>p\<close> of the point.\<close>

definition place_point :: "string \<Rightarrow> int \<Rightarrow> string" where
  "place_point ds p =
     (if -4 < p \<and> p \<le> 16 then
        (if p \<le> 0 then ''0.'' @ replicate (nat (- p)) CHR ''0'' @ ds
         else if int (length ds) \<le> p then ds @ replicate (nat p - length ds) CHR ''0'' @ ''.0''
         else take (nat p) ds @ ''.'' @ drop (nat p) ds)
      else (take 1 ds @ (if length ds = 1 then [] else CHR ''.'' # drop 1 ds)
             @ ''e'' @ (if p - 1 < 0 then ''-'' else ''+'')
             @ (if \<bar>p - 1\<bar> < 10 then ''0'' else []) @ show_pos \<bar>p - 1\<bar>))"

lemma decimal_of_placed:
  assumes "digits ds" and "ds \<noteq> []"
  shows "decimal_of_text (place_point ds p) = Some (of_int (parse_digits ds) * 10 powi (p - int (length ds)))"
proof -
  consider "-4 < p" "p \<le> 0" | "0 < p" "p \<le> 16" "int (length ds) \<le> p" | "0 < p" "p \<le> 16" "p < int (length ds)" | "\<not> (-4 < p \<and> p \<le> 16)"
    by linarith
  then show ?thesis
  proof cases
    case 1
    have "digits ''0''" by (simp add: is_digit_def ord_def)
    moreover have "parse_digits (replicate (nat (- p)) CHR ''0'' @ ds) = parse_digits ds" by (simp add: parse_append)
    ultimately show ?thesis using decimal_of_fixed [of "''0''" "replicate (nat (- p)) CHR ''0'' @ ds"] 1 assms
      by (simp add: place_point_def scale10_powi)
  next
    case 2
    define k where "k = nat p - length ds"
    have k: "p - int (length ds) = int k" using 2 by (simp add: k_def)
    have "digits ''0''" by (simp add: is_digit_def ord_def)
    from decimal_of_fixed [OF _ this, of "ds @ replicate k CHR ''0''"] assms
    have "decimal_of_text (ds @ replicate k CHR ''0'' @ ''.0'') = Some (scale10 (of_int (parse_digits ((ds @ replicate k CHR ''0'') @ ''0''))) (- 1))"
      by simp
    moreover have "parse_digits ((ds @ replicate k CHR ''0'') @ ''0'') = parse_digits ds * 10 ^ k * 10"
      using parse_zeros [of 1] by (simp add: parse_append)
    ultimately show ?thesis using 2 unfolding k by (simp add: place_point_def k_def [symmetric] scale10_powi)
  next
    case 3
    from decimal_of_fixed [of "take (nat p) ds" "drop (nat p) ds"] assms 3
    have "decimal_of_text (place_point ds p) = Some (scale10 (of_int (parse_digits ds)) (- int (length (drop (nat p) ds))))"
      by (simp add: place_point_def)
    moreover have "- int (length (drop (nat p) ds)) = p - int (length ds)" using 3 by simp
    ultimately show ?thesis by (simp only: scale10_powi)
  next
    case 4
    let ?x = "(if \<bar>p - 1\<bar> < 10 then ''0'' else []) @ show_pos \<bar>p - 1\<bar>"
    have x: "digits ?x" "?x \<noteq> []" "parse_digits ?x = \<bar>p - 1\<bar>"
      by (auto simp: is_digit_def ord_def)
    have m: "take 1 ds @ (if length ds = 1 then [] else CHR ''.'' # drop 1 ds) =
        take 1 ds @ (if drop 1 ds = [] then [] else CHR ''.'' # drop 1 ds)" using assms(2) by (cases ds) auto
    have "place_point ds p = (take 1 ds @ (if drop 1 ds = [] then [] else CHR ''.'' # drop 1 ds)) @ CHR ''e'' #
        (if p - 1 < 0 then CHR ''-'' else CHR ''+'') # ?x"
      unfolding m [symmetric] using 4 by (auto simp: place_point_def)
    with decimal_of_scientific [OF digits_take digits_drop _ x(1,2) refl, OF assms(1) assms(1), of 1 1 "p - 1 < 0"] assms(2)
    have "decimal_of_text (place_point ds p) = Some (scale10 (of_int (parse_digits (take 1 ds @ drop 1 ds)))
        ((if p - 1 < 0 then - parse_digits ?x else parse_digits ?x) - int (length (drop 1 ds))))" by simp
    moreover have "(if p - 1 < 0 then - parse_digits ?x else parse_digits ?x) - int (length (drop 1 ds)) = p - int (length ds)"
      using x(3) assms(2) by (cases ds) auto
    ultimately show ?thesis by (simp only: scale10_powi append_take_drop_id)
  qed
qed

lemma placed_chars:
  assumes "digits ds" and "ds \<noteq> []"
  shows "list_all float_char (place_point ds p) \<and> (\<exists>c s. place_point ds p = c # s \<and> is_digit c)"
proof -
  obtain d ds' where ds: "ds = d # ds'" "is_digit d" using assms by (cases ds) auto
  have z: "is_digit CHR ''0''" by (simp add: is_digit_def ord_def)
  have fc: "float_char c" if "c \<in> set ''.e+-''" for c using that by (simp add: float_char_def)
  have "list_all float_char (place_point ds p)"
    using assms(1) digits_float [of "show_pos \<bar>p - 1\<bar>"] digits_float [of ds] digits_float [of "take k ds" for k] digits_float [of "drop k ds" for k]
      digits_float [OF digits_zeros] fc z
    by (simp add: place_point_def) (simp add: float_char_def)
  moreover have "\<exists>c s. place_point ds p = c # s \<and> is_digit c"
    using ds z by (cases "nat p") (auto simp: place_point_def)
  ultimately show ?thesis by blast
qed

theorem float_of_show:
  assumes "decimal q"
  shows "float_of_text (show_float (Finite q)) = Some (Finite q)"
proof -
  have pos: "list_all float_char (show_float_pos q) \<and> (\<exists>c s. show_float_pos q = c # s \<and> is_digit c) \<and> decimal_of_text (show_float_pos q) = Some q"
    if "decimal q" "0 \<le> q" for q
  proof (cases "q = 0")
    case True
    have "decimal_of_text ''0.0'' = Some 0" by code_simp
    with True show ?thesis by (simp add: show_float_pos_def float_char_def is_digit_def ord_def split: prod.split)
  next
    case False
    obtain n d where nd: "quotient_of q = (n, d)" by fastforce
    define k N where "k = decimal_places d" and "N = n * 10 ^ k div d"
    have N: "of_int N = q * 10 ^ k" unfolding N_def k_def by (rule decimal_digits [OF \<open>decimal q\<close> nd])
    with \<open>0 \<le> q\<close> have "(0::rat) \<le> of_int N" by simp
    then have N0: "0 \<le> N" by (simp only: of_int_0_le_iff)
    have Nz: "N \<noteq> 0" using N False by auto
    define ds where "ds = rstrip (\<lambda>c. c = CHR ''0'') (show_pos N)"
    obtain z where z: "show_pos N = ds @ replicate z CHR ''0''" using zeros_behind unfolding ds_def by blast
    have ds: "digits ds" using digits_show_pos [OF N0] unfolding z by simp
    have parse: "N = parse_digits ds * 10 ^ z" using parse_show_pos [OF N0] unfolding z parse_append by simp
    have "ds \<noteq> []" using Nz parse by (auto simp: parse_digits_def)
    define p where "p = int (length (show_pos N)) - int k"
    have shown: "show_float_pos q = place_point ds p"
      using False by (simp add: show_float_pos_def nd Let_def place_point_def ds_def p_def N_def k_def)
    have "p - int (length ds) = int z - int k" by (simp add: p_def z)
    then have "of_int (parse_digits ds) * 10 powi (p - int (length ds)) = (of_int N :: rat) / 10 ^ k"
      by (simp add: parse power_int_diff)
    also have "\<dots> = q" using N by simp
    finally show ?thesis using shown decimal_of_placed [OF ds \<open>ds \<noteq> []\<close>, of p] placed_chars [OF ds \<open>ds \<noteq> []\<close>, of p] by simp
  qed
  show ?thesis
  proof (cases "q < 0")
    case True
    then obtain c s where "show_float_pos (- q) = c # s" "is_digit c" "list_all float_char (c # s)" "decimal_of_text (c # s) = Some (- q)"
      using pos [OF decimal_minus [OF assms]] by auto
    with True float_of_plain(2) [of c s] show ?thesis by (simp add: show_float_def)
  next
    case False
    then obtain c s where "show_float_pos q = c # s" "is_digit c" "list_all float_char (c # s)" "decimal_of_text (c # s) = Some q"
      using pos [OF assms] by auto
    with False float_of_plain(1) [of c s] show ?thesis by (simp add: show_float_def)
  qed
qed

lemma float_of_text_strip [simp]: "float_of_text (strip s) = float_of_text s"
  by (simp add: float_of_text_def)

end
