(* ===== verification/Harness.thy ===== *)
theory Harness
  imports Runner Schedule FloatText
begin

text \<open>
  \<^verbatim>\<open>src/blockcheck.py\<close>, the command line of the harness: reading the settings file of a run, and the commands
  \<open>defaults\<close>, \<open>plan\<close>, \<open>run\<close> and \<open>next\<close>. Settings that were normalized once pass the harness's own
  normalization unchanged.
\<close>

section \<open>The commands\<close>

text \<open>A settings file that holds no dictionary is outside the model (\<open>None\<close>).\<close>

definition settings_from_file :: "(string \<Rightarrow> string option) \<Rightarrow> store \<Rightarrow> string \<Rightarrow> outcome option" where
  "settings_from_file environ st path = (case persisted st path of None \<Rightarrow> None
     | Some d \<Rightarrow> Some (normalize_settings d (settings_env environ)))"

datatype cli_answer = Help | Defaults "json dict" "json dict" | Usage string
  | RefusedSettings "problem list" "warning list" | PlanPrinted "warning list" full_plan
  | RunPrinted "warning list" run_result | NextPrinted "json dict" "warning list" "problem list" json string
  | UnknownCommand string

text \<open>\<open>float(argv[2])\<close> where an instant is needed.\<close>

definition instant_arg :: "string \<Rightarrow> rat result" where
  "instant_arg t = instant (JStr t)"

definition next_command :: "(string \<Rightarrow> string option) \<Rightarrow> int \<Rightarrow> string list \<Rightarrow> run_world \<Rightarrow> cli_answer result" where
  "next_command environ off argv w =
     (case (if 1 < length argv then read_json (rw_store w) (argv ! 1) (JDict []) else JDict []) of
        JDict d \<Rightarrow> (case normalize_schedule d (schedule_env environ) of (schedule, ws, es) \<Rightarrow>
          (case (if 2 < length argv then instant_arg (argv ! 2) else Inr (rw_now w)) of Inl e \<Rightarrow> Inl e
           | Inr now \<Rightarrow> (case next_run_at off schedule now (dget_or d ''last_run'' JNull) of Inl e \<Rightarrow> Inl e
             | Inr stamp \<Rightarrow> (case format_local off stamp of Inl e \<Rightarrow> Inl e
               | Inr t \<Rightarrow> Inr (NextPrinted schedule ws es stamp t)))))
      | _ \<Rightarrow> Inl AttributeError)"

definition harness_main ::
  "engine \<Rightarrow> (string \<Rightarrow> json option) \<Rightarrow> bool \<Rightarrow> bool \<Rightarrow> fault \<Rightarrow> (string \<Rightarrow> string option) \<Rightarrow> int \<Rightarrow> string list \<Rightarrow> run_world
    \<Rightarrow> (int \<times> cli_answer \<times> run_world) result"
where
  "harness_main eng loads dirs_ok log_ok f environ off argv w = (case argv of
       [] \<Rightarrow> Inr (0, Help, w)
     | command # args \<Rightarrow>
         if command = ''-h'' \<or> command = ''--help'' then Inr (0, Help, w)
         else if command = ''defaults'' then Inr (0, Defaults (settings_env environ) (schedule_env environ), w)
         else if command = ''plan'' \<or> command = ''run'' then
           (case args of
              path # run_dir # extra \<Rightarrow> (case settings_from_file environ (rw_store w) path of None \<Rightarrow> Inl AttributeError
                | Some (settings, ws, es) \<Rightarrow>
                    if es \<noteq> [] then Inr (2, RefusedSettings es ws, w)
                    else if command = ''plan'' then
                      (case plan settings run_dir of Inl e \<Rightarrow> Inl e | Inr p \<Rightarrow> Inr (0, PlanPrinted ws p, w))
                    else (case run eng loads dirs_ok log_ok f settings run_dir w of Inl e \<Rightarrow> Inl e
                      | Inr (res, w') \<Rightarrow> Inr (if rr_ok res then 0 else 1, RunPrinted ws res, w')))
            | _ \<Rightarrow> Inr (2, Usage command, w))
         else if command = ''next'' then
           (case next_command environ off argv w of Inl e \<Rightarrow> Inl e | Inr a \<Rightarrow> Inr (0, a, w))
         else Inr (2, UnknownCommand command, w))"

section \<open>Normalizing twice\<close>

lemma fromkeys_good: "distinct ps \<Longrightarrow> set ps \<subseteq> set PROTOCOLS \<Longrightarrow> filter (\<lambda>p. p \<in> set PROTOCOLS) (fromkeys ps) = ps"
  by (simp add: subset_code(1))

text \<open>Every float that normalization lets in is a decimal, so its text says what it is.\<close>

definition decimal_settings :: "json dict \<Rightarrow> bool" where
  "decimal_settings d = (\<forall>k item q. map_of SETTINGS_SPEC k = Some item \<and> s_kind item = KFloat \<and>
     dget d k = Some (JFloat (Finite q)) \<longrightarrow> decimal q)"

lemma clamp_float_decimal: "clamp_float lo hi x = Finite q \<Longrightarrow> (\<And>r. x = Finite r \<Longrightarrow> decimal r) \<Longrightarrow> decimal q"
  by (auto simp: clamp_float_def py_max_def py_min_def Let_def split: option.splits if_splits)

lemma coerce_decimal:
  assumes "s_kind item = KFloat" and "coerce item raw = Inr (JFloat (Finite q))"
  shows "decimal q"
proof -
  from assms obtain x where "float_of_text (py_str raw) = Some x" "clamp_float (s_lo item) (s_hi item) x = Finite q"
    by (auto simp: coerce_def as_float_def rbind_eq_Inr split: if_splits option.splits)
  then show ?thesis by (auto intro: clamp_float_decimal dest: float_of_text_decimal)
qed

lemma clamp_float_id: "in_bounds lo hi q \<Longrightarrow> clamp_float lo hi (Finite q) = Finite q"
  by (auto simp: clamp_float_def in_bounds_def py_max_def py_min_def Let_def split: option.splits)

lemma coerce_decimal_stable:
  assumes "conforms item (JFloat (Finite q))" and "s_kind item = KFloat" and "decimal q"
  shows "coerce item (JFloat (Finite q)) = Inr (JFloat (Finite q))"
  using assms by (simp add: coerce_def as_float_def float_of_show conforms_def clamp_float_id)

lemma float_rows:
  "list_all (\<lambda>ki. s_kind (snd ki) = KFloat \<longrightarrow> s_default (snd ki) = JFloat (Finite 0) \<and> fst ki \<notin> {''protocols'', ''domains'', ''queue''})
     SETTINGS_SPEC"
  by code_simp

lemma normalized_decimal: "decimal_settings (fst (normalize_settings vals (settings_env environ)))"
  unfolding decimal_settings_def
proof (intro allI impI, elim conjE)
  fix k item q
  assume row: "map_of SETTINGS_SPEC k = Some item" and kind: "s_kind item = KFloat"
    and q: "dget (fst (normalize_settings vals (settings_env environ))) k = Some (JFloat (Finite q))"
  have dflt: "s_default item = JFloat (Finite 0)" "k \<notin> {''protocols'', ''domains'', ''queue''}"
    using float_rows map_of_SomeD [OF row] kind by (auto simp: list_all_iff)
  have zero: "decimal 0" using decimal_of_int [of 0] by simp
  have env: "decimal r" if "dget (settings_env environ) k = Some (JFloat (Finite r))" for r
    using that coerce_decimal [OF kind] row zero
    by (auto simp: env_defaults_dget [OF distinct_SETTINGS_SPEC] env_value_def dflt(1)
        simp del: map_of_eq_Some_iff split: option.splits sum.splits)
  from q dflt(2) have "dget (fst (norm_keys SETTINGS_SPEC vals (settings_env environ))) k = Some (JFloat (Finite q))"
    by (auto simp: normalize_settings_stages)
  then show "decimal q"
    using coerce_decimal [OF kind] env
    by (auto simp: norm_keys_dget [OF distinct_SETTINGS_SPEC] row override_value_def simp del: map_of_eq_Some_iff
        split: option.splits sum.splits)
qed

lemma norm_keys_keeps:
  assumes "wf_dict SETTINGS_SPEC d" and "decimal_settings d" and "map_of SETTINGS_SPEC k = Some item"
  shows "dget (fst (norm_keys SETTINGS_SPEC d base)) k = dget d k"
proof -
  from wf_row [OF assms(1,3)] obtain v where v: "dget d k = Some v" "conforms item v" by blast
  have "coerce item v = Inr v"
  proof (cases "s_kind item = KFloat")
    case True
    with v(2) obtain q where q: "v = JFloat (Finite q)" by (auto simp: conforms_def split: json.splits pyfloat.splits)
    with assms(2,3) True v(1) have "decimal q" unfolding decimal_settings_def by blast
    with q v(2) True show ?thesis by (simp add: coerce_decimal_stable)
  next
    case False
    have "stable_item item" using stable_SETTINGS_SPEC map_of_SomeD [OF assms(3)] by (auto simp: list_all_iff)
    from coerce_stable [OF v(2) this False] show ?thesis .
  qed
  with v(1) show ?thesis
    by (simp add: norm_keys_dget [OF distinct_SETTINGS_SPEC] assms(3) override_value_def del: map_of_eq_Some_iff)
qed

lemma normalize_twice_dget:
  assumes wf: "wf_dict SETTINGS_SPEC d" and dec: "decimal_settings d" and run: "runnable d"
    and row: "map_of SETTINGS_SPEC k = Some item"
  shows "dget (fst (normalize_settings d base)) k = dget d k"
proof -
  let ?d0 = "fst (norm_keys SETTINGS_SPEC d base)"
  from run obtain ps where ps: "dget d ''protocols'' = Some (JList (map JStr ps))" "distinct ps" "set ps \<subseteq> set PROTOCOLS"
    unfolding runnable_def by blast
  from run obtain ds where ds: "dget d ''domains'' = Some (JList (map JStr ds))" "distinct ds"
    unfolding runnable_def by blast
  have p: "dget (fst (norm_protocols ?d0)) ''protocols'' = dget d ''protocols''"
    using norm_keys_keeps [OF wf dec settings_rows(1), of base] ps fromkeys_good [OF ps(2,3)]
    by (simp add: norm_protocols_def Let_def dget_or_def comp_def)
  have tokens: "list_all is_token (map JStr ds)" using wf_row [OF wf settings_rows(2)] ds(1) by simp
  have "map JStr (as_csv (JList (map JStr ds))) = map JStr ds" by (rule as_csv_tokens_id [OF tokens])
  then have "as_csv (JList (map JStr ds)) = ds" by (simp add: inj_map_eq_map)
  then have dm: "dget (fst (norm_domains (fst (norm_protocols ?d0)))) ''domains'' = dget d ''domains''"
    using norm_keys_keeps [OF wf dec settings_rows(2), of base] ds
    by (simp add: norm_domains_def Let_def dget_or_def)
  have q: "dget d ''queue'' = Some (JInt BCW_QUEUE_FIXED)" using run by (simp add: runnable_def)
  consider "k = ''protocols''" | "k = ''domains''" | "k = ''queue''" | "k \<notin> {''protocols'', ''domains'', ''queue''}" by blast
  then show ?thesis
    by cases (use p dm q norm_keys_keeps [OF wf dec row, of base] in \<open>auto simp: normalize_settings_stages\<close>)
qed

definition contract_keys :: "string list" where
  "contract_keys = [''protocols'', ''domains'', ''grid'', ''grid_file'', ''via'', ''reference_via'', ''probe_path'',
     ''identity_path'', ''workers'', ''profiles_per_instance'', ''queue'']"

lemma runnable_cong: "(\<And>k. k \<in> set contract_keys \<Longrightarrow> dget d' k = dget d k) \<Longrightarrow> runnable d' \<longleftrightarrow> runnable d"
  unfolding runnable_def dget_or_def by (simp add: contract_keys_def)

lemma contract_keys_rows:
  "list_all (\<lambda>k. \<exists>item. map_of SETTINGS_SPEC k = Some item) contract_keys"
  by (simp add: contract_keys_def SETTINGS_SPEC_def)

text \<open>Clean settings stay clean over any base, and keep every value.\<close>

lemma normalize_twice_clean:
  assumes "wf_dict SETTINGS_SPEC d" and "decimal_settings d" and "runnable d"
  shows "snd (snd (normalize_settings d base)) = []"
proof -
  have "runnable (fst (normalize_settings d base)) \<longleftrightarrow> runnable d"
    by (rule runnable_cong) (use contract_keys_rows normalize_twice_dget [OF assms] in \<open>auto simp: list_all_iff\<close>)
  with assms(3) show ?thesis by (simp add: normalize_settings_runnable)
qed

definition same_settings :: "json dict \<Rightarrow> json dict \<Rightarrow> bool" where
  "same_settings d d' = (\<forall>k\<in>set (map fst SETTINGS_SPEC). dget d' k = dget d k)"

lemma clean_settings_accepted:
  assumes "normalize_settings vals (settings_env environ) = (d, ws, [])" and "persisted st path = Some d"
  obtains d' ws' where "settings_from_file environ' st path = Some (d', ws', [])" "same_settings d d'"
proof -
  have wf: "wf_dict SETTINGS_SPEC d" using normalize_settings_wf [OF settings_env_wf, of vals environ] assms(1) by simp
  have dec: "decimal_settings d" using normalized_decimal [of vals environ] assms(1) by simp
  have run: "runnable d" using normalize_settings_runnable [of vals "settings_env environ"] assms(1) by simp
  obtain d' ws' es' where n: "normalize_settings d (settings_env environ') = (d', ws', es')" by (rule prod_cases3)
  with normalize_twice_clean [OF wf dec run, of "settings_env environ'"] have "es' = []" by simp
  moreover have "same_settings d d'"
    unfolding same_settings_def
  proof
    fix k assume "k \<in> set (map fst SETTINGS_SPEC)"
    then obtain item where "map_of SETTINGS_SPEC k = Some item"
      by (metis (no_types, lifting) list.set_map map_of_eq_None_iff option.exhaust)
    from normalize_twice_dget [OF wf dec run this, of "settings_env environ'"] n show "dget d' k = dget d k" by simp
  qed
  ultimately show thesis using n assms(2) by (intro that [of d' ws']) (simp_all add: settings_from_file_def)
qed

text \<open>
  Property C23. The harness accepts what the panel answered: settings that were normalized without a problem,
  written to the file of a run, are read back by the harness without a problem under any environment,
  with the same value for every setting (a float included, which is printed and read again); so \<open>run\<close> is
  never refused and runs exactly these settings.
\<close>

theorem harness_accepts_clean_settings:
  assumes "normalize_settings vals (settings_env environ) = (d, ws, [])"
    and "persisted (rw_store w) path = Some d"
  shows "\<exists>d' ws'. settings_from_file environ' (rw_store w) path = Some (d', ws', []) \<and> same_settings d d' \<and>
    harness_main eng loads dirs_ok log_ok f environ' off [''run'', path, run_dir] w =
      (case run eng loads dirs_ok log_ok f d' run_dir w of Inl e \<Rightarrow> Inl e
       | Inr (res, w') \<Rightarrow> Inr (if rr_ok res then 0 else 1, RunPrinted ws' res, w'))"
proof -
  obtain d' ws' where "settings_from_file environ' (rw_store w) path = Some (d', ws', [])" "same_settings d d'"
    using assms by (rule clean_settings_accepted [where environ' = environ'])
  then show ?thesis by (intro exI [of _ d'] exI [of _ ws']) (auto simp: harness_main_def split: sum.splits)
qed

theorem harness_accepts_clean_settings_witness:
  "\<exists>d d' ws ws'. normalize_settings [(''min_share'', JStr ''0.75'')] (settings_env (\<lambda>_. None)) = (d, ws, []) \<and>
    settings_from_file (\<lambda>_. None) (rw_store (sample_world\<lparr>rw_store := (\<lambda>_. None)(''/r/settings.json'' \<mapsto> Json (JDict d))\<rparr>))
      ''/r/settings.json'' = Some (d', ws', []) \<and> dget d' ''min_share'' = Some (JFloat (Finite (3/4)))"
proof -
  let ?n = "normalize_settings [(''min_share'', JStr ''0.75'')] (settings_env (\<lambda>_. None))"
  obtain d ws es where n: "?n = (d, ws, es)" by (rule prod_cases3)
  have "snd (snd ?n) = []" "dget (fst ?n) ''min_share'' = Some (JFloat (Finite (3/4)))" by code_simp+
  with n have n: "?n = (d, ws, [])" and d: "dget d ''min_share'' = Some (JFloat (Finite (3/4)))" by simp_all
  let ?w = "sample_world\<lparr>rw_store := (\<lambda>_. None)(''/r/settings.json'' \<mapsto> Json (JDict d))\<rparr>"
  have p: "persisted (rw_store ?w) ''/r/settings.json'' = Some d"
    by (cases d) (simp_all add: persisted_def read_json_def py_or_def)
  have k: "''min_share'' \<in> set (map fst SETTINGS_SPEC)" by (simp add: SETTINGS_SPEC_def)
  from harness_accepts_clean_settings [OF n p, of "\<lambda>_. None" sample_engine "\<lambda>_. None" True True NoFault 0 "''/r''"] n d
  show ?thesis unfolding same_settings_def using k by (metis (no_types, lifting))
qed

end
