(* ===== verification/Jobs.thy ===== *)
theory Jobs
  imports Harness PanelCatalog
begin

text \<open>
  \<^verbatim>\<open>src/panel/panel.py\<close>, the selection runs: starting the harness in the background, collecting its result,
  cancelling it, and the overview, over the job file that they share. The operations are functions of the
  file store; the panel, the processes it starts and the threads that wait for them are a step
  relation over these functions.
\<close>

section \<open>The job file\<close>

definition load_job :: "store \<Rightarrow> json dict result" where
  "load_job st = (case py_or (read_json st (state_path BCW_STATE_DIR JOB_FILE) (JDict [])) (JDict []) of
     JDict d \<Rightarrow> Inr d | _ \<Rightarrow> Inl AttributeError)"

definition save_job :: "fault \<Rightarrow> json dict \<Rightarrow> store \<Rightarrow> store" where
  "save_job f job st = fst (write_json f (state_path BCW_STATE_DIR JOB_FILE) (JDict job) st)"

text \<open>\<open>alive\<close> says of a process identifier whether signal 0 can be sent to it.\<close>

definition pid_alive :: "(int \<Rightarrow> bool) \<Rightarrow> json \<Rightarrow> bool" where
  "pid_alive alive v = (truthy v \<and> (case py_int v of Inl e \<Rightarrow> False | Inr p \<Rightarrow> alive p))"

definition job_running :: "(int \<Rightarrow> bool) \<Rightarrow> json dict \<Rightarrow> bool" where
  "job_running alive job = (dget_or job ''state'' JNull = JStr ''running'' \<and> pid_alive alive (dget_or job ''pid'' JNull))"

definition WZ_BCW :: string where "WZ_BCW = ''/opt/webzapret/scripts/wz-bcw.sh''"

definition bcw_ready :: "bool \<Rightarrow> bool \<Rightarrow> bool \<times> string" where
  "bcw_ready module_found executable =
     (if \<not> module_found then (False, ''engine module missing (blockcheck.py not installed)'')
      else if \<not> executable then (False, ''harness missing: '' @ WZ_BCW) else (True, []))"

section \<open>Starting a run\<close>

text \<open>
  What the machine does during a start: the environment, which processes live, the stamps of the clock,
  which writes fail, and what becomes of the new process (\<open>None\<close>: it cannot be started).
\<close>

record start_env =
  se_module :: bool
  se_harness :: bool
  se_environ :: "string \<Rightarrow> string option"
  se_alive :: "int \<Rightarrow> bool"
  se_run_id :: string
  se_stamp :: string
  se_mkdir :: bool
  se_popen :: "int option"
  se_f_settings :: fault
  se_f_copy :: fault
  se_f_job1 :: fault
  se_f_job2 :: fault

datatype start_answer = NotReady string | AlreadyRunning json | CannotPersist | BadSettings "problem list" "warning list"
  | NoRunDir | HarnessNotStarted | RunStarted string int "json dict" "warning list"

definition run_dir_of :: "string \<Rightarrow> string" where
  "run_dir_of run_id = os_join BCW_RUNS_DIR run_id"

definition settings_copy :: "string \<Rightarrow> string" where
  "settings_copy run_id = os_join (run_dir_of run_id) ''settings.json''"

definition first_job :: "start_env \<Rightarrow> string \<Rightarrow> json dict" where
  "first_job E source = [(''state'', JStr ''running''), (''source'', JStr source), (''run_id'', JStr (se_run_id E)),
     (''run_dir'', JStr (run_dir_of (se_run_id E))), (''pid'', JNull), (''rc'', JNull), (''started_at'', JStr (se_stamp E))]"

definition started_job :: "start_env \<Rightarrow> string \<Rightarrow> int \<Rightarrow> json dict" where
  "started_job E source pid = dset ''pid'' (JInt pid) (first_job E source)"

text \<open>The command line of the harness.\<close>

definition harness_argv :: "string \<Rightarrow> string list" where
  "harness_argv run_id = [WZ_BCW, ''run'', settings_copy run_id, run_dir_of run_id]"

text \<open>
  The overrides are saved first, when there are any; the errors of that save are not looked at, only
  whether it was written.
\<close>

definition start_overrides :: "start_env \<Rightarrow> json dict option \<Rightarrow> store \<Rightarrow> (store \<times> bool) option" where
  "start_overrides E overrides st = (case overrides of
       Some (kv # kvs) \<Rightarrow> (case save_settings (se_f_settings E) BCW_STATE_DIR (se_environ E) (kv # kvs) st of None \<Rightarrow> None
         | Some (st', res, ok) \<Rightarrow> Some (st', ok))
     | _ \<Rightarrow> Some (st, True))"

definition launch :: "start_env \<Rightarrow> string \<Rightarrow> json dict \<Rightarrow> warning list \<Rightarrow> store \<Rightarrow> store \<times> start_answer" where
  "launch E source settings ws st =
     (let st2 = fst (write_json (se_f_copy E) (settings_copy (se_run_id E)) (JDict settings) st);
          st3 = save_job (se_f_job1 E) (first_job E source) st2
      in case se_popen E of
           None \<Rightarrow> (save_job (se_f_job2 E) (dset ''state'' (JStr ''error'') (first_job E source)) st3, HarnessNotStarted)
         | Some pid \<Rightarrow> (save_job (se_f_job2 E) (started_job E source pid) st3, RunStarted (se_run_id E) pid settings ws))"

definition bcw_start_run ::
  "start_env \<Rightarrow> json dict option \<Rightarrow> string \<Rightarrow> store \<Rightarrow> (store \<times> start_answer) result"
where
  "bcw_start_run E overrides source st =
     (case bcw_ready (se_module E) (se_harness E) of (ready, why) \<Rightarrow>
        if \<not> ready then Inr (st, NotReady why)
        else (case load_job st of Inl e \<Rightarrow> Inl e
          | Inr job \<Rightarrow> if job_running (se_alive E) job then Inr (st, AlreadyRunning (dget_or job ''run_id'' (JStr ''?'')))
            else (case start_overrides E overrides st of None \<Rightarrow> Inl AttributeError
              | Some (st1, saved) \<Rightarrow> if \<not> saved then Inr (st1, CannotPersist)
                else (case load_settings BCW_STATE_DIR (se_environ E) st1 of None \<Rightarrow> Inl AttributeError
                  | Some (settings, ws, es) \<Rightarrow> if es \<noteq> [] then Inr (st1, BadSettings es ws)
                    else if \<not> se_mkdir E then Inr (st1, NoRunDir)
                    else Inr (launch E source settings ws st1)))))"

text \<open>
  The same start in its parts. Up to the first write of the job file everything happens before the process
  exists; then the process is created, and the job file is written once more. Other threads that do not take
  the panel's lock may come in between.
\<close>

definition start_begins ::
  "start_env \<Rightarrow> json dict option \<Rightarrow> string \<Rightarrow> store \<Rightarrow> (store \<times> (start_answer + json dict \<times> warning list)) result"
where
  "start_begins E overrides source st =
     (case bcw_ready (se_module E) (se_harness E) of (ready, why) \<Rightarrow>
        if \<not> ready then Inr (st, Inl (NotReady why))
        else (case load_job st of Inl e \<Rightarrow> Inl e
          | Inr job \<Rightarrow> if job_running (se_alive E) job then Inr (st, Inl (AlreadyRunning (dget_or job ''run_id'' (JStr ''?''))))
            else (case start_overrides E overrides st of None \<Rightarrow> Inl AttributeError
              | Some (st1, saved) \<Rightarrow> if \<not> saved then Inr (st1, Inl CannotPersist)
                else (case load_settings BCW_STATE_DIR (se_environ E) st1 of None \<Rightarrow> Inl AttributeError
                  | Some (settings, ws, es) \<Rightarrow> if es \<noteq> [] then Inr (st1, Inl (BadSettings es ws))
                    else if \<not> se_mkdir E then Inr (st1, Inl NoRunDir)
                    else Inr (save_job (se_f_job1 E) (first_job E source)
                      (fst (write_json (se_f_copy E) (settings_copy (se_run_id E)) (JDict settings) st1)), Inr (settings, ws))))))"

definition start_records :: "start_env \<Rightarrow> string \<Rightarrow> int \<Rightarrow> store \<Rightarrow> store" where
  "start_records E source pid st = save_job (se_f_job2 E) (started_job E source pid) st"

definition start_fails :: "start_env \<Rightarrow> string \<Rightarrow> store \<Rightarrow> store" where
  "start_fails E source st = save_job (se_f_job2 E) (dset ''state'' (JStr ''error'') (first_job E source)) st"

lemma start_parts:
  "bcw_start_run E ov source st = (case start_begins E ov source st of Inl e \<Rightarrow> Inl e
     | Inr (st1, Inl a) \<Rightarrow> Inr (st1, a)
     | Inr (st1, Inr (settings, ws)) \<Rightarrow> (case se_popen E of
           None \<Rightarrow> Inr (start_fails E source st1, HarnessNotStarted)
         | Some pid \<Rightarrow> Inr (start_records E source pid st1, RunStarted (se_run_id E) pid settings ws)))"
  by (simp add: bcw_start_run_def start_begins_def launch_def start_records_def start_fails_def Let_def
      split: prod.split sum.split option.split)

section \<open>Collecting the result\<close>

text \<open>
  The value parsed from the harness's output (\<open>None\<close>: no JSON object in it), the faults of the two
  writes, the permissions of the pruning, and the number of runs to keep.
\<close>

record collect_env =
  ce_parsed :: "json option"
  ce_rc :: int
  ce_stamp :: string
  ce_f_job :: fault
  ce_f_last :: fault
  ce_can_unlink :: "string \<Rightarrow> string \<Rightarrow> bool"
  ce_can_open :: "string \<Rightarrow> bool"
  ce_keep :: int
  ce_ready :: bool
  ce_environ :: "string \<Rightarrow> string option"

datatype collect_end = Collected string | CollectFailed pyexn

definition collected_result :: "collect_env \<Rightarrow> json dict \<Rightarrow> store \<Rightarrow> json" where
  "collected_result C job st = (case ce_parsed C of
       Some (JDict (kv # d)) \<Rightarrow> JDict (kv # d)
     | _ \<Rightarrow> py_or (read_json st (os_join (py_str (dget_or job ''run_dir'' JNull)) ''result.json'') (JDict [])) (JDict []))"

definition finished_job :: "collect_env \<Rightarrow> json dict \<Rightarrow> bool \<Rightarrow> json dict" where
  "finished_job C job ok = dset ''finished_at'' (JStr (ce_stamp C)) (dset ''rc'' (JInt (ce_rc C))
     (dset ''state'' (JStr (if ok then ''done'' else ''error'')) job))"

text \<open>The files that a pruning unlinks disappear from the store.\<close>

definition holds_entry :: "runs_tree \<Rightarrow> string \<Rightarrow> string \<Rightarrow> bool" where
  "holds_entry tree n e = (case map_of tree n of Some (RunDir es) \<Rightarrow> e \<in> set (map fst es) | _ \<Rightarrow> False)"

definition pruned_store :: "runs_tree \<Rightarrow> runs_tree \<Rightarrow> store \<Rightarrow> store" where
  "pruned_store tree tree' st = (\<lambda>p. if list_ex (\<lambda>x. case snd x of PlainFile \<Rightarrow> False
       | RunDir es \<Rightarrow> list_ex (\<lambda>e. p = os_join (run_dir_of (fst x)) (fst e) \<and> \<not> holds_entry tree' (fst x) (fst e)) es) tree
     then None else st p)"

text \<open>
  The automatic import at the end. Its answer has no key \<open>imported\<close>, so the identifier to apply is always
  empty and nothing is applied.
\<close>

definition wants_import :: "json dict \<Rightarrow> bool result" where
  "wants_import res = (if \<not> truthy (dget_or res ''success'' JNull) then Inr False
     else (case py_or (dget_or res ''settings'' JNull) (JDict []) of
         JDict s \<Rightarrow> Inr (truthy (dget_or s ''auto_import'' JNull)) | _ \<Rightarrow> Inl AttributeError))"

definition after_collect :: "collect_env \<Rightarrow> json dict \<Rightarrow> json dict \<Rightarrow> store \<Rightarrow> store \<times> collect_end" where
  "after_collect C job res st =
     (case (if res = [] then Inr ''no result'' else summarize res) of Inl e \<Rightarrow> (st, CollectFailed e)
      | Inr text \<Rightarrow> (case wants_import res of Inl e \<Rightarrow> (st, CollectFailed e)
        | Inr False \<Rightarrow> (st, Collected text)
        | Inr True \<Rightarrow> (case bcw_import NoFault (ce_environ C) (ce_stamp C) (ce_ready C) (dget_or job ''run_id'' JNull) JNull JNull st of
              Inl e \<Rightarrow> (st, CollectFailed e) | Inr (st', a) \<Rightarrow> (st', Collected text))))"

definition bcw_collect :: "collect_env \<Rightarrow> json dict \<Rightarrow> runs_tree \<Rightarrow> store \<Rightarrow> runs_tree \<times> store \<times> collect_end" where
  "bcw_collect C job tree st = (case collected_result C job st of
       JDict res \<Rightarrow> (let ok = truthy (dget_or res ''ok'' JNull);
           st1 = save_job (ce_f_job C) (finished_job C job ok) st;
           st2 = (if ok then fst (write_json (ce_f_last C) (state_path BCW_STATE_DIR LAST_RUN_FILE) (JDict res) st1) else st1)
         in case prune_runs (ce_can_unlink C) (ce_can_open C) (ce_keep C) tree of (tree', removed) \<Rightarrow>
              (tree', after_collect C (finished_job C job ok) res (pruned_store tree tree' st2)))
     | _ \<Rightarrow> (tree, st, CollectFailed AttributeError))"

section \<open>Cancelling, and the overview\<close>

datatype cancel_answer = NoRunningSelection | ProcessGone | Cancelled json

text \<open>\<open>signalled\<close>: the process group, or else the process, could be sent the signal.\<close>

definition bcw_cancel :: "(int \<Rightarrow> bool) \<Rightarrow> bool \<Rightarrow> fault \<Rightarrow> store \<Rightarrow> (store \<times> cancel_answer) result" where
  "bcw_cancel alive signalled f st = (case load_job st of Inl e \<Rightarrow> Inl e
     | Inr job \<Rightarrow> if \<not> job_running alive job then Inr (st, NoRunningSelection)
       else if \<not> signalled then Inr (st, ProcessGone)
       else Inr (save_job f (dset ''state'' (JStr ''cancelling'') job) st, Cancelled (dget_or job ''run_id'' JNull)))"

text \<open>The view of a domain of the last run, and of the last run.\<close>

definition first_twelve :: "json \<Rightarrow> (int \<times> json) result" where
  "first_twelve v = (case py_or v (JList []) of JList xs \<Rightarrow> Inr (int (length xs), JList (take 12 xs))
     | JStr s \<Rightarrow> Inr (int (length s), JStr (take 12 s)) | _ \<Rightarrow> Inl TypeError)"

definition summary_domain :: "json \<Rightarrow> json result" where
  "summary_domain v = (case entry_dict v of Inl e \<Rightarrow> Inl e
     | Inr dm \<Rightarrow> (case first_twelve (dget_or dm ''working'' JNull) of Inl e \<Rightarrow> Inl e
       | Inr (working, shown) \<Rightarrow> (case py_len (py_or (dget_or dm ''refused'' JNull) (JList [])) of Inl e \<Rightarrow> Inl e
         | Inr refused \<Rightarrow> Inr (JDict [(''domain'', dget_or dm ''domain'' JNull), (''block_type'', dget_or dm ''block_type'' JNull),
             (''scanned'', dget_or dm ''scanned'' (JInt 0)), (''checked'', dget_or dm ''checked'' (JInt 0)),
             (''inconclusive'', dget_or dm ''inconclusive'' (JBool False)), (''working_count'', JInt working),
             (''refused_count'', JInt refused), (''working'', shown)]))))"

definition last_summary :: "json \<Rightarrow> json result" where
  "last_summary v = (if \<not> truthy v then Inr JNull
     else (case entry_dict v of Inl e \<Rightarrow> Inl e
      | Inr lastrun \<Rightarrow> (case get_items lastrun ''domains'' of Inl e \<Rightarrow> Inl e
       | Inr doms \<Rightarrow> (case rmap summary_domain doms of Inl e \<Rightarrow> Inl e
        | Inr ds \<Rightarrow> (case summarize lastrun of Inl e \<Rightarrow> Inl e
         | Inr text \<Rightarrow> Inr (JDict [(''run_id'', dget_or lastrun ''run_id'' JNull), (''started_at'', dget_or lastrun ''started_at'' JNull),
             (''finished_at'', dget_or lastrun ''finished_at'' JNull), (''took_s'', dget_or lastrun ''took_s'' JNull),
             (''ok'', dget_or lastrun ''ok'' (JBool False)), (''success'', dget_or lastrun ''success'' (JBool False)),
             (''errors'', py_or (dget_or lastrun ''errors'' JNull) (JList [])), (''summary'', JStr text),
             (''domains'', JList ds)]))))))"

record overview =
  ov_settings :: outcome
  ov_schedule :: outcome
  ov_next_run :: json
  ov_next_run_local :: string
  ov_last_run :: json
  ov_last_run_local :: string
  ov_job :: "json dict"
  ov_running :: bool
  ov_last :: json

text \<open>
  The overview of the Select tab, except for the availability of the tools; a running job whose process is
  gone is written back as lost on the way. \<open>off\<close> is the offset of the local clock.
\<close>

definition overview_job :: "(int \<Rightarrow> bool) \<Rightarrow> fault \<Rightarrow> store \<Rightarrow> (store \<times> json dict \<times> bool) result" where
  "overview_job alive f st = (case load_job st of Inl e \<Rightarrow> Inl e
     | Inr job \<Rightarrow> (let running = job_running alive job in
         if dget_or job ''state'' JNull = JStr ''running'' \<and> \<not> running
         then (let lost = dset ''state'' (JStr ''lost'') job in Inr (save_job f lost st, lost, False))
         else Inr (st, job, running)))"

text \<open>
  The overview reads the job file and writes it without the panel's lock: the job that it is going to write, if any.
\<close>

definition overview_reads :: "(int \<Rightarrow> bool) \<Rightarrow> store \<Rightarrow> json dict option" where
  "overview_reads alive st = (case load_job st of Inl e \<Rightarrow> None
     | Inr job \<Rightarrow> if dget_or job ''state'' JNull = JStr ''running'' \<and> \<not> job_running alive job
         then Some (dset ''state'' (JStr ''lost'') job) else None)"

lemma overview_parts:
  "overview_job alive f st = Inr (st', job, running) \<Longrightarrow>
     st' = (case overview_reads alive st of None \<Rightarrow> st | Some lost \<Rightarrow> save_job f lost st)"
  by (auto simp: overview_job_def overview_reads_def Let_def split: sum.splits if_splits)

definition bcw_overview ::
  "bool \<Rightarrow> (int \<Rightarrow> bool) \<Rightarrow> fault \<Rightarrow> int \<Rightarrow> (string \<Rightarrow> string option) \<Rightarrow> store \<Rightarrow> store \<times> overview option result"
where
  "bcw_overview ready alive f off environ st = (if \<not> ready then (st, Inr None)
     else (case (load_settings BCW_STATE_DIR environ st, load_schedule BCW_STATE_DIR environ st,
              persisted st (state_path BCW_STATE_DIR SCHEDULE_FILE)) of
        (Some settings, Some schedule, Some state) \<Rightarrow> (case overview_job alive f st of Inl e \<Rightarrow> (st, Inl e)
          | Inr (st', job, running) \<Rightarrow> (st', (case format_local off (dget_or state ''next_run'' JNull) of Inl e \<Rightarrow> Inl e
            | Inr next_local \<Rightarrow> (case format_local off (dget_or state ''last_run'' JNull) of Inl e \<Rightarrow> Inl e
            | Inr last_local \<Rightarrow> (case last_summary (read_json st' (state_path BCW_STATE_DIR LAST_RUN_FILE) JNull) of Inl e \<Rightarrow> Inl e
            | Inr lastrun \<Rightarrow> Inr (Some \<lparr>ov_settings = settings, ov_schedule = schedule,
                ov_next_run = dget_or state ''next_run'' JNull, ov_next_run_local = next_local,
                ov_last_run = dget_or state ''last_run'' JNull, ov_last_run_local = last_local,
                ov_job = dset ''running'' (JBool running) job, ov_running = running, ov_last = lastrun\<rparr>))))))
      | _ \<Rightarrow> (st, Inl AttributeError)))"

section \<open>The panel and its processes\<close>

text \<open>
  The harness processes that have not been waited for, each with the thread that waits for it and the job
  that the thread was given; the jobs whose process has been waited for but whose result is not
  collected yet; the start that holds the panel's lock, with its process once there is one; and the
  overviews that have read the job file and are going to write it. A restart of the panel loses the
  threads, not the processes.
\<close>

record host =
  ho_store :: store
  ho_tree :: runs_tree
  ho_live :: "int list"
  ho_waiting :: "(int \<times> json dict) list"
  ho_pending :: "json dict list"
  ho_starting :: "(start_env \<times> string \<times> int option) option"
  ho_looking :: "json dict list"

datatype event = Begin start_env "json dict option" string | Spawn | Record | SpawnFails | Refuse start_env "json dict option" string
  | Finish int collect_env | Reap int | Collect collect_env | CancelRun "int \<Rightarrow> bool" bool fault
  | Look "int \<Rightarrow> bool" fault | LookReads "int \<Rightarrow> bool" | LookWrites fault | Elsewhere | Restart | RestartMidStart | OrphanEnds int

definition covers :: "(int \<Rightarrow> bool) \<Rightarrow> host \<Rightarrow> bool" where
  "covers alive h = list_all alive (ho_live h)"

definition spawned_pid :: "host \<Rightarrow> int option" where
  "spawned_pid h = (case ho_starting h of Some (E, source, Some pid) \<Rightarrow> Some pid | _ \<Rightarrow> None)"

fun is_started :: "start_answer \<Rightarrow> bool" where
  "is_started (RunStarted rid pid settings ws) = True"
| "is_started _ = False"

text \<open>
  \<open>Begin\<close>, \<open>Spawn\<close> and \<open>Record\<close> are a start that succeeds; it holds the lock throughout, so that no other
  start and no cancelling comes in between, but everything else may.
  \<open>Finish\<close> is the end of a process whose result is collected at once; \<open>Reap\<close> and \<open>Collect\<close> are its two
  halves, between which the collecting thread may be interrupted. \<open>Look\<close> is an overview that is not
  interrupted, \<open>LookReads\<close> and \<open>LookWrites\<close> are the halves of one that finds a stale job. None of these takes
  the lock. \<open>Elsewhere\<close> is anything that leaves the job file alone: the work of a harness, the settings,
  the schedule. A restart in the middle of a start leaves a process that no job file names.
\<close>

inductive panel_step :: "host \<Rightarrow> event \<Rightarrow> host \<Rightarrow> bool" where
  begun: "start_begins E ov source (ho_store h) = Inr (st', Inr (settings, ws)) \<Longrightarrow> covers (se_alive E) h \<Longrightarrow> ho_starting h = None \<Longrightarrow>
     panel_step h (Begin E ov source) (h\<lparr>ho_store := st', ho_starting := Some (E, source, None)\<rparr>)"
| spawned: "ho_starting h = Some (E, source, None) \<Longrightarrow> se_popen E = Some pid \<Longrightarrow> 0 < pid \<Longrightarrow> pid \<notin> set (ho_live h) \<Longrightarrow>
     panel_step h Spawn (h\<lparr>ho_live := pid # ho_live h, ho_starting := Some (E, source, Some pid)\<rparr>)"
| recorded: "ho_starting h = Some (E, source, Some pid) \<Longrightarrow>
     panel_step h Record (h\<lparr>ho_store := start_records E source pid (ho_store h), ho_starting := None,
       ho_waiting := (pid, started_job E source pid) # ho_waiting h\<rparr>)"
| not_spawned: "ho_starting h = Some (E, source, None) \<Longrightarrow> se_popen E = None \<Longrightarrow>
     panel_step h SpawnFails (h\<lparr>ho_store := start_fails E source (ho_store h), ho_starting := None\<rparr>)"
| refused: "start_begins E ov source (ho_store h) = Inr (st', Inl a) \<Longrightarrow> covers (se_alive E) h \<Longrightarrow> ho_starting h = None \<Longrightarrow>
     panel_step h (Refuse E ov source) (h\<lparr>ho_store := st'\<rparr>)"
| finished: "(pid, job) \<in> set (ho_waiting h) \<Longrightarrow> bcw_collect C job (ho_tree h) (ho_store h) = (tree', st', r) \<Longrightarrow>
     panel_step h (Finish pid C) (h\<lparr>ho_store := st', ho_tree := tree', ho_live := removeAll pid (ho_live h),
       ho_waiting := filter (\<lambda>x. fst x \<noteq> pid) (ho_waiting h)\<rparr>)"
| reaped: "(pid, job) \<in> set (ho_waiting h) \<Longrightarrow>
     panel_step h (Reap pid) (h\<lparr>ho_live := removeAll pid (ho_live h), ho_waiting := filter (\<lambda>x. fst x \<noteq> pid) (ho_waiting h),
       ho_pending := job # ho_pending h\<rparr>)"
| collected: "job \<in> set (ho_pending h) \<Longrightarrow> bcw_collect C job (ho_tree h) (ho_store h) = (tree', st', r) \<Longrightarrow>
     panel_step h (Collect C) (h\<lparr>ho_store := st', ho_tree := tree', ho_pending := removeAll job (ho_pending h)\<rparr>)"
| cancelled: "bcw_cancel alive signalled f (ho_store h) = Inr (st', a) \<Longrightarrow> covers alive h \<Longrightarrow> ho_starting h = None \<Longrightarrow>
     panel_step h (CancelRun alive signalled f) (h\<lparr>ho_store := st'\<rparr>)"
| looked: "overview_job alive f (ho_store h) = Inr (st', job, running) \<Longrightarrow> covers alive h \<Longrightarrow>
     panel_step h (Look alive f) (h\<lparr>ho_store := st'\<rparr>)"
| look_reads: "overview_reads alive (ho_store h) = Some lost \<Longrightarrow> covers alive h \<Longrightarrow>
     panel_step h (LookReads alive) (h\<lparr>ho_looking := lost # ho_looking h\<rparr>)"
| look_writes: "lost \<in> set (ho_looking h) \<Longrightarrow>
     panel_step h (LookWrites f) (h\<lparr>ho_store := save_job f lost (ho_store h), ho_looking := remove1 lost (ho_looking h)\<rparr>)"
| elsewhere: "st' (state_path BCW_STATE_DIR JOB_FILE) = ho_store h (state_path BCW_STATE_DIR JOB_FILE) \<Longrightarrow>
     panel_step h Elsewhere (h\<lparr>ho_store := st'\<rparr>)"
| restarted: "spawned_pid h = None \<Longrightarrow>
     panel_step h Restart (h\<lparr>ho_waiting := [], ho_pending := [], ho_starting := None, ho_looking := []\<rparr>)"
| restarted_mid_start: "spawned_pid h \<noteq> None \<Longrightarrow>
     panel_step h RestartMidStart (h\<lparr>ho_waiting := [], ho_pending := [], ho_starting := None, ho_looking := []\<rparr>)"
| orphan_ends: "pid \<notin> fst ` set (ho_waiting h) \<Longrightarrow> spawned_pid h \<noteq> Some pid \<Longrightarrow>
     panel_step h (OrphanEnds pid) (h\<lparr>ho_live := removeAll pid (ho_live h)\<rparr>)"

inductive_cases begin_stepE: "panel_step h (Begin E ov source) h'"
inductive_cases look_stepE: "panel_step h (Look alive f) h'"
inductive_cases look_writes_stepE: "panel_step h (LookWrites f) h'"
inductive_cases orphan_stepE: "panel_step h (OrphanEnds pid) h'"

inductive_simps restart_step_iff: "panel_step h Restart h'"

inductive panel_runs :: "host \<Rightarrow> event list \<Rightarrow> host \<Rightarrow> bool" where
  no_event: "panel_runs h [] h"
| one_more: "panel_runs h evs h1 \<Longrightarrow> panel_step h1 ev h2 \<Longrightarrow> panel_runs h (evs @ [ev]) h2"

lemma runs_append: "panel_runs h2 evs' h3 \<Longrightarrow> panel_runs h1 evs h2 \<Longrightarrow> panel_runs h1 (evs @ evs') h3"
  by (induction rule: panel_runs.induct) (auto simp flip: append_assoc intro: one_more)

lemma one_event: "panel_step h ev h' \<Longrightarrow> panel_runs h [ev] h'"
  using one_more [OF no_event] by simp

lemma next_event: "panel_step h ev h1 \<Longrightarrow> panel_runs h1 evs h2 \<Longrightarrow> panel_runs h (ev # evs) h2"
  using runs_append [of h1 evs h2 h "[ev]"] by (simp add: one_event)

definition fresh_host :: "store \<Rightarrow> runs_tree \<Rightarrow> host" where
  "fresh_host st tree = \<lparr>ho_store = st, ho_tree = tree, ho_live = [], ho_waiting = [], ho_pending = [], ho_starting = None, ho_looking = []\<rparr>"

text \<open>A start that nothing comes in between is \<open>bcw_start_run\<close>.\<close>

definition start_events :: "start_env \<Rightarrow> json dict option \<Rightarrow> string \<Rightarrow> event list" where
  "start_events E ov source = [Begin E ov source, Spawn, Record]"

definition after_start :: "host \<Rightarrow> start_env \<Rightarrow> string \<Rightarrow> int \<Rightarrow> store \<Rightarrow> host" where
  "after_start h E source pid st' = h\<lparr>ho_store := st', ho_live := pid # ho_live h,
     ho_waiting := (pid, started_job E source pid) # ho_waiting h\<rparr>"

lemma start_undisturbed:
  assumes "bcw_start_run E ov source (ho_store h) = Inr (st', RunStarted rid pid settings ws)" and "covers (se_alive E) h"
    and "ho_starting h = None" and "0 < pid" and "pid \<notin> set (ho_live h)"
  shows "panel_runs h (start_events E ov source) (after_start h E source pid st')"
proof -
  from assms(1) obtain st1 s w where b: "start_begins E ov source (ho_store h) = Inr (st1, Inr (s, w))"
    and p: "se_popen E = Some pid" and st': "st' = start_records E source pid st1"
  proof -
    from assms(1) have "\<not> (\<exists>st1 a. start_begins E ov source (ho_store h) = Inr (st1, Inl a) \<and> a = RunStarted rid pid settings ws)"
      by (auto simp: start_begins_def split: prod.splits sum.splits option.splits if_splits)
    with assms(1) that show thesis by (auto simp: start_parts split: sum.splits prod.splits option.splits)
  qed
  let ?h1 = "h\<lparr>ho_store := st1, ho_starting := Some (E, source, None)\<rparr>"
  let ?h2 = "?h1\<lparr>ho_live := pid # ho_live ?h1, ho_starting := Some (E, source, Some pid)\<rparr>"
  have 1: "panel_step h (Begin E ov source) ?h1" by (rule begun [OF b assms(2,3)])
  have 2: "panel_step ?h1 Spawn ?h2" by (rule spawned) (use p assms(4,5) in simp_all)
  let ?h3 = "?h2\<lparr>ho_store := start_records E source pid (ho_store ?h2), ho_starting := None,
       ho_waiting := (pid, started_job E source pid) # ho_waiting ?h2\<rparr>"
  have 3: "panel_step ?h2 Record ?h3" by (rule recorded) simp
  have "?h3 = after_start h E source pid st'"
    by (rule host.equality) (simp_all add: after_start_def st' assms(3))
  with next_event [OF 1 next_event [OF 2 one_event [OF 3]]] show ?thesis by (simp only: start_events_def)
qed

section \<open>At most one harness\<close>

text \<open>
  The events after which at most one harness lives: nobody cancels, neither a collecting thread nor an
  overview is held up between its reading and its writing, the panel is not restarted between creating the process and
  recording it, and that second write of the job file goes through.
\<close>

fun calm :: "event \<Rightarrow> bool" where
  "calm (Begin E ov source) = (se_f_job2 E = NoFault)"
| "calm (Reap pid) = False"
| "calm (Collect C) = False"
| "calm (CancelRun alive signalled f) = False"
| "calm (LookReads alive) = False"
| "calm (LookWrites f) = False"
| "calm RestartMidStart = False"
| "calm _ = True"

definition names_live :: "store \<Rightarrow> int \<Rightarrow> bool" where
  "names_live st pid = (case load_job st of Inl e \<Rightarrow> False
     | Inr job \<Rightarrow> dget_or job ''state'' JNull = JStr ''running'' \<and> dget_or job ''pid'' JNull = JInt pid)"

definition solo :: "host \<Rightarrow> bool" where
  "solo h = (fst ` set (ho_waiting h) \<subseteq> set (ho_live h) \<and> (case ho_starting h of
       None \<Rightarrow> ho_live h = [] \<or> (\<exists>pid. ho_live h = [pid] \<and> 0 < pid \<and> names_live (ho_store h) pid)
     | Some (E, source, sp) \<Rightarrow> se_f_job2 E = NoFault \<and> ho_waiting h = [] \<and>
         (case sp of None \<Rightarrow> ho_live h = [] | Some pid \<Rightarrow> ho_live h = [pid] \<and> 0 < pid)))"

lemma soloI: "fst ` set (ho_waiting h) \<subseteq> set (ho_live h) \<Longrightarrow> ho_starting h = None \<Longrightarrow>
    ho_live h = [] \<or> (\<exists>pid. ho_live h = [pid] \<and> 0 < pid \<and> names_live (ho_store h) pid) \<Longrightarrow> solo h"
  by (simp add: solo_def)

lemma solo_starting: "solo h \<Longrightarrow> ho_starting h = Some (E, source, sp) \<Longrightarrow>
    se_f_job2 E = NoFault \<and> ho_waiting h = [] \<and> (case sp of None \<Rightarrow> ho_live h = [] | Some pid \<Rightarrow> ho_live h = [pid] \<and> 0 < pid)"
  by (simp add: solo_def)

text \<open>During a start the contents of the job file do not matter.\<close>

lemma solo_store: "solo h \<Longrightarrow> (\<And>pid. ho_starting h = None \<Longrightarrow> ho_live h = [pid] \<Longrightarrow> 0 < pid \<Longrightarrow>
    names_live (ho_store h) pid \<Longrightarrow> names_live st' pid) \<Longrightarrow> solo (h\<lparr>ho_store := st'\<rparr>)"
  by (auto simp: solo_def split: option.splits)

lemma load_job_cong: "st' (state_path BCW_STATE_DIR JOB_FILE) = st (state_path BCW_STATE_DIR JOB_FILE) \<Longrightarrow> load_job st' = load_job st"
  by (simp add: load_job_def read_json_def)

lemma load_saved_job: "job \<noteq> [] \<Longrightarrow> load_job (save_job NoFault job st) = Inr job"
proof -
  obtain st' ok where w: "write_json NoFault (state_path BCW_STATE_DIR JOB_FILE) (JDict job) st = (st', ok)" by fastforce
  assume "job \<noteq> []"
  with write_json_read [OF w, of "JDict []"] write_json_ok [OF w] w show ?thesis
    by (simp add: load_job_def save_job_def py_or_def)
qed

lemma started_job_fields [simp]:
  "started_job E source pid \<noteq> []" "dget_or (started_job E source pid) ''state'' JNull = JStr ''running''"
  "dget_or (started_job E source pid) ''pid'' JNull = JInt pid"
  by (simp_all add: started_job_def first_job_def dset_def dget_or_def dget_def)

lemma names_live_running:
  assumes "names_live st pid" and "0 < pid" and "alive pid"
  obtains job where "load_job st = Inr job" "job_running alive job"
  using assms by (auto simp: names_live_def job_running_def pid_alive_def split: sum.splits)

text \<open>A start while the job file names a living process changes nothing.\<close>

lemma start_while_live:
  assumes "names_live st pid" and "0 < pid" and "se_alive E pid" and "start_begins E ov source st = Inr (st', r)"
  shows "st' = st \<and> (\<exists>a. r = Inl a)"
proof -
  obtain job where "load_job st = Inr job" "job_running (se_alive E) job"
    using assms(1-3) by (rule names_live_running)
  with assms(4) show ?thesis by (auto simp: start_begins_def split: prod.splits if_splits)
qed

lemma launch_started:
  "launch E source settings ws st = (st', RunStarted rid pid s w) \<Longrightarrow> se_f_job2 E = NoFault \<Longrightarrow>
     load_job st' = Inr (started_job E source pid)"
  by (auto simp: launch_def Let_def load_saved_job split: option.splits)

lemma start_cases:
  assumes "bcw_start_run E ov source st = Inr (st', RunStarted rid pid settings ws)"
  obtains st1 where "start_overrides E ov st = Some (st1, True)"
    "load_settings BCW_STATE_DIR (se_environ E) st1 = Some (settings, ws, [])"
    "launch E source settings ws st1 = (st', RunStarted rid pid settings ws)" "se_popen E = Some pid" "rid = se_run_id E"
proof -
  from assms obtain job where job: "load_job st = Inr job" "\<not> job_running (se_alive E) job" and ready: "fst (bcw_ready (se_module E) (se_harness E))"
    by (auto simp: bcw_start_run_def split: prod.splits if_splits sum.splits)
  note body = assms [unfolded bcw_start_run_def]
  from body job ready obtain st1 saved where o: "start_overrides E ov st = Some (st1, saved)"
    by (cases "start_overrides E ov st") (auto split: prod.splits)
  with body job ready have saved by (auto split: prod.splits if_splits)
  from o body job ready \<open>saved\<close> obtain s1 w1 es where l: "load_settings BCW_STATE_DIR (se_environ E) st1 = Some (s1, w1, es)"
    by (cases "load_settings BCW_STATE_DIR (se_environ E) st1") (auto split: prod.splits)
  with o body job ready \<open>saved\<close> have "es = []" and la: "launch E source s1 w1 st1 = (st', RunStarted rid pid settings ws)"
    by (auto split: prod.splits if_splits)
  from la have "s1 = settings" "w1 = ws" "se_popen E = Some pid" "rid = se_run_id E"
    by (auto simp: launch_def Let_def split: option.splits)
  with that [of st1] o l la \<open>es = []\<close> \<open>saved\<close> show thesis by simp
qed

lemma solo_step:
  assumes "panel_step h ev h'" and "solo h" and "calm ev"
  shows "solo h'"
  using assms(1)
proof cases
  case (begun E ov source st' settings ws)
  have no: "ho_live h = []"
  proof (rule ccontr)
    assume "ho_live h \<noteq> []"
    with assms(2) begun(5) obtain q where "ho_live h = [q]" "0 < q" "names_live (ho_store h) q" by (auto simp: solo_def)
    with start_while_live [of "ho_store h" q E ov source] begun(3,4) show False by (auto simp: covers_def)
  qed
  with begun assms(2,3) show ?thesis by (simp add: solo_def)
next
  case (spawned E source pid)
  with solo_starting [OF assms(2) spawned(3)] show ?thesis by (simp add: solo_def)
next
  case (recorded E source pid)
  from solo_starting [OF assms(2) recorded(3)] have "load_job (start_records E source pid (ho_store h)) = Inr (started_job E source pid)"
    by (simp add: start_records_def load_saved_job)
  with recorded solo_starting [OF assms(2) recorded(3)] show ?thesis by (simp add: solo_def names_live_def)
next
  case (not_spawned E source)
  with solo_starting [OF assms(2) not_spawned(3)] show ?thesis by (simp add: solo_def)
next
  case (refused E ov source st' a)
  show ?thesis unfolding refused(2)
  proof (rule solo_store [OF assms(2)])
    fix q assume "ho_live h = [q]" "0 < q" "names_live (ho_store h) q"
    with start_while_live [of "ho_store h" q E ov source] refused(3,4) show "names_live st' q" by (auto simp: covers_def)
  qed
next
  case (finished pid job C tree' st' r)
  with assms(2) have "removeAll pid (ho_live h) = []" "ho_live h = [pid]" "ho_starting h = None"
    by (auto simp: solo_def split: option.splits)
  with finished assms(2) show ?thesis by (auto simp: solo_def)
next
  case (looked alive f st' job running)
  show ?thesis unfolding looked(2)
  proof (rule solo_store [OF assms(2)])
    fix q assume q: "ho_live h = [q]" "0 < q" "names_live (ho_store h) q"
    then have "alive q" using looked by (simp add: covers_def)
    with q(3,2) obtain job where "load_job (ho_store h) = Inr job" "job_running alive job" by (rule names_live_running)
    with looked(3) q(3) show "names_live st' q" by (auto simp: overview_job_def Let_def split: if_splits)
  qed
next
  case (elsewhere st')
  with solo_store [OF assms(2)] load_job_cong [of st' "ho_store h", OF elsewhere(3)] show ?thesis by (simp add: names_live_def)
next
  case restarted
  show ?thesis
  proof (cases "ho_starting h")
    case None
    with restarted assms(2) show ?thesis by (simp add: solo_def)
  next
    case (Some x)
    then obtain E source sp where x: "ho_starting h = Some (E, source, sp)" by (cases x) auto
    with restarted have "sp = None" by (cases sp) (simp_all add: spawned_pid_def)
    with x solo_starting [OF assms(2) x] restarted show ?thesis by (simp add: solo_def)
  qed
next
  case (orphan_ends pid)
  show ?thesis
  proof (cases "pid \<in> set (ho_live h)")
    case True
    have none: "ho_starting h = None"
    proof (rule ccontr)
      assume "ho_starting h \<noteq> None"
      then obtain E source sp where x: "ho_starting h = Some (E, source, sp)" by auto
      with solo_starting [OF assms(2) x] True orphan_ends(4) show False by (cases sp) (simp_all add: spawned_pid_def)
    qed
    with True assms(2) have l: "ho_live h = [pid]" by (auto simp: solo_def)
    with orphan_ends(3) assms(2) have "ho_waiting h = []" by (cases "ho_waiting h") (auto simp: solo_def)
    with l none orphan_ends show ?thesis by (simp add: solo_def)
  next
    case False
    with orphan_ends assms(2) show ?thesis by (simp add: removeAll_id)
  qed
qed (use assms(3) in simp_all)

lemma solo_runs: "panel_runs h evs h' \<Longrightarrow> solo h \<Longrightarrow> list_all calm evs \<Longrightarrow> solo h'"
  by (induction rule: panel_runs.induct) (auto intro: solo_step)

lemma solo_fresh: "solo (fresh_host st tree)"
  by (simp add: solo_def fresh_host_def)

section \<open>What the operations record\<close>

lemma state_files_differ:
  "state_path BCW_STATE_DIR SETTINGS_FILE = ''/opt/webzapret/state/bcw/bcw_settings.json''"
  "state_path BCW_STATE_DIR JOB_FILE = ''/opt/webzapret/state/bcw/bcw_job.json''"
  "state_path BCW_STATE_DIR LAST_RUN_FILE = ''/opt/webzapret/state/bcw/bcw_last.json''"
  by code_simp+

text \<open>The settings copy of a run is another file than the state files, whatever the identifier.\<close>

lemma os_join_ends: "a \<noteq> [] \<Longrightarrow> \<not> startswith b ''/'' \<Longrightarrow> \<exists>p. os_join a b = p @ ''/'' @ b"
proof (cases "last a = CHR ''/''")
  case True
  assume "a \<noteq> []" "\<not> startswith b ''/''"
  with True have "os_join a b = butlast a @ ''/'' @ b" using append_butlast_last_id [of a] by (simp add: os_join_def)
  then show ?thesis by blast
qed (auto simp: os_join_def)

lemma settings_copy_ends: "\<exists>p. settings_copy rid = p @ ''/settings.json''"
proof -
  have "run_dir_of rid \<noteq> []" by (auto simp: run_dir_of_def os_join_def BCW_RUNS_DIR_def)
  from os_join_ends [OF this, of "''settings.json''"] show ?thesis by (simp add: settings_copy_def)
qed

lemma settings_copy_neq:
  "drop (length p - 14) p \<noteq> ''/settings.json'' \<Longrightarrow> settings_copy rid \<noteq> p"
  "drop (length p - 18) p \<noteq> ''/settings.json.tmp'' \<Longrightarrow> settings_copy rid @ ''.tmp'' \<noteq> p"
proof -
  obtain q where q: "settings_copy rid = q @ ''/settings.json''" using settings_copy_ends by blast
  have "drop (length (q @ ''/settings.json'') - 14) (q @ ''/settings.json'') = ''/settings.json''"
    "drop (length (q @ ''/settings.json.tmp'') - 18) (q @ ''/settings.json.tmp'') = ''/settings.json.tmp''" by simp_all
  then show "drop (length p - 14) p \<noteq> ''/settings.json'' \<Longrightarrow> settings_copy rid \<noteq> p"
    "drop (length p - 18) p \<noteq> ''/settings.json.tmp'' \<Longrightarrow> settings_copy rid @ ''.tmp'' \<noteq> p"
    unfolding q by auto
qed

lemma settings_copy_other:
  "settings_copy rid \<noteq> state_path BCW_STATE_DIR JOB_FILE" "settings_copy rid \<noteq> state_path BCW_STATE_DIR JOB_FILE @ ''.tmp''"
  "settings_copy rid \<noteq> state_path BCW_STATE_DIR SETTINGS_FILE" "settings_copy rid \<noteq> state_path BCW_STATE_DIR SETTINGS_FILE @ ''.tmp''"
  "settings_copy rid @ ''.tmp'' \<noteq> state_path BCW_STATE_DIR JOB_FILE"
  by (rule settings_copy_neq, code_simp)+

lemma save_job_other:
  "p \<noteq> state_path BCW_STATE_DIR JOB_FILE \<Longrightarrow> p \<noteq> state_path BCW_STATE_DIR JOB_FILE @ ''.tmp'' \<Longrightarrow> save_job f job st p = st p"
  unfolding save_job_def by (cases "write_json f (state_path BCW_STATE_DIR JOB_FILE) (JDict job) st") (auto dest: write_json_others)

lemma launch_copy:
  assumes "launch E source settings ws st = (st', RunStarted rid pid s w)" and "se_f_copy E = NoFault"
  shows "read_json st' (settings_copy rid) d = JDict settings"
proof -
  obtain st2 ok where w: "write_json NoFault (settings_copy (se_run_id E)) (JDict settings) st = (st2, ok)" by fastforce
  from assms w have "st' (settings_copy rid) = st2 (settings_copy rid)" "rid = se_run_id E"
    by (auto simp: launch_def Let_def save_job_other settings_copy_other split: option.splits)
  with write_json_read [OF w, of d] write_json_ok [OF w] show ?thesis by (simp add: read_json_def)
qed

lemma overrides_effect:
  assumes "start_overrides E ov st = Some (st1, saved)"
  shows "load_job st1 = load_job st \<and>
    (\<not> saved \<longrightarrow> load_settings BCW_STATE_DIR (se_environ E) st1 = load_settings BCW_STATE_DIR (se_environ E) st) \<and>
    (saved \<longrightarrow> st1 = st \<or> (\<exists>s ws. load_settings BCW_STATE_DIR (se_environ E) st1 = Some (s, ws, [])))"
proof (cases "ov = None \<or> ov = Some []")
  case True
  with assms show ?thesis by (auto simp: start_overrides_def)
next
  case False
  then obtain kv kvs where ov: "ov = Some (kv # kvs)" by (cases ov) (auto simp: neq_Nil_conv)
  with assms obtain res where sv: "save_settings (se_f_settings E) BCW_STATE_DIR (se_environ E) (kv # kvs) st = Some (st1, res, saved)"
    by (auto simp: start_overrides_def split: option.splits)
  have "st1 (state_path BCW_STATE_DIR JOB_FILE) = st (state_path BCW_STATE_DIR JOB_FILE)"
    by (rule settings_file.save_frame [OF sv]) (simp_all add: state_files_differ)
  then have "load_job st1 = load_job st" by (rule load_job_cong)
  moreover have "snd (snd res) = []" if saved using settings_file.save_ok_iff [OF sv] that by simp
  ultimately show ?thesis
    using settings_file.save_failed_unchanged [OF sv] settings_file.save_then_load [OF sv] by (cases res) auto
qed

lemma overrides_frame:
  assumes "start_overrides E ov st = Some (st1, saved)" and "p \<noteq> state_path BCW_STATE_DIR SETTINGS_FILE"
    and "p \<noteq> state_path BCW_STATE_DIR SETTINGS_FILE @ ''.tmp''"
  shows "st1 p = st p"
  using assms(1)
  by (auto simp: start_overrides_def split: option.splits list.splits intro: settings_file.save_frame [OF _ assms(2,3)])

lemma loaded_not_runnable:
  "load_settings dir environ st = Some (s, ws, es) \<Longrightarrow> es \<noteq> [] \<Longrightarrow> \<not> runnable s"
proof -
  assume l: "load_settings dir environ st = Some (s, ws, es)" and ne: "es \<noteq> []"
  from l obtain d where "normalize_settings d (settings_env environ) = (s, ws, es)"
    by (auto simp: load_settings_def split: option.splits)
  with ne normalize_settings_runnable [of d "settings_env environ"] show ?thesis by simp
qed

text \<open>What a start can answer without having started.\<close>

lemma refused_early:
  assumes "bcw_start_run E ov source st = Inr (st', a)" and "\<not> is_started a" and "a \<noteq> HarnessNotStarted"
    and "\<not> (\<exists>st1 saved. start_overrides E ov st = Some (st1, saved) \<and> st' = st1 \<and>
      (a = CannotPersist \<and> \<not> saved \<or> saved \<and> a = NoRunDir \<or> saved \<and> (\<exists>s es ws. a = BadSettings es ws \<and> es \<noteq> [] \<and>
         load_settings BCW_STATE_DIR (se_environ E) st1 = Some (s, ws, es))))"
  shows "st' = st \<and> ((\<exists>w. a = NotReady w) \<or> (\<exists>r. a = AlreadyRunning r))"
proof (rule ccontr)
  assume no: "\<not> (st' = st \<and> ((\<exists>w. a = NotReady w) \<or> (\<exists>r. a = AlreadyRunning r)))"
  note body = assms(1) [unfolded bcw_start_run_def]
  obtain ready why where r: "bcw_ready (se_module E) (se_harness E) = (ready, why)" by fastforce
  with body no have ready by (auto split: if_splits)
  with body r obtain job where job: "load_job st = Inr job" by (auto split: sum.splits)
  with body r \<open>ready\<close> no have "\<not> job_running (se_alive E) job" by (auto split: if_splits)
  with body r \<open>ready\<close> job obtain st1 saved where o: "start_overrides E ov st = Some (st1, saved)"
    by (cases "start_overrides E ov st") auto
  with body r \<open>ready\<close> job \<open>\<not> job_running (se_alive E) job\<close> assms(4) have saved by (auto split: if_splits)
  with body r \<open>ready\<close> job \<open>\<not> job_running (se_alive E) job\<close> o obtain s ws es where
    l: "load_settings BCW_STATE_DIR (se_environ E) st1 = Some (s, ws, es)"
    by (cases "load_settings BCW_STATE_DIR (se_environ E) st1") auto
  with body r \<open>ready\<close> job \<open>\<not> job_running (se_alive E) job\<close> o \<open>saved\<close> assms(4)
  have "launch E source s ws st1 = (st', a)" by (auto split: if_splits)
  with assms(2,3) show False by (auto simp: launch_def Let_def split: option.splits)
qed

text \<open>Names in a directory hold no slash; then what a pruning unlinks is no state file.\<close>

definition plain_name :: "string \<Rightarrow> bool" where
  "plain_name n = (CHR ''/'' \<notin> set n)"

definition plain_tree :: "runs_tree \<Rightarrow> bool" where
  "plain_tree tree = list_all (\<lambda>x. plain_name (fst x) \<and> (case snd x of PlainFile \<Rightarrow> True
     | RunDir es \<Rightarrow> list_all (\<lambda>e. plain_name (fst e)) es)) tree"

lemma os_join_plain: "plain_name b \<Longrightarrow> a \<noteq> [] \<Longrightarrow> last a \<noteq> CHR ''/'' \<Longrightarrow> os_join a b = a @ ''/'' @ b"
  by (cases b) (auto simp: os_join_def plain_name_def)

lemma run_file_prefix:
  assumes "plain_name n" and "plain_name e"
  shows "\<exists>q. os_join (run_dir_of n) e = BCW_RUNS_DIR @ ''/'' @ q"
proof -
  have r: "run_dir_of n = BCW_RUNS_DIR @ ''/'' @ n"
    unfolding run_dir_of_def by (rule os_join_plain [OF assms(1)]) (simp_all add: BCW_RUNS_DIR_def)
  show ?thesis
  proof (cases "n = []")
    case True
    with r assms(2) show ?thesis by (cases e) (auto simp: os_join_def plain_name_def)
  next
    case False
    with assms(1) have "last n \<noteq> CHR ''/''" using last_in_set [OF False] unfolding plain_name_def by metis
    with False have "last (run_dir_of n) \<noteq> CHR ''/''" by (simp add: r)
    with r os_join_plain [OF assms(2), of "run_dir_of n"] show ?thesis by simp
  qed
qed

lemma pruned_store_keeps:
  assumes "plain_tree tree" and "\<not> startswith p (BCW_RUNS_DIR @ ''/'')"
  shows "pruned_store tree tree' st p = st p"
proof -
  have no: "p \<noteq> os_join (run_dir_of n) e" if "plain_name n" "plain_name e" for n e
    using run_file_prefix [OF that] assms(2) by (metis append_assoc startswith_append)
  have "p \<noteq> os_join (run_dir_of n) (fst e)" if "(n, RunDir es) \<in> set tree" "e \<in> set es" for n es e
    by (rule no) (use assms(1) that in \<open>force simp: plain_tree_def list_all_iff\<close>)+
  then have "\<not> list_ex (\<lambda>x. case snd x of PlainFile \<Rightarrow> False
       | RunDir es \<Rightarrow> list_ex (\<lambda>e. p = os_join (run_dir_of (fst x)) (fst e) \<and> \<not> holds_entry tree' (fst x) (fst e)) es) tree"
    unfolding list_ex_iff by (fastforce split: runs_entry.splits)
  then show ?thesis by (simp add: pruned_store_def)
qed

lemma after_collect_store: "after_collect C job res st = (st', r) \<Longrightarrow> st' = st"
  by (auto simp: after_collect_def bcw_import_def bcw_import_rows_def Let_def
      split: sum.splits bool.splits prod.splits if_splits json.splits)

section \<open>Properties\<close>

text \<open>
  Property C24. At most one selection at a time: as long as nobody cancels, no thread that writes the job file without
  the lock (a collecting thread, an overview that found a stale job) is held up between its reading and
  its writing, the panel is not restarted in the middle of a start, and the process identifier of a start gets
  written, at most one harness lives, across refused and failing starts, overviews and other work in the
  middle of a start, restarts of the panel and the work of the harness itself; and outside a start the job file names its
  process as running.
\<close>

theorem one_harness_when_calm:
  assumes "panel_runs (fresh_host st tree) evs h" and "list_all calm evs"
  shows "length (ho_live h) \<le> 1 \<and> (ho_starting h = None \<longrightarrow> list_all (names_live (ho_store h)) (ho_live h))"
  using solo_runs [OF assms(1) solo_fresh assms(2)] by (auto simp: solo_def split: option.splits)

definition sample_start :: "int \<Rightarrow> start_env" where
  "sample_start pid = \<lparr>se_module = True, se_harness = True, se_environ = (\<lambda>_. None), se_alive = (\<lambda>p. p = 7),
     se_run_id = ''r'' @ show_int pid, se_stamp = ''t'', se_mkdir = True, se_popen = Some pid,
     se_f_settings = NoFault, se_f_copy = NoFault, se_f_job1 = NoFault, se_f_job2 = NoFault\<rparr>"

definition no_files :: store where "no_files = (\<lambda>_. None)"

definition starts_with_pid :: "int \<Rightarrow> (store \<times> start_answer) result \<Rightarrow> bool" where
  "starts_with_pid pid r = (case r of Inl e \<Rightarrow> False | Inr (st, a) \<Rightarrow>
     (case a of RunStarted rid p s w \<Rightarrow> p = pid | _ \<Rightarrow> False))"

lemma starts_with_pidE:
  assumes "starts_with_pid pid (bcw_start_run E ov source st)"
  obtains st' rid s w where "bcw_start_run E ov source st = Inr (st', RunStarted rid pid s w)"
proof -
  from assms obtain st' a where r: "bcw_start_run E ov source st = Inr (st', a)" by (auto simp: starts_with_pid_def split: sum.splits)
  with assms that show thesis by (cases a) (auto simp: starts_with_pid_def)
qed

lemma sample_start_once: "starts_with_pid 7 (bcw_start_run (sample_start 7) None ''manual'' no_files)"
  by code_simp

lemma start_from_fresh:
  assumes "bcw_start_run E ov source st = Inr (st', RunStarted rid pid s w)" and "0 < pid"
  shows "panel_runs (fresh_host st tree) (start_events E ov source) (after_start (fresh_host st tree) E source pid st')"
  by (rule start_undisturbed) (use assms in \<open>simp_all add: fresh_host_def covers_def\<close>)

theorem one_harness_when_calm_witness:
  "\<exists>h. panel_runs (fresh_host no_files []) (start_events (sample_start 7) None ''manual'') h \<and> ho_live h = [7] \<and>
    names_live (ho_store h) 7"
proof -
  obtain st' rid s w where b: "bcw_start_run (sample_start 7) None ''manual'' no_files = Inr (st', RunStarted rid 7 s w)"
    using sample_start_once by (rule starts_with_pidE)
  note runs = start_from_fresh [OF b, of "[]"]
  have "list_all calm (start_events (sample_start 7) None ''manual'')" by (simp add: start_events_def sample_start_def)
  with one_harness_when_calm [OF runs] runs show ?thesis
    by (intro exI [of _ "after_start (fresh_host no_files []) (sample_start 7) ''manual'' 7 st'"])
      (simp add: after_start_def fresh_host_def)
qed



text \<open>
  Property C28. What a start has recorded when it is answered as started: when the second write of the job file went
  through, the file names the process as running, otherwise it holds the job without a process of the first write, or what it held
  before when that failed too; when the copy of the settings was written, the harness
  is given that copy and reads it without a problem, with the answered value for every setting (floats included), under any
  environment of the harness, otherwise it is given what stood there before. None of these writes is looked at: the answer is the
  same in all cases.
\<close>

theorem started_run_recorded:
  assumes "bcw_start_run E ov source st = Inr (st', RunStarted rid pid settings ws)"
  shows "(if se_f_job2 E = NoFault then names_live st' pid \<and> load_job st' = Inr (started_job E source pid)
      else load_job st' = (if se_f_job1 E = NoFault then Inr (first_job E source) else load_job st)) \<and>
    (if se_f_copy E = NoFault then \<exists>d' ws'. settings_from_file environ' st' (harness_argv rid ! 2) = Some (d', ws', []) \<and> same_settings settings d'
      else st' (harness_argv rid ! 2) = st (harness_argv rid ! 2))"
proof -
  obtain st1 where s: "load_settings BCW_STATE_DIR (se_environ E) st1 = Some (settings, ws, [])"
    "launch E source settings ws st1 = (st', RunStarted rid pid settings ws)"
    and o: "start_overrides E ov st = Some (st1, True)" "rid = se_run_id E" "se_popen E = Some pid"
    using assms by (rule start_cases)
  define st2 where "st2 = fst (write_json (se_f_copy E) (settings_copy rid) (JDict settings) st1)"
  have st': "st' = save_job (se_f_job2 E) (started_job E source pid) (save_job (se_f_job1 E) (first_job E source) st2)"
    using s(2) o(2,3) by (simp add: launch_def Let_def st2_def)
  obtain ok where w: "write_json (se_f_copy E) (settings_copy rid) (JDict settings) st1 = (st2, ok)"
    unfolding st2_def by (metis prod.collapse)
  have "st2 (state_path BCW_STATE_DIR JOB_FILE) = st1 (state_path BCW_STATE_DIR JOB_FILE)"
    by (rule write_json_others [OF w]) (metis settings_copy_other(1,5))+
  then have j2: "load_job st2 = load_job st" using overrides_effect [OF o(1)] load_job_cong [of st2 st1] by simp
  have failed: "load_job (save_job f job st) = load_job st" if "f \<noteq> NoFault" for f job st
    using write_json_target [of f "state_path BCW_STATE_DIR JOB_FILE" "JDict job" st] write_json_ok [of f "state_path BCW_STATE_DIR JOB_FILE" "JDict job" st] that
    by (cases "write_json f (state_path BCW_STATE_DIR JOB_FILE) (JDict job) st") (auto simp: save_job_def intro: load_job_cong)
  have "first_job E source \<noteq> []" by (simp add: first_job_def)
  then have jobs: "if se_f_job2 E = NoFault then load_job st' = Inr (started_job E source pid)
      else load_job st' = (if se_f_job1 E = NoFault then Inr (first_job E source) else load_job st)"
    by (simp add: st' load_saved_job failed j2)
  have copy: "st' (settings_copy rid) = st2 (settings_copy rid)"
    by (simp add: st' save_job_other settings_copy_other(1,2))
  show ?thesis
  proof (cases "se_f_copy E = NoFault")
    case True
    obtain v where n: "normalize_settings v (settings_env (se_environ E)) = (settings, ws, [])"
      using s(1) by (auto simp: load_settings_def split: option.splits)
    have "runnable settings" using normalize_settings_runnable [of v "settings_env (se_environ E)"] n by simp
    then have "settings \<noteq> []" by (auto simp: runnable_def)
    with launch_copy [OF s(2) True] have "persisted st' (settings_copy rid) = Some settings"
      by (simp add: persisted_def py_or_def)
    from clean_settings_accepted [OF n this, of environ'] obtain d' ws' where
      "settings_from_file environ' st' (settings_copy rid) = Some (d', ws', [])" "same_settings settings d'" .
    with jobs True show ?thesis by (auto simp: harness_argv_def names_live_def)
  next
    case False
    with write_json_ok [OF w] write_json_target [OF w] have "st2 (settings_copy rid) = st1 (settings_copy rid)" by simp
    also have "\<dots> = st (settings_copy rid)" by (rule overrides_frame [OF o(1)]) (rule settings_copy_other)+
    finally show ?thesis using False jobs copy by (auto simp: harness_argv_def names_live_def)
  qed
qed

theorem started_run_recorded_witness:
  "\<exists>st' rid s w d' ws'. bcw_start_run (sample_start 7) None ''manual'' no_files = Inr (st', RunStarted rid 7 s w) \<and>
    names_live st' 7 \<and> settings_from_file (\<lambda>_. None) st' (harness_argv rid ! 2) = Some (d', ws', [])"
proof -
  obtain st' rid s w where b: "bcw_start_run (sample_start 7) None ''manual'' no_files = Inr (st', RunStarted rid 7 s w)"
    using sample_start_once by (rule starts_with_pidE)
  from started_run_recorded [OF b, of "\<lambda>_. None"] b show ?thesis by (fastforce simp: sample_start_def)
qed

text \<open>
  A refused start leaves the state alone: the job file stays as it was; while a run is in
  progress, and when the stored settings have a problem, nothing is written at all; when the overrides
  could not be saved, or have a problem themselves (which the answer does not tell apart), the settings
  that are loaded are those from before.
\<close>

theorem refused_start_harmless:
  assumes "bcw_start_run E ov source st = Inr (st', a)" and "\<not> is_started a" and "a \<noteq> HarnessNotStarted"
  shows "load_job st' = load_job st \<and>
    (case a of NotReady w \<Rightarrow> st' = st | AlreadyRunning r \<Rightarrow> st' = st
     | CannotPersist \<Rightarrow> load_settings BCW_STATE_DIR (se_environ E) st' = load_settings BCW_STATE_DIR (se_environ E) st
     | BadSettings es ws \<Rightarrow> st' = st \<and> (\<exists>s. load_settings BCW_STATE_DIR (se_environ E) st = Some (s, ws, es) \<and> \<not> runnable s)
     | _ \<Rightarrow> True)"
proof (cases "\<exists>st1 saved. start_overrides E ov st = Some (st1, saved) \<and> st' = st1 \<and>
    (a = CannotPersist \<and> \<not> saved \<or> saved \<and> a = NoRunDir \<or> saved \<and> (\<exists>s es ws. a = BadSettings es ws \<and> es \<noteq> [] \<and>
       load_settings BCW_STATE_DIR (se_environ E) st1 = Some (s, ws, es)))")
  case True
  then obtain st1 saved where o: "start_overrides E ov st = Some (st1, saved)" "st' = st1"
    "a = CannotPersist \<and> \<not> saved \<or> saved \<and> a = NoRunDir \<or> saved \<and> (\<exists>s es ws. a = BadSettings es ws \<and> es \<noteq> [] \<and>
       load_settings BCW_STATE_DIR (se_environ E) st1 = Some (s, ws, es))" by blast
  from overrides_effect [OF o(1)] o(2,3) show ?thesis by (auto simp: loaded_not_runnable)
next
  case False
  with assms have "st' = st \<and> ((\<exists>w. a = NotReady w) \<or> (\<exists>r. a = AlreadyRunning r))"
    by (intro refused_early [of E ov source]) auto
  then show ?thesis by auto
qed

theorem refused_start_harmless_witness:
  "\<exists>st' a. bcw_start_run (sample_start 8) None ''manual''
      (no_files(state_path BCW_STATE_DIR JOB_FILE \<mapsto> Json (JDict (started_job (sample_start 7) ''manual'' 7)))) = Inr (st', a) \<and>
    (\<exists>r. a = AlreadyRunning r) \<and> load_job st' = Inr (started_job (sample_start 7) ''manual'' 7)"
proof -
  let ?st = "no_files(state_path BCW_STATE_DIR JOB_FILE \<mapsto> Json (JDict (started_job (sample_start 7) ''manual'' 7)))"
  have job: "load_job ?st = Inr (started_job (sample_start 7) ''manual'' 7)"
    by (simp add: load_job_def read_json_def py_or_def)
  then have b: "bcw_start_run (sample_start 8) None ''manual'' ?st
      = Inr (?st, AlreadyRunning (dget_or (started_job (sample_start 7) ''manual'' 7) ''run_id'' (JStr ''?'')))"
    by (simp add: bcw_start_run_def bcw_ready_def job_running_def pid_alive_def sample_start_def [of 8])
  from refused_start_harmless [OF b] b job show ?thesis by auto
qed

text \<open>
  The end of a run is recorded before anything else can go wrong: when the result of the harness
  is a dictionary, the job file says done or error as the result says, with the exit code, and the last
  run is replaced exactly by an ok result, whether or not the summary, the pruning or the automatic
  import raises afterwards; the pruning touches no state file.
\<close>

theorem collect_records_end:
  assumes "bcw_collect C job tree st = (tree', st', r)" and "collected_result C job st = JDict res"
    and "plain_tree tree" and "ce_f_job C = NoFault" and "ce_f_last C = NoFault"
  shows "load_job st' = Inr (finished_job C job (truthy (dget_or res ''ok'' JNull))) \<and>
    read_json st' (state_path BCW_STATE_DIR LAST_RUN_FILE) JNull =
      (if truthy (dget_or res ''ok'' JNull) then JDict res else read_json st (state_path BCW_STATE_DIR LAST_RUN_FILE) JNull)"
proof -
  let ?ok = "truthy (dget_or res ''ok'' JNull)" and ?j = "state_path BCW_STATE_DIR JOB_FILE" and ?l = "state_path BCW_STATE_DIR LAST_RUN_FILE"
  define st1 where "st1 = save_job NoFault (finished_job C job ?ok) st"
  define st2 where "st2 = (if ?ok then fst (write_json NoFault ?l (JDict res) st1) else st1)"
  obtain tree1 removed where t: "prune_runs (ce_can_unlink C) (ce_can_open C) (ce_keep C) tree = (tree1, removed)" by fastforce
  have "(tree1, after_collect C (finished_job C job ?ok) res (pruned_store tree tree1 st2)) = (tree', st', r)"
    using assms(1) unfolding bcw_collect_def assms(2) json.case Let_def t prod.case assms(4,5) st1_def st2_def .
  then have a: "after_collect C (finished_job C job ?ok) res (pruned_store tree tree1 st2) = (st', r)" by (rule conjunct2 [OF iffD1 [OF prod.inject]])
  have st': "st' = pruned_store tree tree1 st2" by (rule after_collect_store [OF a])
  have ne: "finished_job C job ?ok \<noteq> []" by (simp add: finished_job_def dset_def)
  have paths: "\<not> startswith ?j (BCW_RUNS_DIR @ ''/'')" "\<not> startswith ?l (BCW_RUNS_DIR @ ''/'')" by code_simp+
  have keep: "st' ?j = st2 ?j" "st' ?l = st2 ?l" unfolding st' using pruned_store_keeps [OF assms(3)] paths by blast+
  obtain s2 ok2 where w: "write_json NoFault ?l (JDict res) st1 = (s2, ok2)" by fastforce
  have "st2 ?j = st1 ?j" using write_json_others [OF w, of ?j] w by (auto simp: st2_def state_files_differ)
  with keep(1) have "load_job st' = load_job st1" by (intro load_job_cong) simp
  moreover have "load_job st1 = Inr (finished_job C job ?ok)" unfolding st1_def by (rule load_saved_job [OF ne])
  moreover have "st1 ?l = st ?l" unfolding st1_def by (rule save_job_other) (simp_all add: state_files_differ)
  moreover have "read_json st2 ?l JNull = (if ?ok then JDict res else read_json st1 ?l JNull)"
    using write_json_read [OF w, of JNull] write_json_ok [OF w] w by (simp add: st2_def)
  ultimately show ?thesis using keep(2) by (simp add: read_json_def)
qed

definition sample_collect :: collect_env where
  "sample_collect = \<lparr>ce_parsed = Some (JDict [(''ok'', JBool True), (''domains'', JInt 3)]), ce_rc = 0, ce_stamp = ''t'',
     ce_f_job = NoFault, ce_f_last = NoFault, ce_can_unlink = (\<lambda>_ _. True), ce_can_open = (\<lambda>_. True), ce_keep = 10,
     ce_ready = True, ce_environ = (\<lambda>_. None)\<rparr>"

theorem collect_records_end_witness:
  "\<exists>tree' st' r. bcw_collect sample_collect (started_job (sample_start 7) ''manual'' 7) [] no_files = (tree', st', r) \<and>
    load_job st' = Inr (finished_job sample_collect (started_job (sample_start 7) ''manual'' 7) True)"
proof -
  let ?job = "started_job (sample_start 7) ''manual'' 7"
  obtain tree' st' r where b: "bcw_collect sample_collect ?job [] no_files = (tree', st', r)" by (rule prod_cases3)
  have res: "collected_result sample_collect ?job no_files = JDict [(''ok'', JBool True), (''domains'', JInt 3)]"
    by (simp add: collected_result_def sample_collect_def)
  from collect_records_end [OF b res] b show ?thesis
    by (simp add: plain_tree_def sample_collect_def dget_or_def)
qed

end
