(* ===== verification/Codec.thy ===== *)
theory Codec
  imports PyText "HOL-Library.Word"
begin

unbundle bit_operations_syntax

text \<open>
  The encodings of the standard library that the panel uses for credentials: UTF-8 on code points (strict,
  as \<open>bytes.decode("utf-8")\<close>), base64 as \<open>base64.b64encode\<close> writes it and \<open>base64.b64decode\<close> reads it (the
  lenient reader of CPython: characters outside the alphabet are skipped, the text ends at a complete
  padding), and the URL-safe alphabet. The locale \<open>codec\<close> states what a pair of them promises.
\<close>

type_synonym byte = "8 word"
type_synonym codepoints = "nat list"

definition text_points :: "string \<Rightarrow> codepoints" where
  "text_points s = map ord s"

section \<open>Contracts\<close>

text \<open>A decoder undoes its encoder on the admissible values.\<close>

locale codec =
  fixes okay :: "'a \<Rightarrow> bool" and enc :: "'a \<Rightarrow> 'b" and dec :: "'b \<Rightarrow> 'a option"
  assumes dec_enc: "okay x \<Longrightarrow> dec (enc x) = Some x"
begin

lemma enc_eq_iff: "okay x \<Longrightarrow> okay y \<Longrightarrow> enc x = enc y \<longleftrightarrow> x = y"
  using dec_enc by (metis option.inject)

end

text \<open>Two of them in a row are one.\<close>

locale codec_chain = inner: codec okay enc dec + outer: codec okay2 enc2 dec2
  for okay :: "'a \<Rightarrow> bool" and enc :: "'a \<Rightarrow> 'b" and dec :: "'b \<Rightarrow> 'a option"
    and okay2 :: "'b \<Rightarrow> bool" and enc2 :: "'b \<Rightarrow> 'c" and dec2 :: "'c \<Rightarrow> 'b option" +
  assumes enc_okay: "okay x \<Longrightarrow> okay2 (enc x)"
begin

lemma chain_dec_enc: "okay x \<Longrightarrow> Option.bind (dec2 (enc2 (enc x))) dec = Some x"
  by (simp add: outer.dec_enc [OF enc_okay] inner.dec_enc)

end

sublocale codec_chain \<subseteq> whole: codec okay "enc2 \<circ> enc" "\<lambda>y. Option.bind (dec2 y) dec"
  by unfold_locales (simp add: chain_dec_enc)

section \<open>UTF-8\<close>

text \<open>The Unicode scalar values: no surrogates.\<close>

definition scalar :: "nat \<Rightarrow> bool" where
  "scalar p = (p < 0xD800 \<or> (0xE000 \<le> p \<and> p < 0x110000))"

definition utf8_point :: "nat \<Rightarrow> nat list" where
  "utf8_point p = (if p < 0x80 then [p]
     else if p < 0x800 then [0xC0 + p div 64, 0x80 + p mod 64]
     else if p < 0x10000 then [0xE0 + p div 4096, 0x80 + p div 64 mod 64, 0x80 + p mod 64]
     else [0xF0 + p div 262144, 0x80 + p div 4096 mod 64, 0x80 + p div 64 mod 64, 0x80 + p mod 64])"

definition utf8_encode :: "codepoints \<Rightarrow> byte list" where
  "utf8_encode ps = map of_nat (concat (map utf8_point ps))"

definition tail_byte :: "nat \<Rightarrow> bool" where
  "tail_byte b = (0x80 \<le> b \<and> b < 0xC0)"

text \<open>One code point from the front: overlong forms, surrogates and values above U+10FFFF are errors.\<close>

fun utf8_first :: "nat list \<Rightarrow> (nat \<times> nat list) option" where
  "utf8_first [] = None"
| "utf8_first (a # r) = (
     if a < 0x80 then Some (a, r)
     else if a < 0xC2 then None
     else if a < 0xE0 then (case r of b # r' \<Rightarrow>
         if tail_byte b then Some (64 * (a - 0xC0) + (b - 0x80), r') else None | _ \<Rightarrow> None)
     else if a < 0xF0 then (case r of b # c # r' \<Rightarrow>
         if tail_byte b \<and> tail_byte c \<and> (a = 0xE0 \<longrightarrow> 0xA0 \<le> b) \<and> (a = 0xED \<longrightarrow> b < 0xA0)
         then Some (4096 * (a - 0xE0) + 64 * (b - 0x80) + (c - 0x80), r') else None | _ \<Rightarrow> None)
     else if a < 0xF5 then (case r of b # c # d # r' \<Rightarrow>
         if tail_byte b \<and> tail_byte c \<and> tail_byte d \<and> (a = 0xF0 \<longrightarrow> 0x90 \<le> b) \<and> (a = 0xF4 \<longrightarrow> b < 0x90)
         then Some (262144 * (a - 0xF0) + 4096 * (b - 0x80) + 64 * (c - 0x80) + (d - 0x80), r')
         else None | _ \<Rightarrow> None)
     else None)"

lemma utf8_first_shorter: "utf8_first bs = Some (p, r) \<Longrightarrow> length r < length bs"
  by (cases bs) (auto split: if_splits list.splits)

function utf8_go :: "nat list \<Rightarrow> codepoints option" where
  "utf8_go bs = (if bs = [] then Some [] else
     (case utf8_first bs of None \<Rightarrow> None | Some (p, r) \<Rightarrow> map_option ((#) p) (utf8_go r)))"
  by pat_completeness auto
termination
  by (relation "measure length") (auto dest: utf8_first_shorter)

declare utf8_go.simps [simp del]

definition utf8_decode :: "byte list \<Rightarrow> codepoints option" where
  "utf8_decode bs = utf8_go (map unat bs)"

lemma utf8_point_bytes: "scalar p \<Longrightarrow> b \<in> set (utf8_point p) \<Longrightarrow> b < 256"
  by (auto simp: utf8_point_def scalar_def less_mult_imp_div_less split: if_splits)

text \<open>Numbers in base 64.\<close>

lemma base64_digits:
  fixes p :: nat
  shows "p = 64 * (p div 64) + p mod 64"
    and "p = 4096 * (p div 4096) + 64 * (p div 64 mod 64) + p mod 64"
    and "p = 262144 * (p div 262144) + 4096 * (p div 4096 mod 64) + 64 * (p div 64 mod 64) + p mod 64"
proof -
  have d: "p div 4096 = p div 64 div 64" "p div 262144 = p div 4096 div 64" by (simp_all add: div_mult2_eq [symmetric])
  show 1: "p = 64 * (p div 64) + p mod 64" by simp
  have 2: "p div 64 = 64 * (p div 4096) + p div 64 mod 64" unfolding d by simp
  have 3: "p div 4096 = 64 * (p div 262144) + p div 4096 mod 64" unfolding d(2) by simp
  from 1 2 show "p = 4096 * (p div 4096) + 64 * (p div 64 mod 64) + p mod 64" by linarith
  with 3 show "p = 262144 * (p div 262144) + 4096 * (p div 4096 mod 64) + 64 * (p div 64 mod 64) + p mod 64" by linarith
qed

lemma base64_read [simp]:
  fixes x y z w :: nat
  assumes "y < 64" "z < 64" "w < 64"
  shows "(64 * x + y) div 64 = x" "(64 * x + y) mod 64 = y"
    and "(4096 * x + 64 * y + z) div 4096 = x" "(4096 * x + 64 * y + z) div 64 mod 64 = y"
      "(4096 * x + 64 * y + z) mod 64 = z"
    and "(262144 * x + 4096 * y + 64 * z + w) div 262144 = x" "(262144 * x + 4096 * y + 64 * z + w) div 4096 mod 64 = y"
      "(262144 * x + 4096 * y + 64 * z + w) div 64 mod 64 = z" "(262144 * x + 4096 * y + 64 * z + w) mod 64 = w"
proof -
  have 1: "(64 * a + b) div 64 = a" "(64 * a + b) mod 64 = b" if "b < 64" for a b :: nat using that by simp_all
  have e2: "4096 * x + 64 * y + z = 64 * (64 * x + y) + z"
    and e3: "262144 * x + 4096 * y + 64 * z + w = 64 * (64 * (64 * x + y) + z) + w" by simp_all
  have d: "n div 4096 = n div 64 div 64" "n div 262144 = n div 64 div 64 div 64" for n :: nat
    by (simp_all add: div_mult2_eq [symmetric])
  show "(64 * x + y) div 64 = x" "(64 * x + y) mod 64 = y" using 1 assms by blast+
  show "(4096 * x + 64 * y + z) div 4096 = x" "(4096 * x + 64 * y + z) div 64 mod 64 = y"
    "(4096 * x + 64 * y + z) mod 64 = z" unfolding e2 d using assms by (simp_all only: 1)
  show "(262144 * x + 4096 * y + 64 * z + w) div 262144 = x" "(262144 * x + 4096 * y + 64 * z + w) div 4096 mod 64 = y"
    "(262144 * x + 4096 * y + 64 * z + w) div 64 mod 64 = z" "(262144 * x + 4096 * y + 64 * z + w) mod 64 = w"
    unfolding e3 d using assms by (simp_all only: 1)
qed

text \<open>The four widths: the digits of a scalar value and its bytes.\<close>

lemma utf8_width2:
  assumes "p = 64 * x + y" "2 \<le> x" "x < 32" "y < 64"
  shows "scalar p" "utf8_point p = [0xC0 + x, 0x80 + y]"
  using assms by (simp_all add: utf8_point_def scalar_def)

lemma utf8_width3:
  assumes "p = 4096 * x + 64 * y + z" "x < 16" "y < 64" "z < 64" "x = 0 \<longrightarrow> 32 \<le> y" "x = 13 \<longrightarrow> y < 32"
  shows "scalar p" "utf8_point p = [0xE0 + x, 0x80 + y, 0x80 + z]"
proof -
  show "scalar p" using assms by (cases "x < 13"; cases "x = 13") (auto simp: scalar_def)
  have "0x800 \<le> p" "p < 0x10000" using assms by auto
  with assms show "utf8_point p = [0xE0 + x, 0x80 + y, 0x80 + z]" by (simp add: utf8_point_def)
qed

lemma utf8_width4:
  assumes "p = 262144 * x + 4096 * y + 64 * z + w" "x < 5" "y < 64" "z < 64" "w < 64"
    and "x = 0 \<longrightarrow> 16 \<le> y" "x = 4 \<longrightarrow> y < 16"
  shows "scalar p" "utf8_point p = [0xF0 + x, 0x80 + y, 0x80 + z, 0x80 + w]"
proof -
  have "0x10000 \<le> p" "p < 0x110000" using assms by auto
  with assms show "scalar p" "utf8_point p = [0xF0 + x, 0x80 + y, 0x80 + z, 0x80 + w]"
    by (simp_all add: utf8_point_def scalar_def)
qed

lemma scalar_cases:
  assumes "scalar p"
  obtains "p < 0x80"
  | x y where "p = 64 * x + y" "2 \<le> x" "x < 32" "y < 64"
  | x y z where "p = 4096 * x + 64 * y + z" "x < 16" "y < 64" "z < 64" "x = 0 \<longrightarrow> 32 \<le> y" "x = 13 \<longrightarrow> y < 32"
  | x y z w where "p = 262144 * x + 4096 * y + 64 * z + w" "x < 5" "y < 64" "z < 64" "w < 64"
      "x = 0 \<longrightarrow> 16 \<le> y" "x = 4 \<longrightarrow> y < 16"
proof -
  note d = base64_digits [of p]
  consider "p < 0x80" | "0x80 \<le> p" "p < 0x800" | "0x800 \<le> p" "p < 0x10000" | "0x10000 \<le> p" by linarith
  then show thesis
  proof cases
    case 2
    with d(1) that(2) [of "p div 64" "p mod 64"] show thesis by simp
  next
    case 3
    have "p div 4096 < 16" "p div 4096 = 0 \<longrightarrow> 32 \<le> p div 64 mod 64" "p div 4096 = 13 \<longrightarrow> p div 64 mod 64 < 32"
      using 3 assms d(2) mod_less_divisor [of 64 p] by (auto simp: scalar_def)
    with d(2) that(3) [of "p div 4096" "p div 64 mod 64" "p mod 64"] show thesis by simp
  next
    case 4
    have "p div 262144 < 5" "p div 262144 = 0 \<longrightarrow> 16 \<le> p div 4096 mod 64" "p div 262144 = 4 \<longrightarrow> p div 4096 mod 64 < 16"
      using 4 assms d(3) mod_less_divisor [of 64 p] mod_less_divisor [of 64 "p div 64"] by (auto simp: scalar_def)
    with d(3) that(4) [of "p div 262144" "p div 4096 mod 64" "p div 64 mod 64" "p mod 64"] show thesis by simp
  qed (use that(1) in blast)
qed

lemma utf8_first_point: "scalar p \<Longrightarrow> utf8_first (utf8_point p @ r) = Some (p, r)"
  by (erule scalar_cases) (simp_all add: utf8_width2 utf8_width3 utf8_width4 tail_byte_def, simp add: utf8_point_def)

text \<open>The other way round: what was read is the shortest form of a scalar value.\<close>

lemma tail_byteE:
  assumes "tail_byte b" obtains y where "b = 0x80 + y" "y < 64"
  using assms that [of "b - 0x80"] by (auto simp: tail_byte_def)

lemma utf8_first_3:
  "x < 16 \<Longrightarrow> utf8_first ((0xE0 + x) # t) = (case t of b # c # r \<Rightarrow>
     if tail_byte b \<and> tail_byte c \<and> (x = 0 \<longrightarrow> 0xA0 \<le> b) \<and> (x = 13 \<longrightarrow> b < 0xA0)
     then Some (4096 * x + 64 * (b - 0x80) + (c - 0x80), r) else None | _ \<Rightarrow> None)"
  by (simp cong: list.case_cong if_cong)

lemma utf8_first_4:
  "x < 5 \<Longrightarrow> utf8_first ((0xF0 + x) # t) = (case t of b # c # d # r \<Rightarrow>
     if tail_byte b \<and> tail_byte c \<and> tail_byte d \<and> (x = 0 \<longrightarrow> 0x90 \<le> b) \<and> (x = 4 \<longrightarrow> b < 0x90)
     then Some (262144 * x + 4096 * (b - 0x80) + 64 * (c - 0x80) + (d - 0x80), r) else None | _ \<Rightarrow> None)"
  by (simp cong: list.case_cong if_cong)

lemma utf8_first_canonical:
  assumes "utf8_first bs = Some (p, r)"
  shows "scalar p \<and> bs = utf8_point p @ r"
proof (cases bs)
  case (Cons a t)
  consider "a < 0x80" | x where "a = 0xC0 + x" "2 \<le> x" "x < 32" | x where "a = 0xE0 + x" "x < 16"
    | x where "a = 0xF0 + x" "x < 5"
  proof -
    assume 1: "a < 0x80 \<Longrightarrow> thesis" and x: "\<And>x. a = 0xC0 + x \<Longrightarrow> 2 \<le> x \<Longrightarrow> x < 32 \<Longrightarrow> thesis"
      "\<And>x. a = 0xE0 + x \<Longrightarrow> x < 16 \<Longrightarrow> thesis" "\<And>x. a = 0xF0 + x \<Longrightarrow> x < 5 \<Longrightarrow> thesis"
    have "a < 0x80 \<or> (0xC2 \<le> a \<and> a < 0xF5)" using assms Cons by (auto split: if_splits)
    then show thesis using 1 x(1) [of "a - 0xC0"] x(2) [of "a - 0xE0"] x(3) [of "a - 0xF0"] by fastforce
  qed
  then show ?thesis
  proof cases
    case 2
    with assms Cons obtain y where "t = (0x80 + y) # r" "p = 64 * x + y" "y < 64"
      by (auto split: list.splits if_splits elim!: tail_byteE)
    with 2 Cons utf8_width2 [of p x y] show ?thesis by simp
  next
    case 3
    with assms Cons obtain y z where "t = (0x80 + y) # (0x80 + z) # r" "p = 4096 * x + 64 * y + z" "y < 64" "z < 64"
      "x = 0 \<longrightarrow> 32 \<le> y" "x = 13 \<longrightarrow> y < 32"
      by (simp only: utf8_first_3) (auto split: list.splits if_splits elim!: tail_byteE)
    with 3 Cons utf8_width3 [of p x y z] show ?thesis by simp
  next
    case 4
    with assms Cons obtain y z w where "t = (0x80 + y) # (0x80 + z) # (0x80 + w) # r"
      "p = 262144 * x + 4096 * y + 64 * z + w" "y < 64" "z < 64" "w < 64" "x = 0 \<longrightarrow> 16 \<le> y" "x = 4 \<longrightarrow> y < 16"
      by (simp only: utf8_first_4) (auto split: list.splits if_splits elim!: tail_byteE)
    with 4 Cons utf8_width4 [of p x y z w] show ?thesis by simp
  qed (use assms Cons in \<open>simp add: utf8_point_def scalar_def\<close>)
qed (use assms in simp)

lemma utf8_go_points: "list_all scalar ps \<Longrightarrow> utf8_go (concat (map utf8_point ps)) = Some ps"
proof (induction ps)
  case (Cons p ps)
  moreover have "utf8_point p \<noteq> []" by (simp add: utf8_point_def)
  ultimately show ?case by (subst utf8_go.simps) (simp add: utf8_first_point)
qed (simp add: utf8_go.simps)

lemma utf8_go_canonical: "utf8_go bs = Some ps \<Longrightarrow> list_all scalar ps \<and> bs = concat (map utf8_point ps)"
proof (induction bs arbitrary: ps rule: utf8_go.induct)
  case (1 bs)
  show ?case
  proof (cases "bs = []")
    case True
    with "1.prems" show ?thesis by (simp add: utf8_go.simps)
  next
    case False
    with "1.prems" obtain p r ps' where f: "utf8_first bs = Some (p, r)" "utf8_go r = Some ps'" "ps = p # ps'"
      by (auto simp: utf8_go.simps [of bs] split: option.splits)
    with "1.IH" [OF False f(1) refl f(2)] utf8_first_canonical [OF f(1)] show ?thesis by simp
  qed
qed

lemma unat_bytes: "\<forall>n\<in>set ns. n < 256 \<Longrightarrow> map unat (map of_nat ns :: byte list) = ns"
  by (induction ns) (simp_all add: unat_of_nat)

lemma utf8_points_bytes: "list_all scalar ps \<Longrightarrow> \<forall>n\<in>set (concat (map utf8_point ps)). n < 256"
  by (auto simp: list_all_iff dest: utf8_point_bytes)

text \<open>A decoded text is the only one with these bytes, and its bytes are the only ones that decode to it.\<close>

lemma utf8_decode_iff: "utf8_decode bs = Some ps \<longleftrightarrow> list_all scalar ps \<and> bs = utf8_encode ps"
proof
  assume "utf8_decode bs = Some ps"
  from utf8_go_canonical [OF this [unfolded utf8_decode_def]]
  have "list_all scalar ps" "map unat bs = concat (map utf8_point ps)" by simp_all
  moreover from this(2) have "bs = map of_nat (concat (map utf8_point ps))"
    by (simp flip: \<open>map unat bs = _\<close> add: map_idI)
  ultimately show "list_all scalar ps \<and> bs = utf8_encode ps" by (simp add: utf8_encode_def)
next
  assume "list_all scalar ps \<and> bs = utf8_encode ps"
  then show "utf8_decode bs = Some ps"
    by (simp add: utf8_decode_def utf8_encode_def unat_bytes [OF utf8_points_bytes] utf8_go_points del: map_map)
qed

interpretation utf8: codec "list_all scalar" utf8_encode utf8_decode
  by unfold_locales (simp add: utf8_decode_iff)

lemma ord_less [simp]: "ord c < 256"
  using nat_of_char_less_256 [of c] by (simp add: ord_def)

lemma text_scalar [simp]: "list_all scalar (text_points s)"
  by (auto simp: list_all_iff text_points_def scalar_def intro: less_trans [OF ord_less])


section \<open>Base64\<close>

definition b64_index :: "nat \<Rightarrow> char" where
  "b64_index n = (if n < 26 then char_of (65 + n) else if n < 52 then char_of (71 + n)
     else if n < 62 then char_of (n - 4) else if n = 62 then CHR ''+'' else CHR ''/'')"

definition b64_char :: "byte \<Rightarrow> char" where
  "b64_char v = b64_index (unat v)"

definition b64_val :: "char \<Rightarrow> byte option" where
  "b64_val c = (let n = ord c in
     if 65 \<le> n \<and> n \<le> 90 then Some (of_nat (n - 65)) else if 97 \<le> n \<and> n \<le> 122 then Some (of_nat (n - 71))
     else if 48 \<le> n \<and> n \<le> 57 then Some (of_nat (n + 4)) else if n = 43 then Some 62
     else if n = 47 then Some 63 else None)"

text \<open>Three bytes are four groups of six bits.\<close>

definition sextet1 :: "byte \<Rightarrow> byte" where "sextet1 a = drop_bit 2 a"
definition sextet2 :: "byte \<Rightarrow> byte \<Rightarrow> byte" where "sextet2 a b = push_bit 4 (a AND 3) OR drop_bit 4 b"
definition sextet3 :: "byte \<Rightarrow> byte \<Rightarrow> byte" where "sextet3 b c = push_bit 2 (b AND 15) OR drop_bit 6 c"
definition sextet4 :: "byte \<Rightarrow> byte" where "sextet4 c = c AND 63"

lemmas sextet_defs = sextet1_def sextet2_def sextet3_def sextet4_def

fun b64encode :: "byte list \<Rightarrow> string" where
  "b64encode [] = []"
| "b64encode [a] = [b64_char (sextet1 a), b64_char (sextet2 a 0), CHR ''='', CHR ''='']"
| "b64encode [a, b] = [b64_char (sextet1 a), b64_char (sextet2 a b), b64_char (sextet3 b 0), CHR ''='']"
| "b64encode (a # b # c # r) =
     b64_char (sextet1 a) # b64_char (sextet2 a b) # b64_char (sextet3 b c) # b64_char (sextet4 c) # b64encode r"

text \<open>
  The reader keeps its place in the group of four (\<open>q\<close>), the padding characters seen since the last data
  character (\<open>pads\<close>) and the bits that are left over.
\<close>

fun b64_go :: "nat \<Rightarrow> nat \<Rightarrow> byte \<Rightarrow> string \<Rightarrow> byte list option" where
  "b64_go q pads left [] = (if q = 0 then Some [] else None)"
| "b64_go q pads left (ch # s) = (
     if ch = CHR ''='' then
       (if 2 \<le> q \<and> 4 \<le> q + (pads + 1) then Some []
        else b64_go q (if 2 \<le> q then pads + 1 else pads) left s)
     else (case b64_val ch of None \<Rightarrow> b64_go q pads left s
       | Some v \<Rightarrow>
           if q = 0 then b64_go 1 0 v s
           else if q = 1 then map_option ((#) (push_bit 2 left OR drop_bit 4 v)) (b64_go 2 0 (v AND 15) s)
           else if q = 2 then map_option ((#) (push_bit 4 left OR drop_bit 2 v)) (b64_go 3 0 (v AND 3) s)
           else map_option ((#) (push_bit 6 left OR v)) (b64_go 0 0 0 s)))"

text \<open>A text is encoded as ASCII first: another character is an error.\<close>

definition b64decode :: "string \<Rightarrow> byte list option" where
  "b64decode s = (if list_all (\<lambda>c. ord c < 128) s then b64_go 0 0 0 s else None)"

definition urlsafe_b64encode :: "byte list \<Rightarrow> string" where
  "urlsafe_b64encode bs = map (\<lambda>c. if c = CHR ''+'' then CHR ''-'' else if c = CHR ''/'' then CHR ''_'' else c)
     (b64encode bs)"

definition urlsafe_b64decode :: "string \<Rightarrow> byte list option" where
  "urlsafe_b64decode s = b64decode (map (\<lambda>c. if c = CHR ''-'' then CHR ''+'' else if c = CHR ''_'' then CHR ''/'' else c) s)"

lemma of_nat_unat_byte: "of_nat (unat v) = v" for v :: byte
  by (simp add: word_eq_iff_unsigned [where ?'a = nat])

lemma b64_index_facts:
  assumes "n < 64"
  shows "b64_val (b64_index n) = Some (of_nat n) \<and> ord (b64_index n) \<notin> {45, 61, 64, 95} \<and> ord (b64_index n) < 128"
proof -
  consider "n < 26" | "26 \<le> n" "n < 52" | "52 \<le> n" "n < 62" | "n = 62" | "n = 63" using assms by linarith
  then show ?thesis
  proof cases
    case 3
    define k where "k = n - 52"
    with 3 have "n = k + 52" "k < 10" by auto
    then show ?thesis by (simp add: b64_index_def b64_val_def Let_def ord_def)
  qed (simp_all add: b64_index_def b64_val_def Let_def ord_def)
qed

lemma b64_char_facts:
  assumes "v < 64"
  shows "b64_val (b64_char v) = Some v" "b64_char v \<noteq> CHR ''=''" "ord (b64_char v) < 128"
    "b64_char v \<noteq> CHR ''-''" "b64_char v \<noteq> CHR ''_''" "b64_char v \<noteq> CHR ''@''"
  using b64_index_facts [of "unat v"] assms
  by (auto simp: b64_char_def word_less_nat_alt of_nat_unat_byte ord_def simp del: of_nat_unat)

lemma byte_index: "n < 8 \<longleftrightarrow> n = 0 \<or> n = 1 \<or> n = 2 \<or> n = 3 \<or> n = 4 \<or> n = 5 \<or> n = 6 \<or> n = (7::nat)"
  by auto

lemma byte_eqI: "(\<And>n. n < 8 \<Longrightarrow> bit a n \<longleftrightarrow> bit b n) \<Longrightarrow> a = b" for a b :: byte
  by (rule bit_word_eqI) simp

lemma byte_high: "8 \<le> n \<Longrightarrow> \<not> bit a n" for a :: byte
  by (auto dest: bit_imp_le_length)

lemma less_64_iff: "v < 64 \<longleftrightarrow> take_bit 6 v = v" for v :: byte
  using take_bit_nat_eq_self_iff [of 6 "unat v"]
  by (simp add: word_less_nat_alt word_eq_iff_unsigned [where ?'a = nat] unsigned_take_bit_eq)

lemma masks: "a AND 3 = take_bit 2 a" "a AND 15 = take_bit 4 a" "a AND 63 = take_bit 6 a" for a :: byte
  by (simp_all add: take_bit_eq_mask mask_eq_exp_minus_1)

lemmas byte_bits = bit_simps byte_index byte_high numeral_2_eq_2 [symmetric] numeral_3_eq_3 [symmetric]

lemma b64_sextets: "sextet1 a < 64" "sextet2 a b < 64" "sextet3 b c < 64" "sextet4 c < 64"
  unfolding less_64_iff masks sextet_defs by (rule byte_eqI, auto simp: byte_bits)+

lemma b64_join:
  "push_bit 2 (sextet1 a) OR drop_bit 4 (sextet2 a b) = a"
  "push_bit 4 (sextet2 a b AND 15) OR drop_bit 2 (sextet3 b c) = b"
  "push_bit 6 (sextet3 b c AND 3) OR sextet4 c = c"
  unfolding masks sextet_defs by (rule byte_eqI, auto simp: byte_bits)+

lemmas b64_joins = b64_join b64_join [simplified]

lemma b64_go_char:
  "v < 64 \<Longrightarrow> b64_go q pads left (b64_char v # s) = (
     if q = 0 then b64_go 1 0 v s
     else if q = 1 then map_option ((#) (push_bit 2 left OR drop_bit 4 v)) (b64_go 2 0 (v AND 15) s)
     else if q = 2 then map_option ((#) (push_bit 4 left OR drop_bit 2 v)) (b64_go 3 0 (v AND 3) s)
     else map_option ((#) (push_bit 6 left OR v)) (b64_go 0 0 0 s))"
  by (simp add: b64_char_facts)

lemma b64_go_pad:
  "b64_go 2 0 left ''=='' = Some []" "b64_go 3 0 left ''='' = Some []"
  by simp_all

lemma b64_go_encode: "b64_go 0 0 0 (b64encode bs) = Some bs"
  by (induction bs rule: b64encode.induct)
     (simp_all add: b64_go_char b64_sextets b64_joins b64_go_pad del: b64_go.simps(2))

lemma ord_equals: "ord CHR ''='' = 61"
  by (simp add: ord_def)

lemma b64encode_ascii: "c \<in> set (b64encode bs) \<Longrightarrow> ord c < 128 \<and> c \<noteq> CHR ''-'' \<and> c \<noteq> CHR ''_''"
  by (induction bs rule: b64encode.induct) (auto simp: b64_char_facts b64_sextets ord_equals)

text \<open>A code is a text of the alphabet and its padding, in groups of four.\<close>

lemma b64encode_shape:
  "\<exists>body k. b64encode bs = body @ replicate k CHR ''='' \<and> CHR ''='' \<notin> set body \<and> CHR ''@'' \<notin> set body \<and>
     k \<le> 2 \<and> (length body + k) mod 4 = 0"
proof (induction bs rule: b64encode.induct)
  case (2 a)
  show ?case by (rule exI [of _ "[b64_char (sextet1 a), b64_char (sextet2 a 0)]"], rule exI [of _ 2])
    (simp add: numeral_2_eq_2 b64_sextets b64_char_facts b64_char_facts(2,6) [THEN not_sym])
next
  case (3 a b)
  show ?case by (rule exI [of _ "[b64_char (sextet1 a), b64_char (sextet2 a b), b64_char (sextet3 b 0)]"], rule exI [of _ 1])
    (simp add: b64_sextets b64_char_facts b64_char_facts(2,6) [THEN not_sym])
next
  case (4 a b c r)
  then obtain body k where "b64encode r = body @ replicate k CHR ''=''" "CHR ''='' \<notin> set body" "CHR ''@'' \<notin> set body"
    "k \<le> 2" "(length body + k) mod 4 = 0" by (elim exE conjE)
  then show ?case
    by (intro exI [of _ "b64_char (sextet1 a) # b64_char (sextet2 a b) # b64_char (sextet3 b c) # b64_char (sextet4 c) # body"]
        exI [of _ k]) (simp add: b64_sextets b64_char_facts b64_char_facts(2,6) [THEN not_sym] mod_eq_0_iff_dvd)
qed simp

interpretation b64: codec "\<lambda>_. True" b64encode b64decode
  by unfold_locales (auto simp: b64decode_def b64_go_encode list_all_iff dest: b64encode_ascii)

lemma urlsafe_undo: "\<forall>c\<in>set s. c \<noteq> CHR ''-'' \<and> c \<noteq> CHR ''_'' \<Longrightarrow>
    map (\<lambda>c. if c = CHR ''-'' then CHR ''+'' else if c = CHR ''_'' then CHR ''/'' else c)
      (map (\<lambda>c. if c = CHR ''+'' then CHR ''-'' else if c = CHR ''/'' then CHR ''_'' else c) s) = s"
  by (induction s) auto

interpretation urlsafe: codec "\<lambda>_. True" urlsafe_b64encode urlsafe_b64decode
proof (unfold_locales, unfold urlsafe_b64encode_def urlsafe_b64decode_def)
  fix bs :: "byte list"
  have "\<forall>c\<in>set (b64encode bs). c \<noteq> CHR ''-'' \<and> c \<noteq> CHR ''_''" by (auto dest: b64encode_ascii)
  then show "b64decode (map (\<lambda>c. if c = CHR ''-'' then CHR ''+'' else if c = CHR ''_'' then CHR ''/'' else c)
      (map (\<lambda>c. if c = CHR ''+'' then CHR ''-'' else if c = CHR ''/'' then CHR ''_'' else c) (b64encode bs))) = Some bs"
    by (subst urlsafe_undo) (simp_all add: b64.dec_enc)
qed

text \<open>Texts on the wire: code points, bytes, characters of the alphabet.\<close>

interpretation wire: codec_chain "list_all scalar" utf8_encode utf8_decode "\<lambda>_. True" b64encode b64decode
  by unfold_locales simp

interpretation link: codec_chain "list_all scalar" utf8_encode utf8_decode "\<lambda>_. True" urlsafe_b64encode urlsafe_b64decode
  by unfold_locales simp

end
