(* ===== verification/Access.thy ===== *)
theory Access
  imports Codec PyValue
begin

text \<open>
  \<^verbatim>\<open>src/panel/panel.py\<close>, who may use the panel and what is read of a request: \<open>Handler.authed\<close>,
  \<open>Handler._read_body\<close>, and the connection string \<open>ss_uri\<close> that is handed to clients.
\<close>

section \<open>Basic authentication\<close>

definition ascii :: "codepoints \<Rightarrow> bool" where
  "ascii ps = list_all (\<lambda>p. p < 128) ps"

text \<open>\<open>hmac.compare_digest\<close> on two texts: it takes ASCII only.\<close>

definition compare_digest :: "codepoints \<Rightarrow> codepoints \<Rightarrow> bool result" where
  "compare_digest a b = (if ascii a \<and> ascii b then Inr (a = b) else Inl TypeError)"

definition COLON :: nat where "COLON = 58"

text \<open>\<open>base64.b64decode(payload).decode("utf-8").partition(":")\<close>, the parts before and after the colon.\<close>

definition partition_at :: "'a \<Rightarrow> 'a list \<Rightarrow> 'a list \<times> 'a list" where
  "partition_at c xs = (takeWhile (\<lambda>x. x \<noteq> c) xs, drop 1 (dropWhile (\<lambda>x. x \<noteq> c) xs))"

definition credentials :: "string \<Rightarrow> (codepoints \<times> codepoints) option" where
  "credentials payload = (case b64decode payload of None \<Rightarrow> None
     | Some bs \<Rightarrow> (case utf8_decode bs of None \<Rightarrow> None
       | Some ps \<Rightarrow> Some (partition_at COLON ps)))"

definition authed :: "string \<Rightarrow> string \<Rightarrow> string option \<Rightarrow> bool result" where
  "authed AUTH_USER AUTH_PASS authorization = (
     if AUTH_USER = [] then Inr True
     else (let header = (case authorization of None \<Rightarrow> [] | Some h \<Rightarrow> h) in
       if \<not> startswith header ''Basic '' then Inr False
       else (case credentials (drop 6 header) of None \<Rightarrow> Inr False
         | Some (user, pw) \<Rightarrow> (case compare_digest user (text_points AUTH_USER) of Inl e \<Rightarrow> Inl e
           | Inr same \<Rightarrow> if same then compare_digest pw (text_points AUTH_PASS) else Inr False))))"

section \<open>Connection strings\<close>

definition ss_uri :: "string \<Rightarrow> string \<Rightarrow> int \<Rightarrow> string \<Rightarrow> string" where
  "ss_uri SS_METHOD SS_PASSWORD SS_LISTEN_PORT host = (
     let raw = SS_METHOD @ '':'' @ SS_PASSWORD;
         userinfo = rstrip (\<lambda>c. c = CHR ''='') (urlsafe_b64encode (utf8_encode (text_points raw)))
     in ''ss://'' @ userinfo @ ''@'' @ host @ '':'' @ show_int SS_LISTEN_PORT @ ''#web_zapret2'')"

section \<open>Request bodies\<close>

text \<open>
  \<open>Content-Length\<close> as the header has it and the bytes that the connection holds after the headers; the
  answer is the value and what is left on the connection. \<open>loads\<close> is the JSON reader.
\<close>

definition content_length :: "string option \<Rightarrow> int" where
  "content_length h = (case h of None \<Rightarrow> 0 | Some t \<Rightarrow> (case int_of_text t of None \<Rightarrow> 0 | Some n \<Rightarrow> n))"

definition read_body :: "(codepoints \<Rightarrow> json option) \<Rightarrow> string option \<Rightarrow> byte list \<Rightarrow> json \<times> byte list" where
  "read_body loads h input = (let n = content_length h in
     if n \<le> 0 \<or> 1000000 < n then (JDict [], input)
     else (case utf8_decode (take (nat n) input) of None \<Rightarrow> (JDict [], drop (nat n) input)
       | Some ps \<Rightarrow> (case loads ps of None \<Rightarrow> (JDict [], drop (nat n) input)
         | Some v \<Rightarrow> (v, drop (nat n) input))))"

section \<open>Facts\<close>

lemma text_points_append [simp]: "text_points (s @ t) = text_points s @ text_points t"
  by (simp add: text_points_def)

lemma inj_ord [simp]: "inj ord"
  by (rule injI) (simp add: ord_def)

lemma text_points_inject [simp]: "text_points s = text_points t \<longleftrightarrow> s = t"
  by (simp add: text_points_def inj_map_eq_map)

lemma text_points_Nil_iff [simp]: "text_points s = [] \<longleftrightarrow> s = []"
  by (simp add: text_points_def)

lemma COLON_ord: "COLON = ord CHR '':''"
  by (simp add: ord_def COLON_def)

lemma text_points_simps [simp]: "text_points [] = []" "text_points (c # s) = ord c # text_points s"
  by (simp_all add: text_points_def)

lemma ord_colon [simp]: "ord CHR '':'' = COLON"
  by (simp add: COLON_ord)

lemma colon_in_points: "COLON \<in> set (text_points s) \<longleftrightarrow> CHR '':'' \<in> set s"
  by (simp add: text_points_def COLON_ord inj_image_mem_iff del: ord_colon)

lemma compare_digest_True: "compare_digest a b = Inr True \<longleftrightarrow> a = b \<and> ascii b"
  by (auto simp: compare_digest_def)

lemma partition_at_iff:
  "partition_at c xs = (u, w) \<longleftrightarrow> c \<notin> set u \<and> (xs = u @ c # w \<or> (w = [] \<and> xs = u))" (is "?L \<longleftrightarrow> ?R")
proof
  assume L: ?L
  then have u: "c \<notin> set u" by (auto simp: partition_at_def dest: set_takeWhileD)
  have x: "xs = u @ dropWhile (\<lambda>x. x \<noteq> c) xs" using L by (auto simp: partition_at_def)
  show ?R
  proof (cases "dropWhile (\<lambda>x. x \<noteq> c) xs")
    case Nil
    have "xs = u" using x Nil by (metis append_Nil2)
    moreover have "w = []" using L Nil unfolding partition_at_def by (metis drop_Nil prod.inject)
    ultimately show ?thesis using u by simp
  next
    case (Cons y r)
    with hd_dropWhile [of "\<lambda>x. x \<noteq> c" xs] have "y = c" by simp
    with Cons x u L show ?thesis by (simp add: partition_at_def)
  qed
next
  assume ?R
  have n: "dropWhile (\<lambda>x. x \<noteq> c) ys = []" "takeWhile (\<lambda>x. x \<noteq> c) ys = ys" if "c \<notin> set ys" for ys
    using that by (induction ys) auto
  show ?L using \<open>?R\<close> by (auto simp: partition_at_def n takeWhile_append dropWhile_append)
qed

lemma credentials_iff:
  "credentials payload = Some (u, w) \<longleftrightarrow>
     (\<exists>ps. list_all scalar ps \<and> b64decode payload = Some (utf8_encode ps) \<and> partition_at COLON ps = (u, w))"
  by (cases "b64decode payload")
     (auto simp: credentials_def utf8_decode_iff utf8.enc_eq_iff utf8.dec_enc split: option.splits)


text \<open>What a client sends for a user and a password.\<close>

definition basic_header :: "string \<Rightarrow> string \<Rightarrow> string" where
  "basic_header user pw = ''Basic '' @ b64encode (utf8_encode (text_points (user @ '':'' @ pw)))"

lemma credentials_header:
  "CHR '':'' \<notin> set user \<Longrightarrow>
     credentials (drop 6 (basic_header user pw)) = Some (text_points user, text_points pw)"
  using wire.whole.dec_enc [of "text_points (user @ '':'' @ pw)"] text_scalar [of "user @ '':'' @ pw"]
  by (auto simp: credentials_iff basic_header_def partition_at_iff colon_in_points b64.dec_enc
      intro!: exI [of _ "text_points (user @ '':'' @ pw)"])

lemma authed_header:
  assumes "startswith h ''Basic ''" "AUTH_USER \<noteq> []" "credentials (drop 6 h) = Some (u, w)"
  shows "authed AUTH_USER AUTH_PASS (Some h) = (case compare_digest u (text_points AUTH_USER) of Inl e \<Rightarrow> Inl e
    | Inr same \<Rightarrow> if same then compare_digest w (text_points AUTH_PASS) else Inr False)"
  using assms by (simp add: authed_def)

lemma authed_cases:
  "authed AUTH_USER AUTH_PASS h = Inr True \<longleftrightarrow> AUTH_USER = [] \<or> (\<exists>payload. h = Some (''Basic '' @ payload) \<and>
     credentials payload = Some (text_points AUTH_USER, text_points AUTH_PASS) \<and>
     ascii (text_points AUTH_USER) \<and> ascii (text_points AUTH_PASS))"
  by (cases h) (auto simp: authed_def Let_def startswith_iff compare_digest_def split: option.splits sum.splits if_splits)

text \<open>A user name or password outside ASCII raises in the comparison instead of being refused.\<close>

lemma authed_not_ascii:
  assumes "AUTH_USER \<noteq> []" "CHR '':'' \<notin> set user" "\<not> ascii (text_points user)"
  shows "authed AUTH_USER AUTH_PASS (Some (basic_header user pw)) = Inl TypeError"
  using assms by (subst authed_header [OF _ _ credentials_header])
    (simp_all add: basic_header_def compare_digest_def startswith_def)

section \<open>Reading a connection string\<close>

text \<open>
  What a client does with the connection string: the text between the scheme and the first \<open>@\<close>, padded
  again to groups of four, read with the URL-safe alphabet.
\<close>

definition pad_code :: "string \<Rightarrow> string" where
  "pad_code s = s @ replicate ((4 - length s mod 4) mod 4) CHR ''=''"

definition read_userinfo :: "string \<Rightarrow> codepoints option" where
  "read_userinfo uri = Option.bind (urlsafe_b64decode (pad_code (before CHR ''@'' (drop 5 uri)))) utf8_decode"

lemma rstrip_padding:
  "c \<notin> set body \<Longrightarrow> rstrip (\<lambda>x. x = c) (body @ replicate k c) = body"
proof -
  have "dropWhile (\<lambda>x. x = c) (replicate k c @ zs) = dropWhile (\<lambda>x. x = c) zs" for zs by (induction k) simp_all
  then show "c \<notin> set body \<Longrightarrow> rstrip (\<lambda>x. x = c) (body @ replicate k c) = body"
    by (cases body rule: rev_cases) (auto simp: rstrip_def lstrip_def)
qed

lemma padding_count:
  fixes l k :: nat
  assumes "k \<le> 2" "(l + k) mod 4 = 0"
  shows "(4 - l mod 4) mod 4 = k"
proof -
  have "(l mod 4 + k) mod 4 = 0" using assms(2) by (simp add: mod_add_left_eq)
  moreover have "l mod 4 = 0 \<or> l mod 4 = 1 \<or> l mod 4 = 2 \<or> l mod 4 = 3" by auto
  moreover have "k = 0 \<or> k = 1 \<or> k = 2" using assms(1) by auto
  ultimately show ?thesis by (elim disjE) simp_all
qed

lemma urlsafe_padding:
  obtains body where "rstrip (\<lambda>c. c = CHR ''='') (urlsafe_b64encode bs) = body" "CHR ''@'' \<notin> set body"
    "pad_code body = urlsafe_b64encode bs"
proof -
  let ?safe = "\<lambda>c. if c = CHR ''+'' then CHR ''-'' else if c = CHR ''/'' then CHR ''_'' else c"
  obtain body k where e: "b64encode bs = body @ replicate k CHR ''=''" "CHR ''='' \<notin> set body" "CHR ''@'' \<notin> set body"
    "k \<le> 2" "(length body + k) mod 4 = 0" using b64encode_shape [of bs] by (elim exE conjE)
  have "CHR ''='' \<notin> set (map ?safe body)" "CHR ''@'' \<notin> set (map ?safe body)" using e by (auto split: if_splits)
  moreover have "urlsafe_b64encode bs = map ?safe body @ replicate k CHR ''=''" by (simp add: urlsafe_b64encode_def e(1))
  moreover have "(4 - length body mod 4) mod 4 = k" using e(4,5) by (rule padding_count)
  ultimately show thesis by (intro that [of "map ?safe body"]) (simp_all add: pad_code_def rstrip_padding del: map_map)
qed

section \<open>Properties\<close>

text \<open>
  Property C31. With a user configured, the panel lets in exactly the requests whose Authorization header is
  Basic followed by a base64 text whose bytes are the UTF-8 of the configured user, a colon and the
  configured password (with an empty password the colon may be missing); a user name with a colon, or a
  name or password outside ASCII, can never log in.
\<close>

theorem authed_exactly_credentials:
  "authed AUTH_USER AUTH_PASS h = Inr True \<longleftrightarrow> AUTH_USER = [] \<or> (\<exists>payload text. h = Some (''Basic '' @ payload) \<and>
     b64decode payload = Some (utf8_encode (text_points text)) \<and> CHR '':'' \<notin> set AUTH_USER \<and>
     (text = AUTH_USER @ '':'' @ AUTH_PASS \<or> (AUTH_PASS = [] \<and> text = AUTH_USER)) \<and>
     ascii (text_points AUTH_USER) \<and> ascii (text_points AUTH_PASS))"
proof -
  have "credentials payload = Some (text_points AUTH_USER, text_points AUTH_PASS) \<longleftrightarrow>
      (\<exists>text. b64decode payload = Some (utf8_encode (text_points text)) \<and> CHR '':'' \<notin> set AUTH_USER \<and>
        (text = AUTH_USER @ '':'' @ AUTH_PASS \<or> (AUTH_PASS = [] \<and> text = AUTH_USER)))" for payload
    unfolding credentials_iff partition_at_iff colon_in_points
    using text_scalar [of "AUTH_USER @ '':'' @ AUTH_PASS"] text_scalar [of AUTH_USER]
    by (auto simp: ex_disj_distrib conj_disj_distribL simp del: text_scalar)
  then show ?thesis unfolding authed_cases by blast
qed

text \<open>
  The header of a standard client (base64 of the UTF-8 of user, colon and password) is decided
  by equality: it is let in when user and password are the configured ones and refused otherwise.
\<close>

theorem authed_client_roundtrip:
  assumes "AUTH_USER \<noteq> []" "CHR '':'' \<notin> set user"
    and "ascii (text_points user)" "ascii (text_points pw)" "ascii (text_points AUTH_USER)" "ascii (text_points AUTH_PASS)"
  shows "authed AUTH_USER AUTH_PASS (Some (basic_header user pw)) = Inr (user = AUTH_USER \<and> pw = AUTH_PASS)"
  using assms by (subst authed_header [OF _ _ credentials_header])
    (simp_all add: basic_header_def compare_digest_def)

theorem authed_client_roundtrip_witness:
  "authed ''admin'' ''s3cret'' (Some (basic_header ''admin'' ''s3cret'')) = Inr True \<and>
   authed ''admin'' ''s3cret'' (Some (basic_header ''admin'' ''guess'')) = Inr False"
  by (subst (1 2) authed_client_roundtrip; simp add: ascii_def text_points_def ord_def)

text \<open>
  Property C32. Whatever cipher, password, port and host are configured, a client that reads the connection
  string gets the cipher and the password back: nothing of them breaks the string apart, and the
  padding that was cut off is restored from the length.
\<close>

theorem ss_uri_roundtrip:
  "read_userinfo (ss_uri SS_METHOD SS_PASSWORD SS_LISTEN_PORT host) = Some (text_points (SS_METHOD @ '':'' @ SS_PASSWORD))"
proof -
  let ?ps = "text_points (SS_METHOD @ '':'' @ SS_PASSWORD)"
  obtain body where b: "rstrip (\<lambda>c. c = CHR ''='') (urlsafe_b64encode (utf8_encode ?ps)) = body" "CHR ''@'' \<notin> set body"
    "pad_code body = urlsafe_b64encode (utf8_encode ?ps)" by (rule urlsafe_padding)
  then have "before CHR ''@'' (drop 5 (ss_uri SS_METHOD SS_PASSWORD SS_LISTEN_PORT host)) = body"
    by (simp add: ss_uri_def Let_def del: text_points_append text_points_simps)
  with b(3) link.chain_dec_enc [OF text_scalar, of "SS_METHOD @ '':'' @ SS_PASSWORD"] show ?thesis
    by (simp add: read_userinfo_def del: text_points_append text_points_simps)
qed

end
