(* ===== verification/Gateway.thy ===== *)
theory Gateway
  imports Logs PanelCatalog Jobs Access
begin

text \<open>
  \<^verbatim>\<open>src/panel/panel.py\<close>, what the panel sees of the gateway: the connected devices read from procfs, the
  traffic counters, the public address with its cache, the states of the services, the status page made
  of them, and the two scripts it runs (\<open>apply\<close> and the strategy test).
\<close>

section \<open>Connected devices\<close>

text \<open>\<open>int(text, 16)\<close>: an optional sign and prefix, digits with single underscores between them.\<close>

definition hex_val :: "char \<Rightarrow> int option" where
  "hex_val c = (let n = ord c in if 48 \<le> n \<and> n \<le> 57 then Some (int n - 48)
     else if 97 \<le> n \<and> n \<le> 102 then Some (int n - 87) else if 65 \<le> n \<and> n \<le> 70 then Some (int n - 55) else None)"

definition hex_digits :: "string \<Rightarrow> int option" where
  "hex_digits s = (let gs = split_on CHR ''_'' s; ds = map hex_val (concat gs) in
     if list_all (\<lambda>g. g \<noteq> []) gs \<and> None \<notin> set ds then Some (foldl (\<lambda>n d. 16 * n + the d) 0 ds) else None)"

definition int_of_hex :: "string \<Rightarrow> int option" where
  "int_of_hex s = (case split_sign (strip s) of (sg, t) \<Rightarrow>
     map_option (\<lambda>n. sg * n) (hex_digits (if startswith (lower t) ''0x''
       then (if startswith (drop 2 t) ''_'' then drop 3 t else drop 2 t) else t)))"

text \<open>\<open>s.rsplit(":", 1)\<close>: the text before the last colon, and the text after it when there is one.\<close>

definition rsplit_colon :: "string \<Rightarrow> string \<times> string option" where
  "rsplit_colon s = (let parts = split_on CHR '':'' s in
     if length parts = 1 then (s, None) else (join '':'' (butlast parts), Some (last parts)))"

text \<open>The listening ports of the access layer and the services behind them; zero switches one off.\<close>

type_synonym services = "(int \<times> string) list"

definition port_svc :: "int \<Rightarrow> int \<Rightarrow> services" where
  "port_svc SS_LISTEN_PORT SOCKS5_LISTEN_PORT =
     (if SS_LISTEN_PORT \<noteq> 0 \<and> SS_LISTEN_PORT \<noteq> SOCKS5_LISTEN_PORT then [(SS_LISTEN_PORT, ''ss-server'')] else []) @
     (if SOCKS5_LISTEN_PORT \<noteq> 0 then [(SOCKS5_LISTEN_PORT, ''sockd'')] else [])"

text \<open>A line of the table: the service and the remote address of an established connection to it.\<close>

definition client_row :: "services \<Rightarrow> string \<Rightarrow> (string \<times> string) option" where
  "client_row svcs row = (let cols = split_ws row in
     if length cols < 4 \<or> cols ! 3 \<noteq> ''01'' then None
     else (case snd (rsplit_colon (cols ! 1)) of None \<Rightarrow> None
       | Some port \<Rightarrow> (case int_of_hex port of None \<Rightarrow> None
         | Some lport \<Rightarrow> (case map_of svcs lport of None \<Rightarrow> None
           | Some svc \<Rightarrow> Some (svc, fst (rsplit_colon (cols ! 2)))))))"

definition client_rows :: "(string \<Rightarrow> string option) \<Rightarrow> services \<Rightarrow> (string \<times> string) list" where
  "client_rows proc svcs = concat (map (\<lambda>path. case proc path of None \<Rightarrow> []
     | Some t \<Rightarrow> List.map_filter (client_row svcs) (drop 1 (splitlines t))) [''/proc/net/tcp'', ''/proc/net/tcp6''])"

definition remotes :: "(string \<times> string) list \<Rightarrow> string \<Rightarrow> string list" where
  "remotes rows svc = remdups (map snd (filter (\<lambda>x. fst x = svc) rows))"

text \<open>\<open>socket.inet_ntoa(struct.pack("<I", n))\<close>.\<close>

definition dotted :: "int \<Rightarrow> string" where
  "dotted n = join ''.'' (map show_int [n mod 256, n div 256 mod 256, n div 65536 mod 256, n div 16777216])"

definition dec_addr :: "string \<Rightarrow> string" where
  "dec_addr x = (if length x = 8 then (case int_of_hex x of None \<Rightarrow> x
       | Some n \<Rightarrow> if 0 \<le> n \<and> n < 4294967296 then dotted n else x)
     else if x = [] then ''(?)'' else x)"

record devices =
  dv_count :: nat
  dv_per_service :: "(string \<times> nat) list"
  dv_ips :: "string list"

definition connected_devices :: "(string \<Rightarrow> string option) \<Rightarrow> services \<Rightarrow> devices" where
  "connected_devices proc svcs = (let rows = client_rows proc svcs; names = remdups (map snd svcs);
       ips = sort (remdups (map dec_addr (concat (map (remotes rows) names))))
     in \<lparr>dv_count = length ips, dv_per_service = sort_key fst (map (\<lambda>v. (v, length (remotes rows v))) names),
         dv_ips = take 64 ips\<rparr>)"

section \<open>Traffic\<close>

text \<open>
  The bytes of the rules with a target in the listing of a chain; a line whose counter is no number counts
  nothing. \<open>None\<close>: iptables could not be run.
\<close>

definition rule_bytes :: "string \<Rightarrow> string \<Rightarrow> int" where
  "rule_bytes target line = (let parts = split_ws line in
     if 3 \<le> length parts \<and> parts ! 2 = target
     then (case int_of_text (parts ! 1) of None \<Rightarrow> 0 | Some n \<Rightarrow> n) else 0)"

definition chain_bytes :: "string \<Rightarrow> string option \<Rightarrow> int" where
  "chain_bytes target out = (case out of None \<Rightarrow> 0 | Some t \<Rightarrow> sum_list (map (rule_bytes target) (splitlines t)))"

record traffic =
  tr_in :: int
  tr_out :: int
  tr_total :: int

definition state_int :: "panel_files \<Rightarrow> string \<Rightarrow> int result" where
  "state_int pf key = py_int (py_or (JStr (state_get pf key ''0'')) (JStr ''0''))"

definition get_traffic_stats :: "panel_files \<Rightarrow> string option \<Rightarrow> string option \<Rightarrow> traffic result" where
  "get_traffic_stats pf wzfw nfqin = (let bytes_out = chain_bytes ''NFQUEUE'' wzfw; bytes_in = chain_bytes ''RETURN'' nfqin in
     if bytes_in = 0 \<and> bytes_out = 0
     then (case state_int pf ''nfqws_bytes_in'' of Inl e \<Rightarrow> Inl e
       | Inr i \<Rightarrow> (case state_int pf ''nfqws_bytes_out'' of Inl e \<Rightarrow> Inl e
         | Inr n \<Rightarrow> Inr \<lparr>tr_in = i, tr_out = n, tr_total = i + n\<rparr>))
     else Inr \<lparr>tr_in = bytes_in, tr_out = bytes_out, tr_total = bytes_in + bytes_out\<rparr>)"

section \<open>Public address\<close>

record ip_cache =
  pc_host :: string
  pc_source :: string
  pc_ts :: rat

text \<open>\<^verbatim>\<open>re.fullmatch(r"\d{1,3}(?:\.\d{1,3}){3}", t)\<close> on an ASCII text.\<close>

definition is_quad :: "string \<Rightarrow> bool" where
  "is_quad t = (let parts = split_on CHR ''.'' t in
     length parts = 4 \<and> list_all (\<lambda>p. 1 \<le> length p \<and> length p \<le> 3 \<and> list_all is_digit p) parts)"

text \<open>\<open>echo\<close> is what a service answers (\<open>None\<close>: the request failed).\<close>

fun first_echo :: "(string \<Rightarrow> string option) \<Rightarrow> string list \<Rightarrow> string" where
  "first_echo echo [] = []"
| "first_echo echo (url # urls) = (case echo url of None \<Rightarrow> first_echo echo urls
     | Some answer \<Rightarrow> (let t = strip (filter (\<lambda>c. ord c < 128) (take 64 answer)) in
         if is_quad t then t else first_echo echo urls))"

definition echo_urls :: "string list" where
  "echo_urls = [''https://api.ipify.org'', ''https://ifconfig.me/ip'']"

definition probe_host :: "(string \<Rightarrow> string option) \<Rightarrow> string option \<Rightarrow> string \<times> string" where
  "probe_host echo egress = (let host = first_echo echo echo_urls in
     if host \<noteq> [] then (host, ''auto'')
     else (case egress of None \<Rightarrow> ([], []) | Some h \<Rightarrow> (h, if h = [] then [] else ''local'')))"

definition detect_public_host ::
  "string \<Rightarrow> (string \<Rightarrow> string option) \<Rightarrow> string option \<Rightarrow> rat \<Rightarrow> ip_cache \<Rightarrow> ip_cache \<times> string \<times> string"
where
  "detect_public_host PUBLIC_HOST echo egress now c = (
     if PUBLIC_HOST \<noteq> [] then (c, PUBLIC_HOST, ''env'')
     else if pc_host c \<noteq> [] \<and> now - pc_ts c < 600 then (c, pc_host c, pc_source c)
     else (case probe_host echo egress of (host, source) \<Rightarrow>
       (if host \<noteq> [] then \<lparr>pc_host = host, pc_source = source, pc_ts = now\<rparr> else c, host, source)))"

section \<open>Services and status\<close>

definition SERVICES :: "string list" where
  "SERVICES = [''ss-server'', ''sockd'', ''nfqws'', ''redsocks'', ''ss-local'', ''udprelay'']"

text \<open>\<open>str.isdigit\<close>: the digits and the three superscripts of the character range.\<close>

definition py_isdigit :: "string \<Rightarrow> bool" where
  "py_isdigit s = (s \<noteq> [] \<and> list_all (\<lambda>c. is_digit c \<or> ord c = 178 \<or> ord c = 179 \<or> ord c = 185) s)"

record service =
  sv_name :: string
  sv_running :: bool
  sv_pid :: string

definition service_state :: "(string \<Rightarrow> string option) \<Rightarrow> (int \<Rightarrow> bool) \<Rightarrow> string \<Rightarrow> service" where
  "service_state rundir alive name = (let text = (case rundir name of None \<Rightarrow> [] | Some t \<Rightarrow> strip t);
       pid = (if py_isdigit text then text else [])
     in \<lparr>sv_name = name, sv_running = pid_alive alive (JStr pid), sv_pid = pid\<rparr>)"

text \<open>What the status page depends on: the environment of the panel and what the machine answers.\<close>

record gateway_env =
  ge_public_host :: string
  ge_ss_port :: int
  ge_socks_port :: int
  ge_ss_method :: string
  ge_ss_password :: string
  ge_boot :: rat
  ge_now :: rat
  ge_echo :: "string \<Rightarrow> string option"
  ge_egress :: "string option"
  ge_proc :: "string \<Rightarrow> string option"
  ge_wzfw :: "string option"
  ge_nfqin :: "string option"
  ge_run :: "string \<Rightarrow> string option"
  ge_alive :: "int \<Rightarrow> bool"

record status_page =
  st_uptime :: int
  st_exit_mode :: string
  st_strategy :: string
  st_name :: json
  st_nfqws_opt :: json
  st_lua_init :: json
  st_services :: "service list"
  st_devices :: devices
  st_traffic :: traffic
  st_host :: string
  st_host_source :: string
  st_uri :: string

text \<open>The first entry with the identifier; an entry that is no dictionary raises before it is reached.\<close>

fun entry_with_id :: "json \<Rightarrow> json list \<Rightarrow> json dict result" where
  "entry_with_id sid [] = Inr []"
| "entry_with_id sid (v # vs) = (case entry_dict v of Inl e \<Rightarrow> Inl e
     | Inr s \<Rightarrow> if dget_or s ''id'' JNull = sid then Inr s else entry_with_id sid vs)"

definition status :: "gateway_env \<Rightarrow> panel_files \<Rightarrow> ip_cache \<Rightarrow> ip_cache \<times> status_page result" where
  "status G pf c = (case active_strategy pf of Inl e \<Rightarrow> (c, Inl e)
     | Inr strat \<Rightarrow> (case rbind (rbind (strategies (pf_store pf)) iter) (entry_with_id (JStr strat)) of Inl e \<Rightarrow> (c, Inl e)
       | Inr entry \<Rightarrow> (case detect_public_host (ge_public_host G) (ge_echo G) (ge_egress G) (ge_now G) c of (c', host, source) \<Rightarrow>
           (c', (case get_traffic_stats pf (ge_wzfw G) (ge_nfqin G) of Inl e \<Rightarrow> Inl e
             | Inr tr \<Rightarrow> Inr \<lparr>st_uptime = trunc_rat (ge_now G - ge_boot G), st_exit_mode = active_exit_mode pf,
                 st_strategy = strat, st_name = dget_or entry ''name'' (JStr strat),
                 st_nfqws_opt = py_or (dget_or entry ''lua_opt'' JNull) (dget_or entry ''nfqws_opt'' (JStr [])),
                 st_lua_init = dget_or entry ''lua_init'' (JList []),
                 st_services = map (service_state (ge_run G) (ge_alive G)) SERVICES,
                 st_devices = connected_devices (ge_proc G) (port_svc (ge_ss_port G) (ge_socks_port G)),
                 st_traffic = tr, st_host = host, st_host_source = source,
                 st_uri = (if host = [] then [] else ss_uri (ge_ss_method G) (ge_ss_password G) (ge_ss_port G) host)\<rparr>)))))"

section \<open>Scripts\<close>

text \<open>How a script ends; it is missing, it takes too long, or it exits with its outputs.\<close>

datatype proc_end = Exited int string string | ProcTimeout | NoProgram

definition APPLY :: string where "APPLY = ''/opt/webzapret/scripts/wz-apply.sh''"

record apply_result =
  ar_ok :: bool
  ar_rc :: int
  ar_stdout :: string
  ar_stderr :: string

definition apply_answer :: "proc_end \<Rightarrow> apply_result result" where
  "apply_answer p = (case p of
       Exited rc out err \<Rightarrow> Inr \<lparr>ar_ok = (rc = 0), ar_rc = rc, ar_stdout = last_n 6000 out, ar_stderr = last_n 2000 err\<rparr>
     | ProcTimeout \<Rightarrow> Inr \<lparr>ar_ok = False, ar_rc = -1, ar_stdout = [], ar_stderr = ''timed out (90s)''\<rparr>
     | NoProgram \<Rightarrow> Inl OSError)"

section \<open>The strategy test\<close>

definition WZ_TEST :: string where "WZ_TEST = ''/opt/webzapret/scripts/wz-test.sh''"

text \<open>\<^verbatim>\<open>^https?://[^\s]+$\<close>, ignoring case, on a text without surrounding blanks.\<close>

definition test_url_ok :: "string \<Rightarrow> bool" where
  "test_url_ok url = (let l = lower url;
       rest = (if startswith l ''http://'' then drop 7 url else if startswith l ''https://'' then drop 8 url else [])
     in rest \<noteq> [] \<and> list_all (\<lambda>c. \<not> is_space c) rest)"

text \<open>
  The seconds of the probe: clamped, or the configured default when the value is no number; an infinite
  number raises.
\<close>

definition test_seconds :: "int \<Rightarrow> json \<Rightarrow> int result" where
  "test_seconds TEST_YTDLP_TIMEOUT timeout = (case py_int (py_or timeout (JInt TEST_YTDLP_TIMEOUT)) of
       Inr n \<Rightarrow> Inr (max 10 (min n 600))
     | Inl (ValueError m) \<Rightarrow> Inr TEST_YTDLP_TIMEOUT
     | Inl TypeError \<Rightarrow> Inr TEST_YTDLP_TIMEOUT
     | Inl e \<Rightarrow> Inl e)"

datatype test_answer = TestUnknown string | TestBadUrl | TestTimedOut | TestMalformed int string | TestResult "json dict"

text \<open>\<open>raw_decode\<close> reads the first JSON value of a text (\<open>None\<close>: there is none).\<close>

definition test_output :: "(string \<Rightarrow> json option) \<Rightarrow> int \<Rightarrow> string \<Rightarrow> string \<Rightarrow> test_answer" where
  "test_output raw_decode rc out err = (let start = dropWhile (\<lambda>c. c \<noteq> CHR ''{'') out;
       res = (if start = [] then None else raw_decode start)
     in case res of Some (JDict d) \<Rightarrow>
           if dget d ''ok'' = None then TestMalformed rc (last_n 800 (if out = [] then err else out)) else TestResult d
        | Some v \<Rightarrow> TestMalformed rc (last_n 800 (if out = [] then err else out))
        | None \<Rightarrow> TestMalformed rc (last_n 800 (if out = [] then err else out)))"

definition test_strategy ::
  "string \<Rightarrow> int \<Rightarrow> (string \<Rightarrow> json option) \<Rightarrow> (string list \<Rightarrow> proc_end) \<Rightarrow> string \<Rightarrow> string \<Rightarrow> json \<Rightarrow> store
    \<Rightarrow> test_answer result"
where
  "test_strategy TEST_YTDLP_URL TEST_YTDLP_TIMEOUT raw_decode harness strategy_id url0 timeout st =
     (case strategy_ids st of Inl e \<Rightarrow> Inl e
      | Inr ids \<Rightarrow> if JStr strategy_id \<notin> set ids then Inr (TestUnknown strategy_id)
        else (let url = strip (if url0 = [] then TEST_YTDLP_URL else url0) in
          if url = [] \<or> 2048 < length url \<or> \<not> test_url_ok url then Inr TestBadUrl
          else (case test_seconds TEST_YTDLP_TIMEOUT timeout of Inl e \<Rightarrow> Inl e
            | Inr n \<Rightarrow> (case harness [WZ_TEST, strategy_id, url, show_int n] of
                NoProgram \<Rightarrow> Inl OSError
              | ProcTimeout \<Rightarrow> Inr TestTimedOut
              | Exited rc out err \<Rightarrow> Inr (test_output raw_decode rc out err)))))"


section \<open>Availability of the selection engine\<close>

text \<open>The rows of procfs, one line each; \<open>None\<close>: the file cannot be read.\<close>

definition nfqueue_bound :: "string option \<Rightarrow> int \<Rightarrow> bool" where
  "nfqueue_bound rows qnum = (case rows of None \<Rightarrow> False
     | Some t \<Rightarrow> list_ex (\<lambda>row. case split_ws row of [] \<Rightarrow> False | c # cs \<Rightarrow> c = show_int qnum) (split_on LF t))"

text \<open>What the machine says: environment, version file, tools, files, queues.\<close>

record tool_env =
  te_module :: bool
  te_environ :: "string \<Rightarrow> string option"
  te_version :: "string option"
  te_executable :: "string \<Rightarrow> bool"
  te_exists :: "string \<Rightarrow> bool"
  te_nft :: bool
  te_queues :: "string option"

record availability =
  av_engine :: bool
  av_engine_error :: string
  av_version :: string
  av_binary :: json
  av_binary_present :: bool
  av_nft_present :: bool
  av_zapret_base :: string
  av_nfqws2_present :: bool
  av_lua_present :: bool
  av_queue :: int
  av_queue_free :: bool

definition bcw_availability :: "tool_env \<Rightarrow> availability option" where
  "bcw_availability T = (if \<not> te_module T then None
     else (let binary = dget_or (settings_env (te_environ T)) ''bin'' (JStr []);
         base = (case te_environ T ''BCW_ZAPRET_BASE'' of None \<Rightarrow> ''/opt/zapret2'' | Some b \<Rightarrow> b)
       in case bcw_ready (te_module T) (te_executable T WZ_BCW) of (ready, error) \<Rightarrow> Some
         \<lparr>av_engine = ready, av_engine_error = error,
          av_version = (case te_version T of None \<Rightarrow> [] | Some t \<Rightarrow> strip t),
          av_binary = binary, av_binary_present = te_executable T (py_str binary), av_nft_present = te_nft T,
          av_zapret_base = base, av_nfqws2_present = te_exists T (os_join (os_join base ''nfq2'') ''nfqws2''),
          av_lua_present = list_all (\<lambda>name. te_exists T (os_join (os_join base ''lua'') name))
            [''zapret-lib.lua'', ''zapret-antidpi.lua''],
          av_queue = BCW_QUEUE_FIXED, av_queue_free = (\<not> nfqueue_bound (te_queues T) BCW_QUEUE_FIXED)\<rparr>))"

section \<open>Facts\<close>

lemma port_svc_names: "map_of (port_svc ss socks) p = Some v \<Longrightarrow> v \<in> snd ` set (port_svc ss socks)"
  by (force dest: map_of_SomeD)

lemma client_row_service: "client_row svcs row = Some (s, a) \<Longrightarrow> s \<in> snd ` set svcs"
  by (force simp: client_row_def Let_def split: if_splits option.splits dest: map_of_SomeD)

lemma set_map_filter: "y \<in> set (List.map_filter f xs) \<longleftrightarrow> (\<exists>x\<in>set xs. f x = Some y)"
  by (force simp: map_filter_def)

lemma client_rows_service: "(s, a) \<in> set (client_rows proc svcs) \<Longrightarrow> s \<in> snd ` set svcs"
  by (auto simp: client_rows_def set_map_filter simp del: set_map split: option.splits dest: client_row_service)

lemma set_remotes: "set (remotes rows s) = {a. (s, a) \<in> set rows}"
  by (force simp: remotes_def)

lemma length_remotes: "length (remotes rows s) = card {a. (s, a) \<in> set rows}"
  by (simp add: length_remdups_card_conv remotes_def) (rule arg_cong [of _ _ card], force)

lemma set_all_remotes:
  "snd ` set rows = A \<Longrightarrow> fst ` set rows \<subseteq> set names \<Longrightarrow> set (concat (map (remotes rows) names)) = A"
  by (force simp: set_remotes)

lemma sort_remdups_set: "sort (remdups xs) = sorted_list_of_set (set xs)" for xs :: "'a::linorder list"
  by (simp add: sorted_list_of_set_sort_remdups)

lemma sum_list_sort_key: "sum_list (map g (sort_key f xs)) = sum_list (map g xs)" for g :: "'a \<Rightarrow> nat"
proof -
  have "mset (map g (sort_key f xs)) = mset (map g xs)" by simp
  then show ?thesis by (metis sum_mset_sum_list)
qed

lemma probe_host_sound: "probe_host echo egress = (host, source) \<Longrightarrow>
    (source = ''auto'' \<longrightarrow> is_quad host) \<and> source \<noteq> ''env'' \<and> (host = [] \<longleftrightarrow> source = [])"
proof -
  have "first_echo echo urls \<noteq> [] \<longrightarrow> is_quad (first_echo echo urls)" for urls
    by (induction urls) (auto simp: Let_def split: option.splits)
  then show "probe_host echo egress = (host, source) \<Longrightarrow>
      (source = ''auto'' \<longrightarrow> is_quad host) \<and> source \<noteq> ''env'' \<and> (host = [] \<longleftrightarrow> source = [])"
    by (auto simp: probe_host_def Let_def split: if_splits option.splits)
qed

lemma active_strategy_iff: "(\<exists>s. active_strategy pf = Inr s) \<longleftrightarrow> (\<exists>ids. strategy_ids (pf_store pf) = Inr ids)"
  by (auto simp: active_strategy_def Let_def split: sum.splits)

lemma entry_with_id_total:
  "rmap (\<lambda>s. jget_or s ''id'' (JStr [])) vs = Inr ids \<Longrightarrow> \<exists>e. entry_with_id sid vs = Inr e"
proof (induction vs arbitrary: ids)
  case (Cons v vs)
  then show ?case by (cases v) (auto simp: result_simps)
qed simp

lemma active_entry: "strategy_ids (pf_store pf) = Inr ids \<Longrightarrow>
    \<exists>e. rbind (rbind (strategies (pf_store pf)) iter) (entry_with_id sid) = Inr e"
  by (auto simp: strategy_ids_def intro: entry_with_id_total split: sum.splits)

lemma traffic_answers_iff:
  "(\<exists>tr. get_traffic_stats pf wzfw nfqin = Inr tr) \<longleftrightarrow>
     (chain_bytes ''RETURN'' nfqin \<noteq> 0 \<or> chain_bytes ''NFQUEUE'' wzfw \<noteq> 0 \<or>
      (\<exists>i n. state_int pf ''nfqws_bytes_in'' = Inr i \<and> state_int pf ''nfqws_bytes_out'' = Inr n))"
  by (auto simp: get_traffic_stats_def Let_def split: sum.splits)

text \<open>The cache holds a dotted quad when it says that an echo service gave it.\<close>

definition good_cache :: "ip_cache \<Rightarrow> bool" where
  "good_cache c = ((pc_source c = ''auto'' \<longrightarrow> is_quad (pc_host c)) \<and> pc_source c \<noteq> ''env'')"

section \<open>Properties\<close>

text \<open>
  Property C33. The device list is exact: the addresses shown are the smallest 64 of the distinct remote
  addresses with an established connection to a service, in order; the count is the number of all of
  them; each service is listed with the number of its own; and the total never exceeds the sum over the
  services.
\<close>

theorem connected_devices_exact:
  "let rows = set (client_rows proc svcs); seen = dec_addr ` snd ` rows; d = connected_devices proc svcs in
     dv_count d = card seen \<and> dv_ips d = take 64 (sorted_list_of_set seen) \<and>
     set (dv_per_service d) = (\<lambda>s. (s, card {a. (s, a) \<in> rows})) ` snd ` set svcs \<and>
     dv_count d \<le> sum_list (map snd (dv_per_service d))"
proof -
  let ?rows = "client_rows proc svcs" and ?names = "remdups (map snd svcs)"
  let ?all = "concat (map (remotes ?rows) ?names)"
  have all: "set ?all = snd ` set ?rows"
    by (rule set_all_remotes) (auto dest: client_rows_service)
  have ips: "sort (remdups (map dec_addr ?all)) = sorted_list_of_set (dec_addr ` snd ` set ?rows)"
    unfolding sort_remdups_set set_map all ..
  have "length (sort (remdups (map dec_addr ?all))) \<le> length ?all"
    using length_remdups_leq [of "map dec_addr ?all"] by simp
  also have "\<dots> = sum_list (map (\<lambda>s. length (remotes ?rows s)) ?names)"
    by (simp add: length_concat comp_def)
  finally have "card (dec_addr ` snd ` set ?rows) \<le> sum_list (map (\<lambda>s. length (remotes ?rows s)) ?names)"
    by (simp add: ips)
  moreover have "length (remdups (map dec_addr ?all)) = card (dec_addr ` snd ` set ?rows)"
    using arg_cong [OF ips, of length] by simp
  ultimately show ?thesis
    by (simp add: connected_devices_def Let_def ips sum_list_sort_key comp_def length_remotes image_image)
qed

text \<open>
  The status page fails only for two reasons: the catalog is no list of dictionaries, or the
  firewall counters are all zero and a counter file of the state directory holds no number.
\<close>

theorem status_answers_iff:
  "(\<exists>page. snd (status G pf c) = Inr page) \<longleftrightarrow> (\<exists>ids. strategy_ids (pf_store pf) = Inr ids) \<and>
     (chain_bytes ''RETURN'' (ge_nfqin G) \<noteq> 0 \<or> chain_bytes ''NFQUEUE'' (ge_wzfw G) \<noteq> 0 \<or>
      (\<exists>i n. state_int pf ''nfqws_bytes_in'' = Inr i \<and> state_int pf ''nfqws_bytes_out'' = Inr n))"
proof (cases "active_strategy pf")
  case (Inl e)
  then have "\<nexists>ids. strategy_ids (pf_store pf) = Inr ids" by (simp add: active_strategy_iff [symmetric])
  with Inl show ?thesis by (simp add: status_def)
next
  case (Inr strat)
  then have ids: "\<exists>ids. strategy_ids (pf_store pf) = Inr ids" using active_strategy_iff [of pf] by blast
  with active_entry obtain entry where
    "rbind (rbind (strategies (pf_store pf)) iter) (entry_with_id (JStr strat)) = Inr entry" by blast
  moreover obtain c' host source where
    "detect_public_host (ge_public_host G) (ge_echo G) (ge_egress G) (ge_now G) c = (c', host, source)"
    by (rule prod_cases3)
  ultimately show ?thesis using Inr ids traffic_answers_iff [where pf = pf and wzfw = "ge_wzfw G" and nfqin = "ge_nfqin G"]
    by (cases "get_traffic_stats pf (ge_wzfw G) (ge_nfqin G)") (auto simp: status_def)
qed

text \<open>
  Property C34. The public address: the configured one is never overruled; otherwise an address said to be
  detected is a dotted quad, a source is named exactly when there is an address, the cache stays sound,
  and for ten minutes every later call gives the same answer whatever the network does.
\<close>

theorem public_host_sound:
  assumes "good_cache c" and "detect_public_host PUBLIC_HOST echo egress now c = (c', host, source)"
  shows "good_cache c' \<and> (source = ''auto'' \<longrightarrow> is_quad host) \<and> (source = ''env'' \<longleftrightarrow> PUBLIC_HOST \<noteq> []) \<and>
    (PUBLIC_HOST \<noteq> [] \<longrightarrow> host = PUBLIC_HOST \<and> c' = c) \<and>
    (host \<noteq> [] \<and> later - pc_ts c' < 600 \<longrightarrow>
      detect_public_host PUBLIC_HOST echo' egress' later c' = (c', host, source))"
  using assms probe_host_sound [of echo egress]
  by (auto simp: detect_public_host_def good_cache_def split: if_splits prod.splits)


text \<open>A first detection: an echo service answers, and ten minutes later the answer is a memory.\<close>

theorem public_host_sound_witness:
  "(case detect_public_host [] (\<lambda>_. Some ''203.0.113.7'') None 1000 \<lparr>pc_host = [], pc_source = [], pc_ts = 0\<rparr> of
      (c', host, source) \<Rightarrow> host = ''203.0.113.7'' \<and> good_cache c' \<and>
        detect_public_host [] (\<lambda>_. None) None 1599 c' = (c', host, source))"
proof -
  let ?c' = "\<lparr>pc_host = ''203.0.113.7'', pc_source = ''auto'', pc_ts = 1000\<rparr>"
  have "detect_public_host [] (\<lambda>_. Some ''203.0.113.7'') None 1000 \<lparr>pc_host = [], pc_source = [], pc_ts = 0\<rparr>
      = (?c', ''203.0.113.7'', ''auto'')" by code_simp
  with public_host_sound [OF _ this, where later = 1599 and echo' = "\<lambda>_. None" and egress' = None]
  show ?thesis by (simp add: good_cache_def)
qed

text \<open>The command lines that a test may run.\<close>

definition test_call :: "store \<Rightarrow> int \<Rightarrow> string list \<Rightarrow> bool" where
  "test_call st TEST_YTDLP_TIMEOUT argv = (case argv of
     [prog, sid, url, secs] \<Rightarrow> prog = WZ_TEST \<and> (case strategy_ids st of Inl e \<Rightarrow> False | Inr ids \<Rightarrow> JStr sid \<in> set ids) \<and>
       (startswith (lower url) ''http://'' \<or> startswith (lower url) ''https://'') \<and>
       list_all (\<lambda>c. \<not> is_space c) url \<and> length url \<le> 2048 \<and>
       (secs = show_int TEST_YTDLP_TIMEOUT \<or> (case int_of_text secs of None \<Rightarrow> False | Some n \<Rightarrow> 10 \<le> n \<and> n \<le> 600))
   | _ \<Rightarrow> False)"

lemma is_space_lower: "is_space (lower_char c) = is_space c"
  by (auto simp: lower_char_def is_space_def Let_def)

lemma prefix_no_space:
  assumes "startswith (lower url) p" "list_all (\<lambda>c. \<not> is_space c) p" "list_all (\<lambda>c. \<not> is_space c) (drop (length p) url)"
  shows "list_all (\<lambda>c. \<not> is_space c) url"
proof -
  from assms(1) obtain t where "lower url = p @ t" by (auto simp: startswith_iff)
  then have "take (length p) (lower url) = p" by simp
  then have "map lower_char (take (length p) url) = p" by (simp add: lower_def take_map)
  with assms(2) have "list_all (\<lambda>c. \<not> is_space c) (map lower_char (take (length p) url))" by simp
  then have "list_all (\<lambda>c. \<not> is_space c) (take (length p) url)" by (simp add: list_all_iff is_space_lower)
  with assms(3) show ?thesis by (metis append_take_drop_id list_all_append)
qed

lemma test_url_sound:
  assumes "test_url_ok url"
  shows "startswith (lower url) ''http://'' \<or> startswith (lower url) ''https://''" "list_all (\<lambda>c. \<not> is_space c) url"
proof -
  have p: "list_all (\<lambda>c. \<not> is_space c) ''http://''" "list_all (\<lambda>c. \<not> is_space c) ''https://''"
    "length ''http://'' = 7" "length ''https://'' = 8" by code_simp+
  consider "startswith (lower url) ''http://''" "list_all (\<lambda>c. \<not> is_space c) (drop 7 url)"
    | "startswith (lower url) ''https://''" "list_all (\<lambda>c. \<not> is_space c) (drop 8 url)"
    using assms unfolding test_url_ok_def Let_def by (auto split: if_splits)
  then show "startswith (lower url) ''http://'' \<or> startswith (lower url) ''https://''" "list_all (\<lambda>c. \<not> is_space c) url"
    using prefix_no_space [OF _ p(1), of url] prefix_no_space [OF _ p(2), of url] unfolding p(3,4) by (cases; blast)+
qed

lemma test_seconds_bounds:
  "test_seconds T v = Inr n \<Longrightarrow> n = T \<or> (10 \<le> n \<and> n \<le> 600)"
  by (auto simp: test_seconds_def split: sum.splits pyexn.splits)

text \<open>
  Property C35. A strategy test runs nothing but the test script, with the identifier of a strategy in the
  catalog, one http(s) address without blanks of at most 2048 characters, and a number of seconds
  between 10 and 600 (or the configured default): harnesses that agree on these command lines give the
  same answer, whatever was asked for.
\<close>

theorem test_harness_confined:
  assumes "\<And>argv. test_call st TEST_YTDLP_TIMEOUT argv \<Longrightarrow> harness argv = harness' argv"
  shows "test_strategy TEST_YTDLP_URL TEST_YTDLP_TIMEOUT raw_decode harness sid url timeout st =
    test_strategy TEST_YTDLP_URL TEST_YTDLP_TIMEOUT raw_decode harness' sid url timeout st"
proof -
  have "harness [WZ_TEST, sid, u, show_int n] = harness' [WZ_TEST, sid, u, show_int n]"
    if "strategy_ids st = Inr ids" "JStr sid \<in> set ids" "test_url_ok u" "\<not> 2048 < length u"
      "test_seconds TEST_YTDLP_TIMEOUT timeout = Inr n" for ids u n
    using that test_seconds_bounds [OF that(5)] int_of_text_show_small [of n]
    by (intro assms) (auto simp: test_call_def test_url_sound)
  then show ?thesis by (auto simp: test_strategy_def Let_def split: sum.splits)
qed

theorem test_harness_confined_witness:
  "test_strategy ''https://example.org/'' 120 (\<lambda>_. None) (\<lambda>argv. if list_all (\<lambda>a. a \<noteq> ''9999'') argv then ProcTimeout else NoProgram)
     ''none'' [] (JInt 9999) (pf_store (sample_catalog [[(''id'', JStr ''none'')]])) = Inr TestTimedOut"
proof -
  let ?st = "pf_store (sample_catalog [[(''id'', JStr ''none'')]])"
  have "test_strategy ''https://example.org/'' 120 (\<lambda>_. None) (\<lambda>argv. if list_all (\<lambda>a. a \<noteq> ''9999'') argv then ProcTimeout else NoProgram)
     ''none'' [] (JInt 9999) ?st = test_strategy ''https://example.org/'' 120 (\<lambda>_. None) (\<lambda>_. ProcTimeout) ''none'' [] (JInt 9999) ?st"
  proof (rule test_harness_confined)
    fix argv assume "test_call ?st 120 argv"
    moreover have "show_int 120 \<noteq> ''9999''" "int_of_text ''9999'' = Some 9999"
      "\<not> (startswith (lower ''9999'') ''http://'' \<or> startswith (lower ''9999'') ''https://'')" "WZ_TEST \<noteq> ''9999''"
      "strategy_ids ?st = Inr [JStr ''none'']" by code_simp+
    ultimately show "(if list_all (\<lambda>a. a \<noteq> ''9999'') argv then ProcTimeout else NoProgram) = ProcTimeout"
      by (auto simp: test_call_def split: list.splits)
  qed
  also have "\<dots> = Inr TestTimedOut" by code_simp
  finally show ?thesis .
qed

end
