(* ===== verification/Routes.thy ===== *)
theory Routes
  imports Gateway
begin

text \<open>
  \<^verbatim>\<open>src/panel/panel.py\<close>, the request handler: \<open>do_GET\<close> and \<open>do_POST\<close> with every route, on top of the
  operations of the other theories. A request is its path, two headers and the bytes on the connection; the
  answer is a status with a body (named by its constructor), or an exception, which ends the connection.
\<close>

section \<open>Requests and answers\<close>

record request =
  rq_path :: string
  rq_authorization :: "string option"
  rq_length :: "string option"
  rq_input :: "byte list"

record panel_state =
  ps_files :: panel_files
  ps_cache :: ip_cache

text \<open>
  What a request depends on beside the state: the environment of the panel, the JSON reader, the scripts,
  the engine module, the faults of the writes, and the other files of the machine.
\<close>

record panel_env =
  pv_user :: string
  pv_password :: string
  pv_loads :: "codepoints \<Rightarrow> json option"
  pv_start :: start_env
  pv_gateway :: gateway_env
  pv_script :: "string list \<Rightarrow> panel_files \<Rightarrow> panel_files \<times> proc_end"
  pv_harness :: "string list \<Rightarrow> proc_end"
  pv_raw_decode :: "string \<Rightarrow> json option"
  pv_test_url :: string
  pv_test_timeout :: int
  pv_test_queue :: int
  pv_ytdlp :: bool
  pv_fault :: fault
  pv_fault2 :: fault
  pv_unlink :: bool
  pv_signalled :: bool
  pv_epoch :: int
  pv_stamp :: string
  pv_offset :: int
  pv_logs :: log_files
  pv_log_size :: "string \<Rightarrow> int option"
  pv_index :: "string option"

datatype reply =
    AuthRequired
  | NotFound
  | EngineUnavailable
  | UnknownId string
  | ModeRefused
  | Applied apply_result string
  | ImportReply import_result
  | RunImportReply bcw_import_result
  | TestReply test_answer
  | DeleteReply delete_result
  | SettingsReply outcome bool
  | ResetReply "json dict"
  | StartReply start_answer
  | CancelReply cancel_answer
  | ScheduleReply outcome bool
  | Page string
  | StatusReply status_page
  | StrategyList "json list"
  | TestInfo string int int bool
  | OverviewReply "overview option"
  | ActiveId string
  | ExitMode string
  | TrafficReply traffic
  | ExportedLogs string
  | LogTail string string

type_synonym answer = "(nat \<times> reply) result"

definition on_store :: "store \<Rightarrow> panel_state \<Rightarrow> panel_state" where
  "on_store st ps = ps\<lparr>ps_files := (ps_files ps)\<lparr>pf_store := st\<rparr>\<rparr>"

abbreviation store_of :: "panel_state \<Rightarrow> store" where
  "store_of ps \<equiv> pf_store (ps_files ps)"

definition status_code :: "bool \<Rightarrow> nat" where
  "status_code ok = (if ok then 200 else 400)"

text \<open>\<open>str(body.get(key, ""))\<close>.\<close>

definition body_text :: "json dict \<Rightarrow> string \<Rightarrow> string" where
  "body_text d key = py_str (dget_or d key (JStr []))"

section \<open>The POST routes\<close>

definition run_apply :: "panel_env \<Rightarrow> string list \<Rightarrow> string \<Rightarrow> panel_state \<Rightarrow> panel_state \<times> answer" where
  "run_apply E args shown ps = (case pv_script E (APPLY # args) (ps_files ps) of (pf', p) \<Rightarrow>
     (ps\<lparr>ps_files := pf'\<rparr>, (case apply_answer p of Inl e \<Rightarrow> Inl e | Inr a \<Rightarrow> Inr (200, Applied a shown))))"

definition post_strategy :: "panel_env \<Rightarrow> json dict \<Rightarrow> panel_state \<Rightarrow> panel_state \<times> answer" where
  "post_strategy E body ps = (let sid = body_text body ''id'' in
     case strategy_ids (store_of ps) of Inl e \<Rightarrow> (ps, Inl e)
     | Inr ids \<Rightarrow> if JStr sid \<notin> set ids then (ps, Inr (400, UnknownId sid))
       else run_apply E [''strategy'', sid] sid ps)"

definition post_exit :: "panel_env \<Rightarrow> json dict \<Rightarrow> panel_state \<Rightarrow> panel_state \<times> answer" where
  "post_exit E body ps = (let mode = body_text body ''mode'' in
     if mode \<notin> {''direct'', ''socks5'', ''ss''} then (ps, Inr (400, ModeRefused))
     else run_apply E [''exit'', mode] mode ps)"

fun imported_ok :: "import_result \<Rightarrow> bool" where
  "imported_ok (Imported es) = True"
| "imported_ok _ = False"

definition post_import :: "panel_env \<Rightarrow> json \<Rightarrow> panel_state \<Rightarrow> panel_state \<times> answer" where
  "post_import E body ps =
     (case import_strategy_from_json (pv_fault E) (pv_epoch E) (pv_stamp E) body (store_of ps) of
        (st', r) \<Rightarrow> (on_store st' ps, Inr (status_code (imported_ok r), ImportReply r)))"

fun test_ok :: "test_answer \<Rightarrow> bool" where
  "test_ok (TestResult d) = truthy (dget_or d ''ok'' JNull)"
| "test_ok _ = False"

definition post_test :: "panel_env \<Rightarrow> json dict \<Rightarrow> panel_state \<Rightarrow> panel_state \<times> answer" where
  "post_test E body ps = (ps,
     (case test_strategy (pv_test_url E) (pv_test_timeout E) (pv_raw_decode E) (pv_harness E) (body_text body ''id'')
        (py_str (py_or (dget_or body ''url'' (JStr [])) (JStr (pv_test_url E)))) (dget_or body ''timeout'' JNull) (store_of ps) of
        Inl e \<Rightarrow> Inl e | Inr a \<Rightarrow> Inr (status_code (test_ok a), TestReply a)))"

fun deleted_ok :: "delete_result \<Rightarrow> bool" where
  "deleted_ok (Deleted sid left) = True"
| "deleted_ok _ = False"

definition post_delete :: "panel_env \<Rightarrow> json dict \<Rightarrow> panel_state \<Rightarrow> panel_state \<times> answer" where
  "post_delete E body ps = (case delete_strategy (pv_fault E) (JStr (body_text body ''id'')) (ps_files ps) of
       Inl e \<Rightarrow> (ps, Inl e)
     | Inr (pf', r) \<Rightarrow> (ps\<lparr>ps_files := pf'\<rparr>, Inr (status_code (deleted_ok r), DeleteReply r)))"

text \<open>\<open>(values or {}).items()\<close>.\<close>

definition items_of :: "json \<Rightarrow> json dict option" where
  "items_of v = (if \<not> truthy v then Some [] else (case v of JDict d \<Rightarrow> Some d | _ \<Rightarrow> None))"

definition post_settings :: "panel_env \<Rightarrow> json \<Rightarrow> panel_state \<Rightarrow> panel_state \<times> answer" where
  "post_settings E body ps = (case items_of body of None \<Rightarrow> (ps, Inl AttributeError)
     | Some d \<Rightarrow> (case save_settings (pv_fault E) BCW_STATE_DIR (se_environ (pv_start E)) d (store_of ps) of
         None \<Rightarrow> (ps, Inl AttributeError)
       | Some (st', res, saved) \<Rightarrow> (let ok = (saved \<and> snd (snd res) = [])
           in (on_store st' ps, Inr (status_code ok, SettingsReply res ok)))))"

definition post_reset :: "panel_env \<Rightarrow> panel_state \<Rightarrow> panel_state \<times> answer" where
  "post_reset E ps = (case reset_settings (pv_unlink E) BCW_STATE_DIR (se_environ (pv_start E)) (store_of ps) of
     (st', d) \<Rightarrow> (on_store st' ps, Inr (200, ResetReply d)))"

fun started_ok :: "start_answer \<Rightarrow> bool" where
  "started_ok (RunStarted i p s w) = True"
| "started_ok _ = False"

definition post_run :: "panel_env \<Rightarrow> json dict \<Rightarrow> panel_state \<Rightarrow> panel_state \<times> answer" where
  "post_run E body ps = (let overrides = (case dget_or body ''settings'' JNull of JDict d \<Rightarrow> Some d | _ \<Rightarrow> None) in
     case bcw_start_run (pv_start E) overrides ''manual'' (store_of ps) of Inl e \<Rightarrow> (ps, Inl e)
     | Inr (st', a) \<Rightarrow> (on_store st' ps, Inr (status_code (started_ok a), StartReply a)))"

fun cancelled_ok :: "cancel_answer \<Rightarrow> bool" where
  "cancelled_ok (Cancelled i) = True"
| "cancelled_ok _ = False"

text \<open>Without the engine module the name of its function cannot be looked up.\<close>

definition post_cancel :: "panel_env \<Rightarrow> panel_state \<Rightarrow> panel_state \<times> answer" where
  "post_cancel E ps = (if \<not> se_module (pv_start E) then (ps, Inl AttributeError)
     else (case bcw_cancel (se_alive (pv_start E)) (pv_signalled E) (pv_fault E) (store_of ps) of Inl e \<Rightarrow> (ps, Inl e)
       | Inr (st', a) \<Rightarrow> (on_store st' ps, Inr (status_code (cancelled_ok a), CancelReply a))))"

definition post_schedule_route :: "panel_env \<Rightarrow> json \<Rightarrow> panel_state \<Rightarrow> panel_state \<times> answer" where
  "post_schedule_route E body ps = (case items_of body of None \<Rightarrow> (ps, Inl AttributeError)
     | Some d \<Rightarrow> (case post_schedule (pv_fault E) (pv_fault2 E) BCW_STATE_DIR (se_environ (pv_start E)) d (store_of ps) of
         None \<Rightarrow> (ps, Inl AttributeError)
       | Some (st', res, saved) \<Rightarrow> (let ok = (saved \<and> snd (snd res) = [])
           in (on_store st' ps, Inr (status_code ok, ScheduleReply res ok)))))"

text \<open>A route that looks into the body with \<open>get\<close>.\<close>

definition with_dict :: "json \<Rightarrow> (json dict \<Rightarrow> panel_state \<Rightarrow> panel_state \<times> answer) \<Rightarrow> panel_state \<Rightarrow> panel_state \<times> answer" where
  "with_dict body f ps = (case body of JDict d \<Rightarrow> f d ps | _ \<Rightarrow> (ps, Inl AttributeError))"

text \<open>The import of a run; the call always raises, see \<open>post_bcw_import\<close>.\<close>

fun run_imported_ok :: "bcw_import_result \<Rightarrow> bool" where
  "run_imported_ok (BcwImported es sk) = True"
| "run_imported_ok _ = False"

definition post_import_run :: "json \<Rightarrow> panel_state \<Rightarrow> panel_state \<times> answer" where
  "post_import_run body ps = (ps, (case post_bcw_import body of Inl e \<Rightarrow> Inl e | Inr r \<Rightarrow> Inr (status_code (run_imported_ok r), RunImportReply r)))"

definition post_route :: "panel_env \<Rightarrow> string \<Rightarrow> json \<Rightarrow> panel_state \<Rightarrow> panel_state \<times> answer" where
  "post_route E path body ps = (let engine = se_module (pv_start E) in
     if path = ''/api/strategy'' then with_dict body (post_strategy E) ps
     else if path = ''/api/strategy/import'' then post_import E body ps
     else if path = ''/api/strategy/test'' then with_dict body (post_test E) ps
     else if path = ''/api/strategy/delete'' then with_dict body (post_delete E) ps
     else if path = ''/api/bcw/settings'' then
       (if \<not> engine then (ps, Inr (400, EngineUnavailable)) else post_settings E body ps)
     else if path = ''/api/bcw/reset'' then
       (if \<not> engine then (ps, Inr (400, EngineUnavailable)) else post_reset E ps)
     else if path = ''/api/bcw/run'' then with_dict body (post_run E) ps
     else if path = ''/api/bcw/cancel'' then post_cancel E ps
     else if path = ''/api/bcw/import'' then post_import_run body ps
     else if path = ''/api/bcw/schedule'' then
       (if \<not> engine then (ps, Inr (400, EngineUnavailable)) else post_schedule_route E body ps)
     else if path = ''/api/exit'' then with_dict body (post_exit E) ps
     else (ps, Inr (404, NotFound)))"

text \<open>The routes that read the body; the others leave it on the connection.\<close>

definition reads_body :: "bool \<Rightarrow> string \<Rightarrow> bool" where
  "reads_body engine path = (path \<in> {''/api/strategy'', ''/api/strategy/import'', ''/api/strategy/test'',
       ''/api/strategy/delete'', ''/api/bcw/run'', ''/api/bcw/import'', ''/api/exit''} \<or>
     (engine \<and> path \<in> {''/api/bcw/settings'', ''/api/bcw/schedule''}))"

record served =
  sd_state :: panel_state
  sd_answer :: answer
  sd_left :: "byte list"

definition url_path :: "string \<Rightarrow> string" where
  "url_path p = before CHR ''?'' p"

definition do_POST :: "panel_env \<Rightarrow> request \<Rightarrow> panel_state \<Rightarrow> served" where
  "do_POST E rq ps = (case authed (pv_user E) (pv_password E) (rq_authorization rq) of
       Inl e \<Rightarrow> \<lparr>sd_state = ps, sd_answer = Inl e, sd_left = rq_input rq\<rparr>
     | Inr False \<Rightarrow> \<lparr>sd_state = ps, sd_answer = Inr (401, AuthRequired), sd_left = rq_input rq\<rparr>
     | Inr True \<Rightarrow> (let path = url_path (rq_path rq) in
         case read_body (pv_loads E) (rq_length rq) (rq_input rq) of (body, left) \<Rightarrow>
           (case post_route E path body ps of (ps', a) \<Rightarrow> \<lparr>sd_state = ps', sd_answer = a,
              sd_left = (if reads_body (se_module (pv_start E)) path then left else rq_input rq)\<rparr>)))"

section \<open>The GET routes\<close>

definition listed_strategy :: "json \<Rightarrow> json result" where
  "listed_strategy v = (case entry_dict v of Inl e \<Rightarrow> Inl e
     | Inr s \<Rightarrow> Inr (JDict [(''id'', dget_or s ''id'' JNull), (''name'', dget_or s ''name'' JNull),
         (''desc'', dget_or s ''desc'' (JStr [])), (''imported'', dget_or s ''imported'' (JBool False))]))"

definition get_strategies :: "store \<Rightarrow> json list result" where
  "get_strategies st = rbind (rbind (strategies st) iter) (rmap listed_strategy)"

definition get_route :: "panel_env \<Rightarrow> string \<Rightarrow> string \<Rightarrow> panel_state \<Rightarrow> panel_state \<times> answer" where
  "get_route E full path ps = (
     if path = ''/'' \<or> path = ''/index.html'' then
       (ps, (case pv_index E of None \<Rightarrow> Inl OSError | Some t \<Rightarrow> Inr (200, Page t)))
     else if path = ''/api/status'' then
       (case status (pv_gateway E) (ps_files ps) (ps_cache ps) of (c', r) \<Rightarrow>
          (ps\<lparr>ps_cache := c'\<rparr>, (case r of Inl e \<Rightarrow> Inl e | Inr s \<Rightarrow> Inr (200, StatusReply s))))
     else if path = ''/api/strategies'' then
       (ps, (case get_strategies (store_of ps) of Inl e \<Rightarrow> Inl e | Inr vs \<Rightarrow> Inr (200, StrategyList vs)))
     else if path = ''/api/testinfo'' then
       (ps, Inr (200, TestInfo (pv_test_url E) (pv_test_timeout E) (pv_test_queue E) (pv_ytdlp E)))
     else if path = ''/api/bcw'' then
       (case bcw_overview (fst (bcw_ready (se_module (pv_start E)) (se_harness (pv_start E)))) (se_alive (pv_start E))
              (pv_fault E) (pv_offset E) (se_environ (pv_start E)) (store_of ps) of (st', r) \<Rightarrow>
          (on_store st' ps, (case r of Inl e \<Rightarrow> Inl e | Inr v \<Rightarrow> Inr (200, OverviewReply v))))
     else if path = ''/api/strategy'' then
       (ps, (case active_strategy (ps_files ps) of Inl e \<Rightarrow> Inl e | Inr i \<Rightarrow> Inr (200, ActiveId i)))
     else if path = ''/api/exit'' then (ps, Inr (200, ExitMode (active_exit_mode (ps_files ps))))
     else if path = ''/api/traffic'' then
       (ps, (case get_traffic_stats (ps_files ps) (ge_wzfw (pv_gateway E)) (ge_nfqin (pv_gateway E)) of Inl e \<Rightarrow> Inl e
          | Inr t \<Rightarrow> Inr (200, TrafficReply t)))
     else if path = ''/api/logs/export'' then
       (ps, Inr (200, ExportedLogs (export_logs (pv_logs E) (pv_log_size E) (pv_epoch E))))
     else if path = ''/api/logs'' then
       (ps, (case logs_route (pv_logs E) full of Inl e \<Rightarrow> Inl e | Inr (src, t) \<Rightarrow> Inr (200, LogTail src t)))
     else (ps, Inr (404, NotFound)))"

definition do_GET :: "panel_env \<Rightarrow> request \<Rightarrow> panel_state \<Rightarrow> served" where
  "do_GET E rq ps = (case authed (pv_user E) (pv_password E) (rq_authorization rq) of
       Inl e \<Rightarrow> \<lparr>sd_state = ps, sd_answer = Inl e, sd_left = rq_input rq\<rparr>
     | Inr False \<Rightarrow> \<lparr>sd_state = ps, sd_answer = Inr (401, AuthRequired), sd_left = rq_input rq\<rparr>
     | Inr True \<Rightarrow> (case get_route E (rq_path rq) (url_path (rq_path rq)) ps of (ps', a) \<Rightarrow>
         \<lparr>sd_state = ps', sd_answer = a, sd_left = rq_input rq\<rparr>))"


section \<open>Frames\<close>

text \<open>A change of the store that stays within some files (and their temporary files).\<close>

definition touches :: "string list \<Rightarrow> store \<Rightarrow> store \<Rightarrow> bool" where
  "touches fs st st' = (\<forall>p. p \<notin> set fs \<and> p \<notin> (\<lambda>f. f @ ''.tmp'') ` set fs \<longrightarrow> st' p = st p)"

named_theorems touches_intros \<open>which files an operation touches\<close>

lemma touches_refl [simp, touches_intros]: "touches fs st st"
  by (simp add: touches_def)

lemma touches_trans: "touches fs st st' \<Longrightarrow> touches fs st' st'' \<Longrightarrow> touches fs st st''"
  by (simp add: touches_def)

lemma touches_mono: "touches fs st st' \<Longrightarrow> set fs \<subseteq> set gs \<Longrightarrow> touches gs st st'"
  by (auto simp: touches_def)

lemma touchesD: "touches fs st st' \<Longrightarrow> p \<notin> set fs \<Longrightarrow> p \<notin> (\<lambda>f. f @ ''.tmp'') ` set fs \<Longrightarrow> st' p = st p"
  by (simp add: touches_def)

lemma touchesI:
  assumes "path \<in> set fs" and "\<And>p. p \<noteq> path \<Longrightarrow> p \<noteq> path @ ''.tmp'' \<Longrightarrow> st' p = st p"
  shows "touches fs st st'"
  unfolding touches_def
proof (intro allI impI)
  fix p assume p: "p \<notin> set fs \<and> p \<notin> (\<lambda>f. f @ ''.tmp'') ` set fs"
  from p assms(1) have "p \<noteq> path" by blast
  moreover from p imageI [OF assms(1), of "\<lambda>f. f @ ''.tmp''"] have "p \<noteq> path @ ''.tmp''" by metis
  ultimately show "st' p = st p" by (rule assms(2))
qed

lemma touches_written: "write_json f path v st = (st', ok) \<Longrightarrow> path \<in> set fs \<Longrightarrow> touches fs st st'"
  by (erule touchesI) (rule write_json_others)

lemma touches_write [touches_intros]: "path \<in> set fs \<Longrightarrow> touches fs st (fst (write_json f path v st))"
  by (cases "write_json f path v st") (simp add: touches_written)

lemma touches_save_job [touches_intros]:
  "state_path BCW_STATE_DIR JOB_FILE \<in> set fs \<Longrightarrow> touches fs st (save_job f job st)"
  by (simp add: save_job_def touches_write)

lemma touches_save_settings:
  "save_settings f dir environ d st = Some (st', res, ok) \<Longrightarrow> state_path dir SETTINGS_FILE \<in> set fs \<Longrightarrow> touches fs st st'"
  by (erule touchesI) (rule settings_file.save_frame)

lemma touches_save_schedule:
  "save_schedule f dir environ d st = Some (st', res, ok) \<Longrightarrow> state_path dir SCHEDULE_FILE \<in> set fs \<Longrightarrow> touches fs st st'"
  by (erule touchesI) (rule schedule_file.save_frame)

lemma touches_post_schedule:
  assumes post: "post_schedule f g dir environ d st = Some (st', res, ok)" and target: "state_path dir SCHEDULE_FILE \<in> set fs"
  shows "touches fs st st'"
proof -
  from post obtain st1 saved where s: "save_schedule f dir environ d st = Some (st1, res, saved)"
    "st' = st1 \<or> (\<exists>v. st' = fst (write_json g (state_path dir SCHEDULE_FILE) v st1))"
    unfolding post_schedule_def by (cases "save_schedule f dir environ d st") (auto split: if_splits option.splits, blast)
  from touches_save_schedule [OF s(1) target] s(2) touches_write [OF target] show ?thesis
    by (auto intro: touches_trans)
qed

lemma touches_launch:
  assumes "settings_copy (se_run_id E) \<in> set fs" "state_path BCW_STATE_DIR JOB_FILE \<in> set fs"
  shows "touches fs st (fst (launch E source settings ws st))"
  using assms by (auto simp: launch_def Let_def split: option.splits
      intro!: touches_trans [OF touches_trans [OF touches_write touches_save_job] touches_save_job])

lemma touches_overrides:
  "start_overrides E ov st = Some (st1, saved) \<Longrightarrow> state_path BCW_STATE_DIR SETTINGS_FILE \<in> set fs \<Longrightarrow> touches fs st st1"
  by (auto simp: start_overrides_def touches_save_settings split: option.splits list.splits)

lemma touches_start_run:
  assumes run: "bcw_start_run E ov source st = Inr (st', a)"
    and files: "{state_path BCW_STATE_DIR SETTINGS_FILE, state_path BCW_STATE_DIR JOB_FILE, settings_copy (se_run_id E)} \<subseteq> set fs"
  shows "touches fs st st'"
proof (cases "st' = st")
  case False
  then obtain job where "load_job st = Inr job" "\<not> job_running (se_alive E) job" "fst (bcw_ready (se_module E) (se_harness E))"
    using run by (auto simp: bcw_start_run_def split: prod.splits if_splits sum.splits)
  note body = run [unfolded bcw_start_run_def] this
  then obtain st1 saved where o: "start_overrides E ov st = Some (st1, saved)"
    by (cases "start_overrides E ov st") (auto split: prod.splits)
  with files have 1: "touches fs st st1" by (auto intro: touches_overrides)
  show ?thesis
  proof (cases "st' = st1")
    case True
    with 1 show ?thesis by simp
  next
    case False
    with o body obtain settings ws where "launch E source settings ws st1 = (st', a)"
      by (cases "load_settings BCW_STATE_DIR (se_environ E) st1") (auto split: prod.splits if_splits)
    with touches_launch [where E = E and fs = fs and source = source and settings = settings and ws = ws and st = st1] files have "touches fs st1 st'" by simp
    with 1 show ?thesis by (rule touches_trans)
  qed
qed simp

lemma touches_cancel:
  "bcw_cancel alive sent f st = Inr (st', a) \<Longrightarrow> state_path BCW_STATE_DIR JOB_FILE \<in> set fs \<Longrightarrow> touches fs st st'"
  by (auto simp: bcw_cancel_def touches_save_job split: sum.splits if_splits)

lemma touches_overview:
  "bcw_overview ready alive f off environ st = (st', r) \<Longrightarrow> state_path BCW_STATE_DIR JOB_FILE \<in> set fs \<Longrightarrow> touches fs st st'"
  by (auto simp: bcw_overview_def overview_job_def Let_def touches_save_job split: if_splits sum.splits option.splits prod.splits)

lemma touches_delete:
  "delete_strategy f v pf = Inr (pf', r) \<Longrightarrow> STRATEGIES_FILE \<in> set fs \<Longrightarrow> touches fs (pf_store pf) (pf_store pf')"
  by (auto simp: delete_strategy_def Let_def touches_written split: sum.splits if_splits json.splits prod.splits)

lemma touches_import:
  "import_strategy_from_json f now stamp data st = (st', r) \<Longrightarrow> STRATEGIES_FILE \<in> set fs \<Longrightarrow> touches fs st st'"
  by (auto simp: import_strategy_from_json_def touches_written split: json.splits sum.splits option.splits prod.splits)

lemma touches_reset:
  "reset_settings ok dir environ st = (st', d) \<Longrightarrow> state_path dir SETTINGS_FILE \<in> set fs \<Longrightarrow> touches fs st st'"
  by (auto simp: reset_settings_def touches_def)

text \<open>The files of each route.\<close>

definition post_files :: "string \<Rightarrow> string \<Rightarrow> string list" where
  "post_files run_id path = (
     if path \<in> {''/api/strategy/import'', ''/api/strategy/delete''} then [STRATEGIES_FILE]
     else if path \<in> {''/api/bcw/settings'', ''/api/bcw/reset''} then [state_path BCW_STATE_DIR SETTINGS_FILE]
     else if path = ''/api/bcw/schedule'' then [state_path BCW_STATE_DIR SCHEDULE_FILE]
     else if path = ''/api/bcw/cancel'' then [state_path BCW_STATE_DIR JOB_FILE]
     else if path = ''/api/bcw/run''
       then [state_path BCW_STATE_DIR SETTINGS_FILE, state_path BCW_STATE_DIR JOB_FILE, settings_copy run_id]
     else [])"

definition get_files :: "string \<Rightarrow> string list" where
  "get_files path = (if path = ''/api/bcw'' then [state_path BCW_STATE_DIR JOB_FILE] else [])"


lemma on_store_simps [simp]: "pf_store (ps_files (on_store st ps)) = st" "ps_cache (on_store st ps) = ps_cache ps"
  "pf_state (ps_files (on_store st ps)) = pf_state (ps_files ps)"
  by (simp_all add: on_store_def)

text \<open>Scripts that leave the JSON files alone.\<close>

definition quiet_scripts :: "panel_env \<Rightarrow> bool" where
  "quiet_scripts E = (\<forall>argv pf. pf_store (fst (pv_script E argv pf)) = pf_store pf)"

lemma run_apply_store:
  "quiet_scripts E \<Longrightarrow> store_of (fst (run_apply E args shown ps)) = store_of ps"
  by (simp add: run_apply_def quiet_scripts_def split: prod.split) (metis fst_conv)

lemma script_routes_store:
  assumes "quiet_scripts E"
  shows "store_of (fst (post_strategy E d ps)) = store_of ps" "store_of (fst (post_exit E d ps)) = store_of ps"
    "fst (post_test E d ps) = ps" "fst (post_import_run body ps) = ps"
  using run_apply_store [OF assms]
  by (simp_all add: post_strategy_def post_exit_def post_test_def post_import_run_def Let_def split: sum.split)

lemma catalog_routes_touch:
  assumes "STRATEGIES_FILE \<in> set fs"
  shows "touches fs (store_of ps) (store_of (fst (post_import E body ps)))"
    "touches fs (store_of ps) (store_of (fst (post_delete E d ps)))"
  using assms by (auto simp: post_import_def post_delete_def intro: touches_import touches_delete split: prod.split sum.split)

lemma settings_routes_touch:
  assumes "state_path BCW_STATE_DIR SETTINGS_FILE \<in> set fs"
  shows "touches fs (store_of ps) (store_of (fst (post_settings E body ps)))"
    "touches fs (store_of ps) (store_of (fst (post_reset E ps)))"
  using assms by (auto simp: post_settings_def post_reset_def Let_def intro: touches_save_settings touches_reset
      split: prod.split option.split)

lemma schedule_route_touches:
  "state_path BCW_STATE_DIR SCHEDULE_FILE \<in> set fs \<Longrightarrow>
     touches fs (store_of ps) (store_of (fst (post_schedule_route E body ps)))"
  by (auto simp: post_schedule_route_def Let_def intro: touches_post_schedule split: prod.split option.split)

lemma job_routes_touch:
  "state_path BCW_STATE_DIR JOB_FILE \<in> set fs \<Longrightarrow> touches fs (store_of ps) (store_of (fst (post_cancel E ps)))"
  "{state_path BCW_STATE_DIR SETTINGS_FILE, state_path BCW_STATE_DIR JOB_FILE, settings_copy (se_run_id (pv_start E))} \<subseteq> set fs \<Longrightarrow>
     touches fs (store_of ps) (store_of (fst (post_run E d ps)))"
  by (auto simp: post_cancel_def post_run_def Let_def intro: touches_cancel touches_start_run split: prod.split sum.split)

lemma with_dict_touches:
  "(\<And>d. touches fs (store_of ps) (store_of (fst (f d ps)))) \<Longrightarrow> touches fs (store_of ps) (store_of (fst (with_dict body f ps)))"
  by (cases body) (simp_all add: with_dict_def)

definition POST_PATHS :: "string list" where
  "POST_PATHS = [''/api/strategy'', ''/api/strategy/import'', ''/api/strategy/test'', ''/api/strategy/delete'', ''/api/bcw/settings'', ''/api/bcw/reset'',
     ''/api/bcw/run'', ''/api/bcw/cancel'', ''/api/bcw/import'', ''/api/bcw/schedule'', ''/api/exit'']"

lemma post_route_other: "path \<notin> set POST_PATHS \<Longrightarrow> post_route E path body ps = (ps, Inr (404, NotFound))"
  by (simp add: post_route_def POST_PATHS_def)

lemma post_route_at:
  "post_route E ''/api/strategy'' body ps = with_dict body (post_strategy E) ps"
  "post_route E ''/api/strategy/import'' body ps = post_import E body ps"
  "post_route E ''/api/strategy/test'' body ps = with_dict body (post_test E) ps"
  "post_route E ''/api/strategy/delete'' body ps = with_dict body (post_delete E) ps"
  "post_route E ''/api/bcw/settings'' body ps =
     (if \<not> se_module (pv_start E) then (ps, Inr (400, EngineUnavailable)) else post_settings E body ps)"
  "post_route E ''/api/bcw/reset'' body ps =
     (if \<not> se_module (pv_start E) then (ps, Inr (400, EngineUnavailable)) else post_reset E ps)"
  "post_route E ''/api/bcw/run'' body ps = with_dict body (post_run E) ps"
  "post_route E ''/api/bcw/cancel'' body ps = post_cancel E ps"
  "post_route E ''/api/bcw/import'' body ps = post_import_run body ps"
  "post_route E ''/api/bcw/schedule'' body ps =
     (if \<not> se_module (pv_start E) then (ps, Inr (400, EngineUnavailable)) else post_schedule_route E body ps)"
  "post_route E ''/api/exit'' body ps = with_dict body (post_exit E) ps"
  by (simp_all add: post_route_def)

lemma engine_touches:
  "touches fs (store_of ps) (store_of (fst b)) \<Longrightarrow>
     touches fs (store_of ps) (store_of (fst (if c then (ps, a) else b)))"
  by simp

lemma store_same_touches: "store_of ps' = store_of ps \<Longrightarrow> touches fs (store_of ps) (store_of ps')"
  by simp

lemma post_route_touches:
  assumes quiet: "quiet_scripts E"
  shows "touches (post_files (se_run_id (pv_start E)) path) (store_of ps) (store_of (fst (post_route E path body ps)))"
proof (cases "path \<in> set POST_PATHS")
  case True
  note same = script_routes_store [OF quiet]
  have "touches (post_files (se_run_id (pv_start E)) path) (store_of ps)
      (store_of (fst (with_dict body f ps)))" if "\<And>d. store_of (fst (f d ps)) = store_of ps" for f path
    using that by (intro with_dict_touches store_same_touches)
  note dict = this
  from True show ?thesis unfolding POST_PATHS_def list.set insert_iff
  proof (elim disjE)
    assume p: "path = ''/api/strategy''"
    show ?thesis unfolding p post_route_at by (intro dict same)
  next
    assume p: "path = ''/api/strategy/import''"
    show ?thesis unfolding p post_route_at by (rule catalog_routes_touch) (simp add: post_files_def)
  next
    assume p: "path = ''/api/strategy/test''"
    show ?thesis unfolding p post_route_at by (intro dict) (simp only: same)
  next
    assume p: "path = ''/api/strategy/delete''"
    show ?thesis unfolding p post_route_at by (intro with_dict_touches catalog_routes_touch) (simp add: post_files_def)
  next
    assume p: "path = ''/api/bcw/settings''"
    show ?thesis unfolding p post_route_at by (intro engine_touches settings_routes_touch) (simp add: post_files_def)
  next
    assume p: "path = ''/api/bcw/reset''"
    show ?thesis unfolding p post_route_at by (intro engine_touches settings_routes_touch) (simp add: post_files_def)
  next
    assume p: "path = ''/api/bcw/run''"
    show ?thesis unfolding p post_route_at by (intro with_dict_touches job_routes_touch) (simp add: post_files_def)
  next
    assume p: "path = ''/api/bcw/cancel''"
    show ?thesis unfolding p post_route_at by (intro job_routes_touch) (simp add: post_files_def)
  next
    assume p: "path = ''/api/bcw/schedule''"
    show ?thesis unfolding p post_route_at by (intro engine_touches schedule_route_touches) (simp add: post_files_def)
  next
    assume p: "path = ''/api/exit''"
    show ?thesis unfolding p post_route_at by (intro dict same)
  qed (simp_all add: post_route_at same)
qed (simp add: post_route_other)

lemma get_route_files: "path \<noteq> ''/api/bcw'' \<Longrightarrow> ps_files (fst (get_route E full path ps)) = ps_files ps"
  by (simp add: get_route_def split: prod.split)

lemma get_route_cache: "path \<noteq> ''/api/status'' \<Longrightarrow> ps_cache (fst (get_route E full path ps)) = ps_cache ps"
  by (simp add: get_route_def split: prod.split)

lemma get_overview:
  "get_route E full ''/api/bcw'' ps =
     (case bcw_overview (fst (bcw_ready (se_module (pv_start E)) (se_harness (pv_start E)))) (se_alive (pv_start E))
            (pv_fault E) (pv_offset E) (se_environ (pv_start E)) (store_of ps) of (st', r) \<Rightarrow>
        (on_store st' ps, (case r of Inl e \<Rightarrow> Inl e | Inr v \<Rightarrow> Inr (200, OverviewReply v))))"
  by (simp add: get_route_def)

lemma get_route_touches:
  "touches (get_files path) (store_of ps) (store_of (fst (get_route E full path ps))) \<and>
   pf_state (ps_files (fst (get_route E full path ps))) = pf_state (ps_files ps)"
proof (cases "path = ''/api/bcw''")
  case True
  obtain st' r where "bcw_overview (fst (bcw_ready (se_module (pv_start E)) (se_harness (pv_start E)))) (se_alive (pv_start E))
            (pv_fault E) (pv_offset E) (se_environ (pv_start E)) (store_of ps) = (st', r)" by fastforce
  with touches_overview [OF this, of "get_files path"] True show ?thesis by (simp add: get_overview get_files_def)
qed (simp add: get_route_files)


section \<open>The active strategy\<close>

text \<open>The catalog is a list of dictionaries and holds the strategy that the state directory names.\<close>

definition active_listed :: "panel_files \<Rightarrow> bool" where
  "active_listed pf = (\<exists>cat es. catalog_at (pf_store pf) cat es \<and> state_get pf ''strategy'' ''standard'' \<noteq> [] \<and>
     JStr (state_get pf ''strategy'' ''standard'') \<in> set (map (\<lambda>e. dget_or e ''id'' (JStr [])) es))"

lemma active_listed_active:
  "active_listed pf \<Longrightarrow> active_strategy pf = Inr (state_get pf ''strategy'' ''standard'')"
  by (auto simp: active_listed_def active_strategy_def strategy_ids_at Let_def)

lemma active_listed_frame:
  assumes "active_listed pf" "touches fs (pf_store pf) (pf_store pf')" "pf_state pf' = pf_state pf"
    and "STRATEGIES_FILE \<notin> set fs" "STRATEGIES_FILE \<notin> (\<lambda>f. f @ ''.tmp'') ` set fs"
  shows "active_listed pf'"
proof -
  from touchesD [OF assms(2,4,5)] have "catalog_at (pf_store pf') = catalog_at (pf_store pf)"
    by (simp add: catalog_at_def fun_eq_iff read_json_def)
  moreover have "state_get pf' = state_get pf" using assms(3) by (simp add: state_get_def fun_eq_iff)
  ultimately show ?thesis using assms(1) by (simp add: active_listed_def)
qed

lemma catalog_not_state_file:
  "STRATEGIES_FILE \<notin> {state_path BCW_STATE_DIR SETTINGS_FILE, state_path BCW_STATE_DIR SCHEDULE_FILE,
     state_path BCW_STATE_DIR JOB_FILE, state_path BCW_STATE_DIR SETTINGS_FILE @ ''.tmp'',
     state_path BCW_STATE_DIR SCHEDULE_FILE @ ''.tmp'', state_path BCW_STATE_DIR JOB_FILE @ ''.tmp''}"
  by code_simp

lemma ending: "s = p @ x \<Longrightarrow> drop (length s - length x) s = x"
  by simp

lemma catalog_not_copy: "STRATEGIES_FILE \<noteq> settings_copy r" "STRATEGIES_FILE \<noteq> settings_copy r @ ''.tmp''"
proof -
  obtain p where p: "settings_copy r = p @ ''/settings.json''" using settings_copy_ends by blast
  have "drop (length STRATEGIES_FILE - length ''/settings.json'') STRATEGIES_FILE \<noteq> ''/settings.json''"
    "drop (length STRATEGIES_FILE - length ''/settings.json.tmp'') STRATEGIES_FILE \<noteq> ''/settings.json.tmp''" by code_simp+
  with ending [of STRATEGIES_FILE p "''/settings.json''"] ending [of STRATEGIES_FILE p "''/settings.json.tmp''"]
  show "STRATEGIES_FILE \<noteq> settings_copy r" "STRATEGIES_FILE \<noteq> settings_copy r @ ''.tmp''"
    unfolding p by auto
qed

lemma json_id_text: "json_id e = JStr s \<Longrightarrow> dget_or e ''id'' d = JStr s"
  by (auto simp: json_id_def dget_or_def split: option.splits)

lemma listed_id: "dget_or e ''id'' (JStr []) = JStr s \<Longrightarrow> s \<noteq> [] \<Longrightarrow> json_id e = JStr s"
  by (auto simp: json_id_def dget_or_def split: option.splits)

lemma active_listed_import:
  assumes "active_listed pf" "import_strategy_from_json f now stamp data (pf_store pf) = (st', r)"
  shows "active_listed (pf\<lparr>pf_store := st'\<rparr>)"
proof -
  from assms(1) obtain cat es where c: "catalog_at (pf_store pf) cat es" "state_get pf ''strategy'' ''standard'' \<noteq> []"
    "JStr (state_get pf ''strategy'' ''standard'') \<in> set (map (\<lambda>e. dget_or e ''id'' (JStr [])) es)"
    by (auto simp: active_listed_def)
  have g: "state_get (pf\<lparr>pf_store := st'\<rparr>) = state_get pf" by (simp add: state_get_def fun_eq_iff)
  show ?thesis
  proof (cases "\<exists>batch. r = Imported batch")
    case True
    then obtain batch cat' where b: "catalog_at st' cat' (filter (\<lambda>e. json_id e \<notin> set (map json_id batch)) es @ batch)"
      using imported_catalog(3) [OF c(1)] assms(2) by blast
    let ?cur = "JStr (state_get pf ''strategy'' ''standard'')"
    have "?cur \<in> set (map (\<lambda>e. dget_or e ''id'' (JStr [])) (filter (\<lambda>e. json_id e \<notin> set (map json_id batch)) es @ batch))"
    proof (cases "?cur \<in> set (map json_id batch)")
      case True
      then obtain e where "e \<in> set batch" "json_id e = ?cur" by auto
      with json_id_text [OF this(2), of "JStr []"] show ?thesis by force
    next
      case False
      from c(3) obtain e where e: "e \<in> set es" "dget_or e ''id'' (JStr []) = ?cur" by auto
      with listed_id [OF e(2) c(2)] False show ?thesis by force
    qed
    with b c(2) g show ?thesis unfolding active_listed_def by (intro exI conjI) auto
  next
    case False
    with not_imported_unchanged [OF assms(2)] c g show ?thesis
      by (intro active_listed_def [THEN iffD2] exI [of _ cat] exI [of _ es]) (auto simp: catalog_at_def read_json_def)
  qed
qed

lemma active_listed_delete:
  assumes "active_listed pf" "delete_strategy f v pf = Inr (pf', r)"
  shows "active_listed pf'"
proof -
  from assms(1) obtain cat es where c: "catalog_at (pf_store pf) cat es" "state_get pf ''strategy'' ''standard'' \<noteq> []"
    "JStr (state_get pf ''strategy'' ''standard'') \<in> set (map (\<lambda>e. dget_or e ''id'' (JStr [])) es)"
    by (auto simp: active_listed_def)
  from c(1) assms(2) show ?thesis
  proof (cases rule: delete_cases)
    case refused
    with assms(1) show ?thesis by simp
  next
    case (written sid act st' ok)
    have g: "state_get pf' = state_get pf" using written(7) by (simp add: state_get_def fun_eq_iff)
    show ?thesis
    proof (cases ok)
      case True
      have "sid \<noteq> state_get pf ''strategy'' ''standard''" using written(4,5) active_listed_active [OF assms(1)] by auto
      from id_member_filter [OF this c(2), of es] c(3)
      have "JStr (state_get pf ''strategy'' ''standard'') \<in>
        set (map (\<lambda>e. dget_or e ''id'' (JStr [])) (filter (\<lambda>e. json_id e \<noteq> JStr sid) es))" by blast
      moreover from written(6) True have "catalog_at st' (dset ''strategies'' (JList (map JDict
         (filter (\<lambda>e. json_id e \<noteq> JStr sid) es))) cat) (filter (\<lambda>e. json_id e \<noteq> JStr sid) es)"
        by (intro catalog_at_written) simp
      ultimately show ?thesis unfolding active_listed_def g using c(2) written(7) by (intro exI conjI) auto
    next
      case False
      with write_json_target [OF written(6)] written(7) c g show ?thesis
        by (intro active_listed_def [THEN iffD2] exI [of _ cat] exI [of _ es]) (auto simp: catalog_at_def read_json_def)
    qed
  qed
qed


section \<open>Scripts and sequences of requests\<close>

text \<open>The command lines with which the panel may run the script that changes the gateway.\<close>

definition apply_call :: "store \<Rightarrow> string list \<Rightarrow> bool" where
  "apply_call st argv = (case argv of
     [prog, what, name] \<Rightarrow> prog = APPLY \<and>
       ((what = ''strategy'' \<and> (case strategy_ids st of Inl e \<Rightarrow> False | Inr ids \<Rightarrow> JStr name \<in> set ids)) \<or>
        (what = ''exit'' \<and> name \<in> {''direct'', ''socks5'', ''ss''}))
   | _ \<Rightarrow> False)"

definition served_POST :: "panel_env \<Rightarrow> request \<Rightarrow> panel_state \<Rightarrow> panel_state \<times> answer" where
  "served_POST E rq ps = (case authed (pv_user E) (pv_password E) (rq_authorization rq) of
       Inl e \<Rightarrow> (ps, Inl e) | Inr False \<Rightarrow> (ps, Inr (401, AuthRequired))
     | Inr True \<Rightarrow> post_route E (url_path (rq_path rq)) (fst (read_body (pv_loads E) (rq_length rq) (rq_input rq))) ps)"

lemma do_POST_state: "sd_state (do_POST E rq ps) = fst (served_POST E rq ps)"
  by (simp add: do_POST_def served_POST_def Let_def split: sum.split prod.split bool.split)

lemma do_GET_state: "sd_state (do_GET E rq ps) = ps \<or>
    sd_state (do_GET E rq ps) = fst (get_route E (rq_path rq) (url_path (rq_path rq)) ps)"
  by (simp add: do_GET_def split: sum.split prod.split bool.split)

lemma do_POST_cases:
  "sd_state (do_POST E rq ps) = ps \<or> (\<exists>body. sd_state (do_POST E rq ps) = fst (post_route E (url_path (rq_path rq)) body ps))"
  by (auto simp: do_POST_state served_POST_def split: sum.split bool.split)

lemma authed_error: "authed user pw h = Inl e \<Longrightarrow> e = TypeError"
  by (auto simp: authed_def compare_digest_def Let_def split: if_splits option.splits sum.splits)

lemma script_update:
  "with_dict body (post_test (E\<lparr>pv_script := script\<rparr>)) = with_dict body (post_test E)"
  "post_import (E\<lparr>pv_script := script\<rparr>) = post_import E"
  "with_dict body (post_delete (E\<lparr>pv_script := script\<rparr>)) = with_dict body (post_delete E)"
  "post_settings (E\<lparr>pv_script := script\<rparr>) = post_settings E"
  "post_reset (E\<lparr>pv_script := script\<rparr>) = post_reset E"
  "with_dict body (post_run (E\<lparr>pv_script := script\<rparr>)) = with_dict body (post_run E)"
  "post_cancel (E\<lparr>pv_script := script\<rparr>) = post_cancel E"
  "post_schedule_route (E\<lparr>pv_script := script\<rparr>) = post_schedule_route E"
  by (simp_all add: fun_eq_iff post_test_def post_import_def post_delete_def post_settings_def post_reset_def post_run_def
      post_cancel_def post_schedule_route_def with_dict_def split: json.split cong: option.case_cong)

lemma apply_call_simps:
  "apply_call st [APPLY, ''strategy'', sid] \<longleftrightarrow> (\<exists>ids. strategy_ids st = Inr ids \<and> JStr sid \<in> set ids)"
  "apply_call st [APPLY, ''exit'', mode] \<longleftrightarrow> mode \<in> {''direct'', ''socks5'', ''ss''}"
  by (auto simp: apply_call_def split: sum.splits)

lemma run_apply_script:
  "pv_script E (APPLY # args) (ps_files ps) = script (APPLY # args) (ps_files ps) \<Longrightarrow>
     run_apply (E\<lparr>pv_script := script\<rparr>) args shown ps = run_apply E args shown ps"
  by (simp add: run_apply_def)

lemma post_route_script:
  assumes agree: "\<And>argv. apply_call (store_of ps) argv \<Longrightarrow> pv_script E argv (ps_files ps) = script argv (ps_files ps)"
  shows "post_route (E\<lparr>pv_script := script\<rparr>) path body ps = post_route E path body ps"
proof -
  have "post_strategy (E\<lparr>pv_script := script\<rparr>) d ps = post_strategy E d ps" for d
    by (cases "strategy_ids (store_of ps)")
       (auto simp: post_strategy_def Let_def apply_call_simps intro!: run_apply_script agree)
  moreover have "post_exit (E\<lparr>pv_script := script\<rparr>) d ps = post_exit E d ps" for d
  proof -
    have "run_apply (E\<lparr>pv_script := script\<rparr>) [''exit'', m] m ps = run_apply E [''exit'', m] m ps"
      if "m \<in> {''direct'', ''socks5'', ''ss''}" for m
      using that by (intro run_apply_script agree) (simp only: apply_call_simps)
    then show ?thesis by (simp only: post_exit_def Let_def split: if_split) blast
  qed
  ultimately have w: "with_dict body (post_strategy (E\<lparr>pv_script := script\<rparr>)) ps = with_dict body (post_strategy E) ps"
    "with_dict body (post_exit (E\<lparr>pv_script := script\<rparr>)) ps = with_dict body (post_exit E) ps"
    by (cases body; simp add: with_dict_def)+
  show ?thesis
  proof (cases "path \<in> set POST_PATHS")
    case True
    then show ?thesis unfolding POST_PATHS_def list.set insert_iff
      by (elim disjE) (simp_all add: post_route_at w script_update)
  qed (simp add: post_route_other)
qed

text \<open>A sequence of requests, each served in its own environment.\<close>

datatype call = Get panel_env request | Post panel_env request

primrec call_env :: "call \<Rightarrow> panel_env" where
  "call_env (Get E rq) = E"
| "call_env (Post E rq) = E"

primrec serve :: "call \<Rightarrow> panel_state \<Rightarrow> panel_state" where
  "serve (Get E rq) ps = sd_state (do_GET E rq ps)"
| "serve (Post E rq) ps = sd_state (do_POST E rq ps)"

definition serve_all :: "call list \<Rightarrow> panel_state \<Rightarrow> panel_state" where
  "serve_all cs ps = fold serve cs ps"

text \<open>
  What the panel relies on in the script: called as it may be, it leaves a strategy active that the catalog
  has.
\<close>

definition fair_script :: "panel_env \<Rightarrow> bool" where
  "fair_script E = (\<forall>argv pf. apply_call (pf_store pf) argv \<longrightarrow> active_listed pf \<longrightarrow> active_listed (fst (pv_script E argv pf)))"

lemma fair_scriptD:
  "fair_script E \<Longrightarrow> apply_call (pf_store pf) argv \<Longrightarrow> active_listed pf \<Longrightarrow> active_listed (fst (pv_script E argv pf))"
  by (simp add: fair_script_def)

lemma fair_run_apply:
  assumes "fair_script E" "active_listed (ps_files ps)" "apply_call (store_of ps) (APPLY # args)"
  shows "active_listed (ps_files (fst (run_apply E args shown ps)))"
  using fair_scriptD [OF assms(1,3,2)] by (simp add: run_apply_def split: prod.split) (metis fst_conv)

lemma active_listed_on_store: "active_listed (pf\<lparr>pf_store := st'\<rparr>) \<Longrightarrow> pf = ps_files ps \<Longrightarrow> active_listed (ps_files (on_store st' ps))"
  by (simp add: on_store_def)


lemma get_route_listed: "active_listed (ps_files ps) \<Longrightarrow> active_listed (ps_files (fst (get_route E full path ps)))"
proof (erule active_listed_frame)
  show "touches (get_files path) (store_of ps) (store_of (fst (get_route E full path ps)))"
    "pf_state (ps_files (fst (get_route E full path ps))) = pf_state (ps_files ps)"
    using get_route_touches by blast+
qed (use catalog_not_state_file in \<open>auto simp: get_files_def\<close>)

text \<open>The routes that neither run the script nor write the catalog.\<close>

lemma state_routes_keep_files:
  "pf_state (ps_files (fst (post_settings E body ps))) = pf_state (ps_files ps)"
  "pf_state (ps_files (fst (post_reset E ps))) = pf_state (ps_files ps)"
  "pf_state (ps_files (fst (post_schedule_route E body ps))) = pf_state (ps_files ps)"
  "pf_state (ps_files (fst (post_cancel E ps))) = pf_state (ps_files ps)"
  "pf_state (ps_files (fst (post_run E d ps))) = pf_state (ps_files ps)"
  by (simp_all add: post_settings_def post_reset_def post_schedule_route_def post_cancel_def post_run_def Let_def
      split: option.split prod.split sum.split)

lemma state_routes_listed:
  assumes listed: "active_listed (ps_files ps)"
  shows "active_listed (ps_files (fst (post_settings E body ps)))" "active_listed (ps_files (fst (post_reset E ps)))"
    "active_listed (ps_files (fst (post_schedule_route E body ps)))" "active_listed (ps_files (fst (post_cancel E ps)))"
    "active_listed (ps_files (fst (post_run E d ps)))"
proof -
  let ?S = "state_path BCW_STATE_DIR SETTINGS_FILE" and ?C = "state_path BCW_STATE_DIR SCHEDULE_FILE"
    and ?J = "state_path BCW_STATE_DIR JOB_FILE" and ?Y = "settings_copy (se_run_id (pv_start E))"
  note keep = active_listed_frame [OF listed] and off = catalog_not_state_file catalog_not_copy
  show "active_listed (ps_files (fst (post_settings E body ps)))" "active_listed (ps_files (fst (post_reset E ps)))"
    by (rule keep [OF settings_routes_touch(1) [of "[?S]"] state_routes_keep_files(1)]
             keep [OF settings_routes_touch(2) [of "[?S]"] state_routes_keep_files(2)]; use off in auto)+
  show "active_listed (ps_files (fst (post_schedule_route E body ps)))"
    by (rule keep [OF schedule_route_touches [of "[?C]"] state_routes_keep_files(3)]; use off in auto)
  show "active_listed (ps_files (fst (post_cancel E ps)))"
    by (rule keep [OF job_routes_touch(1) [of "[?J]"] state_routes_keep_files(4)]; use off in auto)
  show "active_listed (ps_files (fst (post_run E d ps)))"
    by (rule keep [OF job_routes_touch(2) [where fs = "[?S, ?J, ?Y]"] state_routes_keep_files(5)]; use off in auto)
qed

lemma catalog_routes_listed:
  assumes listed: "active_listed (ps_files ps)"
  shows "active_listed (ps_files (fst (post_import E body ps)))" "active_listed (ps_files (fst (post_delete E d ps)))"
  using active_listed_import [OF listed] active_listed_delete [OF listed] listed
  by (auto simp: post_import_def post_delete_def on_store_def split: prod.split sum.split)

lemma script_routes_listed:
  assumes "fair_script E" and listed: "active_listed (ps_files ps)"
  shows "active_listed (ps_files (fst (post_strategy E d ps)))" "active_listed (ps_files (fst (post_exit E d ps)))"
proof -
  note fair = fair_run_apply [OF assms]
  show "active_listed (ps_files (fst (post_strategy E d ps)))"
    by (cases "strategy_ids (store_of ps)")
       (auto simp: post_strategy_def Let_def listed apply_call_simps intro!: fair)
  have "active_listed (ps_files (fst (run_apply E [''exit'', m] m ps)))" if "m \<in> {''direct'', ''socks5'', ''ss''}" for m
    using that by (intro fair) (simp only: apply_call_simps)
  then show "active_listed (ps_files (fst (post_exit E d ps)))"
    using listed by (simp only: post_exit_def Let_def split: if_split) auto
qed

lemma post_route_listed:
  assumes "fair_script E" and listed: "active_listed (ps_files ps)"
  shows "active_listed (ps_files (fst (post_route E path body ps)))"
proof (cases "path \<in> set POST_PATHS")
  case True
  have dict: "active_listed (ps_files (fst (with_dict body f ps)))" if "\<And>d. active_listed (ps_files (fst (f d ps)))" for f
    using that listed by (cases body) (simp_all add: with_dict_def)
  note facts = script_routes_listed [OF assms] catalog_routes_listed [OF listed] state_routes_listed [OF listed]
  from True show ?thesis unfolding POST_PATHS_def list.set insert_iff
    by (elim disjE) (simp_all add: post_route_at facts dict listed post_test_def post_import_run_def)
qed (simp add: post_route_other listed)

lemma serve_listed:
  assumes "fair_script (call_env c)" "active_listed (ps_files ps)"
  shows "active_listed (ps_files (serve c ps))"
proof (cases c)
  case (Get E rq)
  with do_GET_state [of E rq ps] get_route_listed [OF assms(2)] assms(2) show ?thesis by auto
next
  case (Post E rq)
  with do_POST_cases [of E rq ps] post_route_listed [OF _ assms(2)] assms show ?thesis by auto
qed


section \<open>Properties\<close>

text \<open>
  Property C39. A request without the credentials of a configured user changes nothing and learns nothing:
  POST and GET leave the state as it is, answer 401 (or raise, when the texts are not ASCII) whatever the
  state holds, and leave the body unread on the connection.
\<close>

theorem refused_requests_change_nothing:
  assumes "pv_user E \<noteq> []"
    and "\<And>payload. rq_authorization rq = Some (''Basic '' @ payload) \<Longrightarrow>
      credentials payload \<noteq> Some (text_points (pv_user E), text_points (pv_password E))"
  shows "\<exists>a \<in> {Inr (401, AuthRequired), Inl TypeError}. \<forall>ps.
    do_POST E rq ps = \<lparr>sd_state = ps, sd_answer = a, sd_left = rq_input rq\<rparr> \<and>
    do_GET E rq ps = \<lparr>sd_state = ps, sd_answer = a, sd_left = rq_input rq\<rparr>"
proof -
  have "authed (pv_user E) (pv_password E) (rq_authorization rq) \<noteq> Inr True"
    using assms by (auto simp: authed_cases)
  then consider "authed (pv_user E) (pv_password E) (rq_authorization rq) = Inr False"
    | "authed (pv_user E) (pv_password E) (rq_authorization rq) = Inl TypeError"
    by (cases "authed (pv_user E) (pv_password E) (rq_authorization rq)") (auto dest: authed_error)
  then show ?thesis by cases (simp_all add: do_POST_def do_GET_def)
qed

text \<open>An environment: a panel with a password, and a script that makes the named strategy active.\<close>

definition sample_script :: "string list \<Rightarrow> panel_files \<Rightarrow> panel_files \<times> proc_end" where
  "sample_script argv pf = (case argv of
     [prog, what, name] \<Rightarrow> if what = ''strategy'' \<and> name \<noteq> [] \<and> strip name = name
        then (pf\<lparr>pf_state := (pf_state pf)(''strategy'' \<mapsto> name)\<rparr>, Exited 0 [] []) else (pf, Exited 0 [] [])
   | _ \<Rightarrow> (pf, Exited 1 [] []))"

definition sample_gateway :: gateway_env where
  "sample_gateway = \<lparr>ge_public_host = ''gw.example'', ge_ss_port = 8388, ge_socks_port = 1080, ge_ss_method = ''aes-256-gcm'',
     ge_ss_password = ''pw'', ge_boot = 0, ge_now = 60, ge_echo = (\<lambda>_. None), ge_egress = None, ge_proc = (\<lambda>_. None),
     ge_wzfw = None, ge_nfqin = None, ge_run = (\<lambda>_. None), ge_alive = (\<lambda>_. False)\<rparr>"

definition sample_env :: "json \<Rightarrow> panel_env" where
  "sample_env body = \<lparr>pv_user = ''admin'', pv_password = ''s3cret'', pv_loads = (\<lambda>_. Some body), pv_start = sample_start 7,
     pv_gateway = sample_gateway, pv_script = sample_script, pv_harness = (\<lambda>_. ProcTimeout), pv_raw_decode = (\<lambda>_. None),
     pv_test_url = ''https://example.org/'', pv_test_timeout = 120, pv_test_queue = 212, pv_ytdlp = True, pv_fault = NoFault,
     pv_fault2 = NoFault, pv_unlink = True, pv_signalled = True, pv_epoch = 0, pv_stamp = ''t'', pv_offset = 0,
     pv_logs = (\<lambda>_. NoFile), pv_log_size = (\<lambda>_. None), pv_index = None\<rparr>"

definition sample_request :: "string \<Rightarrow> string \<Rightarrow> request" where
  "sample_request pw path = \<lparr>rq_path = path, rq_authorization = Some (basic_header ''admin'' pw), rq_length = Some ''2'',
     rq_input = [123, 125, 71]\<rparr>"

definition sample_state :: panel_state where
  "sample_state = \<lparr>ps_files = sample_catalog [[(''id'', JStr ''standard'')], [(''id'', JStr ''b'')]],
     ps_cache = \<lparr>pc_host = [], pc_source = [], pc_ts = 0\<rparr>\<rparr>"

text \<open>The wrong password, and a deletion that is not carried out.\<close>

theorem refused_requests_change_nothing_witness:
  "sd_state (do_POST (sample_env (JDict [(''id'', JStr ''b'')])) (sample_request ''guess'' ''/api/strategy/delete'') sample_state) = sample_state"
proof -
  let ?E = "sample_env (JDict [(''id'', JStr ''b'')])" and ?rq = "sample_request ''guess'' ''/api/strategy/delete''"
  have c: "credentials (drop 6 (basic_header ''admin'' ''guess'')) = Some (text_points ''admin'', text_points ''guess'')"
    by (rule credentials_header) simp
  have "\<exists>a \<in> {Inr (401, AuthRequired), Inl TypeError}. \<forall>ps.
    do_POST ?E ?rq ps = \<lparr>sd_state = ps, sd_answer = a, sd_left = rq_input ?rq\<rparr> \<and>
    do_GET ?E ?rq ps = \<lparr>sd_state = ps, sd_answer = a, sd_left = rq_input ?rq\<rparr>"
  proof (rule refused_requests_change_nothing)
    fix payload assume "rq_authorization ?rq = Some (''Basic '' @ payload)"
    then have "payload = drop 6 (basic_header ''admin'' ''guess'')" by (simp add: sample_request_def)
    with c show "credentials payload \<noteq> Some (text_points (pv_user ?E), text_points (pv_password ?E))"
      by (simp add: sample_env_def ord_def)
  qed (simp add: sample_env_def)
  then show ?thesis by auto
qed

text \<open>
  Property C36. Whatever a POST request asks for, the script that changes the gateway is run at most with the
  identifier of a strategy in the catalog or with one of the three exit modes: panels whose scripts agree on
  these command lines serve it alike.
\<close>

theorem apply_confined:
  assumes "\<And>argv. apply_call (store_of ps) argv \<Longrightarrow> pv_script E argv (ps_files ps) = script argv (ps_files ps)"
  shows "do_POST (E\<lparr>pv_script := script\<rparr>) rq ps = do_POST E rq ps"
proof -
  have "post_route (E\<lparr>pv_script := script\<rparr>) path body ps = post_route E path body ps" for path body
    by (rule post_route_script) (rule assms)
  then show ?thesis by (simp add: do_POST_def Let_def split: sum.split bool.split)
qed

theorem apply_confined_witness:
  "do_POST ((sample_env (JDict [(''id'', JStr ''x; reboot'')]))\<lparr>pv_script := \<lambda>argv pf. if argv ! 2 = ''x; reboot'' then (pf, NoProgram) else sample_script argv pf\<rparr>)
     (sample_request ''s3cret'' ''/api/strategy'') sample_state =
   do_POST (sample_env (JDict [(''id'', JStr ''x; reboot'')])) (sample_request ''s3cret'' ''/api/strategy'') sample_state"
proof (rule apply_confined)
  fix argv assume a: "apply_call (store_of sample_state) argv"
  have "strategy_ids (store_of sample_state) = Inr [JStr ''standard'', JStr ''b'']" by code_simp
  with a have "argv ! 2 \<noteq> ''x; reboot''" by (auto simp: apply_call_def split: list.splits)
  then show "pv_script (sample_env (JDict [(''id'', JStr ''x; reboot'')])) argv (ps_files sample_state) =
      (if argv ! 2 = ''x; reboot'' then (ps_files sample_state, NoProgram) else sample_script argv (ps_files sample_state))"
    by (simp add: sample_env_def)
qed

text \<open>
  Property C37. Every request stays within the files of its route: a POST changes at most the files listed for
  its path (the catalog, the settings, the schedule, the job, or the settings copy of the new run, each
  with its temporary file), a GET at most the job file, and none of the small state files.
\<close>

theorem requests_touch_own_files:
  assumes "quiet_scripts E"
  shows "touches (post_files (se_run_id (pv_start E)) (url_path (rq_path rq))) (store_of ps) (store_of (sd_state (do_POST E rq ps)))
    \<and> touches (get_files (url_path (rq_path rq))) (store_of ps) (store_of (sd_state (do_GET E rq ps)))
    \<and> pf_state (ps_files (sd_state (do_GET E rq ps))) = pf_state (ps_files ps)"
  using do_POST_cases [of E rq ps] do_GET_state [of E rq ps] post_route_touches [OF assms]
    get_route_touches [of "url_path (rq_path rq)" ps E "rq_path rq"] by auto

theorem requests_touch_own_files_witness:
  "touches [STRATEGIES_FILE] (store_of sample_state)
     (store_of (sd_state (do_POST (sample_env (JDict [(''id'', JStr ''b'')])) (sample_request ''s3cret'' ''/api/strategy/delete'') sample_state)))"
proof -
  let ?E = "sample_env (JDict [(''id'', JStr ''b'')])" and ?rq = "sample_request ''s3cret'' ''/api/strategy/delete''"
  have "quiet_scripts ?E"
    by (simp add: quiet_scripts_def sample_env_def sample_script_def split: list.split)
  moreover have "post_files (se_run_id (pv_start ?E)) (url_path (rq_path ?rq)) = [STRATEGIES_FILE]"
    by (simp add: sample_request_def url_path_def post_files_def)
  ultimately show ?thesis using requests_touch_own_files [of ?E ?rq sample_state] by simp
qed

text \<open>
  Property C38. No sequence of requests takes the active strategy out of the catalog: as long as the script,
  called as it may be, leaves a listed strategy active, the catalog stays a list of dictionaries that
  holds the strategy named by the state directory, through deletions, imports and switches in any order.
\<close>

theorem active_strategy_survives:
  assumes "active_listed (ps_files ps)" and "list_all (\<lambda>c. fair_script (call_env c)) cs"
  shows "active_listed (ps_files (serve_all cs ps)) \<and>
    (\<exists>s ids. active_strategy (ps_files (serve_all cs ps)) = Inr s \<and> s \<noteq> [] \<and>
      strategy_ids (store_of (serve_all cs ps)) = Inr ids \<and> JStr s \<in> set ids)"
proof -
  have "active_listed (ps_files (serve_all cs ps))" using assms
    by (induction cs arbitrary: ps) (simp_all add: serve_all_def serve_listed)
  moreover from this active_listed_active obtain cat es where
    "catalog_at (store_of (serve_all cs ps)) cat es" "state_get (ps_files (serve_all cs ps)) ''strategy'' ''standard'' \<noteq> []"
    "JStr (state_get (ps_files (serve_all cs ps)) ''strategy'' ''standard'') \<in> set (map (\<lambda>e. dget_or e ''id'' (JStr [])) es)"
    unfolding active_listed_def by blast
  ultimately show ?thesis using active_listed_active strategy_ids_at by blast
qed

lemma sample_script_fair: "fair_script (sample_env body)"
  unfolding fair_script_def
proof (intro allI impI)
  fix argv pf assume a: "apply_call (pf_store pf) argv" "active_listed pf"
  then obtain what name where argv: "argv = [APPLY, what, name]" by (auto simp: apply_call_def split: list.splits)
  from a(2) obtain cat es where c: "catalog_at (pf_store pf) cat es" by (auto simp: active_listed_def)
  show "active_listed (fst (pv_script (sample_env body) argv pf))"
  proof (cases "what = ''strategy'' \<and> name \<noteq> [] \<and> strip name = name")
    case True
    with a(1) argv have "JStr name \<in> set (map (\<lambda>e. dget_or e ''id'' (JStr [])) es)"
      by (auto simp: apply_call_simps strategy_ids_at [OF c])
    with True argv c show ?thesis
      by (auto simp: sample_env_def sample_script_def active_listed_def state_get_def simp del: set_map)
  next
    case False
    with argv a(2) show ?thesis by (auto simp: sample_env_def sample_script_def)
  qed
qed

text \<open>Switch to another strategy, delete the first one, try to delete the new one.\<close>

theorem active_strategy_survives_witness:
  "active_listed (ps_files (serve_all
     [Post (sample_env (JDict [(''id'', JStr ''b'')])) (sample_request ''s3cret'' ''/api/strategy''),
      Post (sample_env (JDict [(''id'', JStr ''standard'')])) (sample_request ''s3cret'' ''/api/strategy/delete''),
      Post (sample_env (JDict [(''id'', JStr ''b'')])) (sample_request ''s3cret'' ''/api/strategy/delete'')] sample_state))"
proof -
  have "active_listed (ps_files sample_state)"
    using sample_catalog_at [of "[[(''id'', JStr ''standard'')], [(''id'', JStr ''b'')]]"]
    unfolding active_listed_def sample_state_def by (fastforce simp: sample_catalog_def state_get_def dget_or_def text_defs)
  from active_strategy_survives [OF this] sample_script_fair show ?thesis by simp
qed

end
