(* ===== verification/Activate.thy ===== *)
theory Activate
  imports PanelCatalog
begin

text \<open>
  From the catalog to the engine: the main part of \<^verbatim>\<open>src/strategy.py\<close>, which the shell script runs with the
  identifier of the strategy that the panel wants. The panel writes the catalog that is looked up here, so
  the lookup is related to the operations of the panel.
\<close>

section \<open>The lookup\<close>

text \<open>\<open>next(s for s in entries if s["id"] == sid)\<close>.\<close>

fun find_entry :: "json \<Rightarrow> json list \<Rightarrow> json dict result" where
  "find_entry sid [] = Inl StopIteration"
| "find_entry sid (v # vs) = (case v of
     JDict s \<Rightarrow> (case dget s ''id'' of None \<Rightarrow> Inl (KeyError ''id'')
       | Some i \<Rightarrow> if i = sid then Inr s else find_entry sid vs)
   | _ \<Rightarrow> Inl TypeError)"

text \<open>\<open>file\<close> is the parsed catalog; the result is what is written to the standard output.\<close>

definition catalog_entries :: "json \<Rightarrow> json list result" where
  "catalog_entries file = (case file of
     JDict d \<Rightarrow> (case dget d ''strategies'' of None \<Rightarrow> Inl (KeyError ''strategies'') | Some v \<Rightarrow> iter v)
   | _ \<Rightarrow> Inl TypeError)"

definition strategy_main :: "json \<Rightarrow> string \<Rightarrow> string result" where
  "strategy_main file sid = (case catalog_entries file of Inl e \<Rightarrow> Inl e
     | Inr vs \<Rightarrow> (case find_entry (JStr sid) vs of Inl e \<Rightarrow> Inl e
       | Inr entry \<Rightarrow> (case strategy_args entry of Inl e \<Rightarrow> Inl e
         | Inr args \<Rightarrow> Inr (emit_args args))))"

section \<open>Facts\<close>

definition has_id :: "json dict \<Rightarrow> bool" where
  "has_id e = (dget e ''id'' \<noteq> None)"

lemma has_id_json_id: "has_id e \<Longrightarrow> dget e ''id'' = Some (json_id e)"
  by (auto simp: has_id_def json_id_def dget_or_def)

lemma find_entry_dicts:
  "list_all has_id es \<Longrightarrow> find_entry sid (map JDict es) =
     (case find (\<lambda>e. json_id e = sid) es of None \<Rightarrow> Inl StopIteration | Some e \<Rightarrow> Inr e)"
  by (induction es) (auto simp: has_id_json_id)

text \<open>An entry without an identifier hides all entries behind it.\<close>

lemma find_entry_blocked:
  assumes "list_all has_id es" "\<not> has_id e" "sid \<notin> set (map json_id es)"
  shows "find_entry sid (map JDict (es @ e # es')) = Inl (KeyError ''id'')"
  using assms by (induction es) (auto simp: has_id_json_id has_id_def)

lemma find_kept:
  "find (\<lambda>e. json_id e = sid) (filter (\<lambda>e. json_id e \<notin> S) es @ new) =
     (if sid \<in> S then find (\<lambda>e. json_id e = sid) new
      else case find (\<lambda>e. json_id e = sid) es of None \<Rightarrow> find (\<lambda>e. json_id e = sid) new | Some e \<Rightarrow> Some e)"
  by (induction es) auto

lemma find_distinct: "distinct (map json_id new) \<Longrightarrow> e \<in> set new \<Longrightarrow> find (\<lambda>x. json_id x = json_id e) new = Some e"
  by (induction new) (auto simp: image_iff)

lemma catalog_entries_at: "catalog_at st cat es \<Longrightarrow> catalog_entries (JDict cat) = Inr (map JDict es)"
  by (simp add: catalog_at_def catalog_entries_def)

lemma test_entry_has_id: "json_id e = JStr s \<Longrightarrow> has_id e"
  by (auto simp: json_id_def dget_or_def has_id_def split: option.splits)

text \<open>What the renderer sees of the catalog file in a store.\<close>

definition rendered :: "store \<Rightarrow> string \<Rightarrow> string result" where
  "rendered st sid = strategy_main (read_json st STRATEGIES_FILE empty_catalog) sid"

definition render_entry :: "json dict \<Rightarrow> string result" where
  "render_entry e = (case strategy_args e of Inl x \<Rightarrow> Inl x | Inr args \<Rightarrow> Inr (emit_args args))"

lemma rendered_at:
  assumes "catalog_at st cat es" "list_all has_id es"
  shows "rendered st sid = (case find (\<lambda>e. json_id e = JStr sid) es of None \<Rightarrow> Inl StopIteration | Some e \<Rightarrow> render_entry e)"
proof -
  have "read_json st STRATEGIES_FILE empty_catalog = JDict cat" using assms(1) by (simp add: catalog_at_def)
  with assms show ?thesis
    by (simp add: rendered_def strategy_main_def catalog_entries_at find_entry_dicts render_entry_def split: option.split)
qed

section \<open>Properties\<close>

text \<open>
  Property C40. In a catalog whose entries all have identifiers, the import of a test result acts on the
  renderer like the update of a map: every imported identifier renders its new entry, and every other
  identifier renders as before, whatever the batch contains.
\<close>

theorem import_updates_renderer:
  assumes "catalog_at st cat es" "list_all has_id es"
    and "import_strategy_from_json f now stamp data st = (st', Imported batch)"
  shows "rendered st' sid = (case find (\<lambda>e. json_id e = JStr sid) batch of
    Some e \<Rightarrow> render_entry e | None \<Rightarrow> rendered st sid)"
proof -
  note imp = imported_catalog [OF assms(1,3)]
  from imp(3) obtain cat' where c: "catalog_at st' cat' (filter (\<lambda>e. json_id e \<notin> set (map json_id batch)) es @ batch)" ..
  have ids: "list_all has_id batch" using imp(4) by (auto simp: list_all_iff intro: test_entry_has_id)
  then have all: "list_all has_id (filter (\<lambda>e. json_id e \<notin> set (map json_id batch)) es @ batch)"
    using assms(2) by (auto simp: list_all_iff)
  have none: "JStr sid \<notin> set (map json_id batch) \<longleftrightarrow> find (\<lambda>e. json_id e = JStr sid) batch = None"
    by (force simp: find_None_iff)
  show ?thesis
    unfolding rendered_at [OF c all] rendered_at [OF assms(1,2)] find_kept
    using none by (auto split: option.splits)
qed

text \<open>
  Deleting a strategy removes exactly its identifier from what can be rendered: it is not found
  any more, and every other identifier renders as before.
\<close>

theorem delete_updates_renderer:
  assumes "catalog_at (pf_store pf) cat es" "list_all has_id es"
    and "delete_strategy f v pf = Inr (pf', Deleted sid left)"
  shows "rendered (pf_store pf') other = (if other = sid then Inl StopIteration else rendered (pf_store pf) other)"
  using assms(1,3)
proof (cases rule: delete_cases)
  case (written sid' act st' ok)
  then have s: "sid' = sid" and ok by (auto split: if_splits)
  let ?left = "filter (\<lambda>e. json_id e \<noteq> JStr sid) es"
  from written(6) \<open>ok\<close> s have "catalog_at st' (dset ''strategies'' (JList (map JDict ?left)) cat) ?left"
    by (intro catalog_at_written) simp
  moreover have "list_all has_id ?left" using assms(2) by (auto simp: list_all_iff)
  moreover have "find (\<lambda>e. json_id e = JStr other) ?left =
      (if other = sid then None else find (\<lambda>e. json_id e = JStr other) es)"
    by (induction es) auto
  ultimately show ?thesis using written(7) by (simp add: rendered_at [OF assms(1,2)] rendered_at)
qed simp


theorem import_updates_renderer_witness:
  "\<exists>st' batch. import_strategy_from_json NoFault 0 ''t'' sample_test
      (pf_store (sample_catalog [[(''id'', JStr ''b''), (''lua_opt'', JStr ''--lua-desync=fake'')]])) = (st', Imported batch) \<and>
    rendered st' ''b'' = Inr (emit_args [''--lua-desync=fake''])"
proof -
  let ?es = "[[(''id'', JStr ''b''), (''lua_opt'', JStr ''--lua-desync=fake'')]]"
  let ?st = "pf_store (sample_catalog ?es)"
  have "(case snd (import_strategy_from_json NoFault 0 ''t'' sample_test ?st) of Imported batch \<Rightarrow>
      find (\<lambda>e. json_id e = JStr ''b'') batch = None | _ \<Rightarrow> False)"
    by code_simp
  then obtain st' batch where imp: "import_strategy_from_json NoFault 0 ''t'' sample_test ?st = (st', Imported batch)"
    and none: "find (\<lambda>e. json_id e = JStr ''b'') batch = None"
    by (cases "import_strategy_from_json NoFault 0 ''t'' sample_test ?st") (auto split: import_result.splits)
  have "rendered ?st ''b'' = Inr (emit_args [''--lua-desync=fake''])" by code_simp
  with import_updates_renderer [OF sample_catalog_at _ imp, of "''b''"] none imp show ?thesis by (simp add: has_id_def)
qed

theorem delete_updates_renderer_witness:
  "\<exists>pf'. delete_strategy NoFault (JStr ''b'') (sample_catalog [[(''id'', JStr ''standard'')], [(''id'', JStr ''b'')]])
      = Inr (pf', Deleted ''b'' [JStr ''standard'']) \<and> rendered (pf_store pf') ''b'' = Inl StopIteration"
proof -
  let ?pf = "sample_catalog [[(''id'', JStr ''standard'')], [(''id'', JStr ''b'')]]"
  have "(case delete_strategy NoFault (JStr ''b'') ?pf of Inr (pf', r) \<Rightarrow> r = Deleted ''b'' [JStr ''standard''] | _ \<Rightarrow> False)"
    by code_simp
  then obtain pf' where del: "delete_strategy NoFault (JStr ''b'') ?pf = Inr (pf', Deleted ''b'' [JStr ''standard''])"
    by (auto split: sum.splits)
  from delete_updates_renderer [OF sample_catalog_at _ del, of "''b''"] del show ?thesis by (simp add: has_id_def)
qed

end
