(* ===== verification/Races.thy ===== *)
theory Races
  imports Jobs
begin

text \<open>
  Interleavings of the threads of \<^verbatim>\<open>src/panel/panel.py\<close>. The scheduler thread reads
  the schedule file, decides, and writes it back, and no lock keeps the
  \<^verbatim>\<open>/api/bcw/schedule\<close> route out in between; the thread that collects a finished run writes
  the job file without the panel's lock. The two halves of a tick are separated here, shown to
  compose to \<open>scheduler_tick\<close>, and put on either side of other steps. The overview of the Select tab is a
  third such thread: it writes a job that it found stale without the lock.
\<close>

section \<open>The two halves of a tick\<close>

text \<open>
  Everything up to the write: the contents that the tick is going to write into the schedule file,
  and the slot that it fires; \<open>None\<close> when it writes nothing.
\<close>

definition tick_decides ::
  "bool \<Rightarrow> int \<Rightarrow> string \<Rightarrow> (string \<Rightarrow> string option) \<Rightarrow> rat \<Rightarrow> store \<Rightarrow> (json dict \<times> json option) option"
where
  "tick_decides ready off dir environ now st =
     (case (load_schedule dir environ st, persisted st (state_path dir SCHEDULE_FILE)) of
        (Some (schedule, ws, es), Some state) \<Rightarrow>
          if \<not> ready then None
          else if \<not> truthy (dget_or schedule ''enabled'' JNull) then
            (if truthy (dget_or state ''next_run'' JNull) then Some (dpop ''next_run'' state, None) else None)
          else if \<not> truthy (dget_or state ''next_run'' JNull) then
            (case next_run_at off schedule now (dget_or state ''last_run'' JNull) of
               Inl e \<Rightarrow> None | Inr t \<Rightarrow> Some (dset ''next_run'' t state, None))
          else (case schedule_due schedule now (dget_or state ''next_run'' JNull) of
               Inl e \<Rightarrow> None
             | Inr False \<Rightarrow> None
             | Inr True \<Rightarrow>
                 (let fired = dget_or state ''next_run'' JNull in
                  case next_run_at off schedule now fired of
                    Inl e \<Rightarrow> None
                  | Inr t \<Rightarrow> Some (dset ''next_run'' t (dset ''last_run'' fired state), Some fired)))
      | _ \<Rightarrow> None)"

definition tick_writes :: "fault \<Rightarrow> string \<Rightarrow> (json dict \<times> json option) option \<Rightarrow> store \<Rightarrow> store \<times> json option" where
  "tick_writes f dir decision st = (case decision of
       None \<Rightarrow> (st, None)
     | Some (d, fired) \<Rightarrow> (fst (write_json f (state_path dir SCHEDULE_FILE) (JDict d) st), fired))"

text \<open>Without an interruption the halves are the tick.\<close>

lemma tick_halves:
  "scheduler_tick ready f off dir environ now st = tick_writes f dir (tick_decides ready off dir environ now st) st"
  unfolding scheduler_tick_def tick_decides_def tick_writes_def Let_def
  by (simp split: option.split prod.split sum.split bool.split)

text \<open>What the tick writes differs from what it has read in the two slots at most.\<close>

lemma tick_decides_slots:
  assumes "tick_decides ready off dir environ now st = Some (d, fired)"
  shows "\<exists>state. persisted st (state_path dir SCHEDULE_FILE) = Some state \<and>
    (\<forall>k. k \<noteq> ''next_run'' \<longrightarrow> k \<noteq> ''last_run'' \<longrightarrow> dget d k = dget state k)"
  using assms unfolding tick_decides_def Let_def
  by (auto split: option.splits prod.splits sum.splits bool.splits if_splits)

lemma tick_write_schedule:
  assumes "tick_decides ready off dir environ now st = Some (d, fired)"
  shows "load_schedule dir environ (fst (write_json NoFault (state_path dir SCHEDULE_FILE) (JDict d) st1)) =
    load_schedule dir environ st"
proof -
  let ?path = "state_path dir SCHEDULE_FILE"
  obtain state where state: "persisted st ?path = Some state"
    "\<forall>k. k \<noteq> ''next_run'' \<longrightarrow> k \<noteq> ''last_run'' \<longrightarrow> dget d k = dget state k"
    using tick_decides_slots [OF assms] by blast
  obtain st2 ok where w: "write_json NoFault ?path (JDict d) st1 = (st2, ok)" by fastforce
  with write_json_ok [OF w] have "persisted st2 ?path = Some d" by (simp add: persisted_written)
  moreover have "normalize_schedule d (schedule_env environ) = normalize_schedule state (schedule_env environ)"
    by (rule normalize_schedule_cong) (metis state(2) slots_not_in_spec)
  ultimately show ?thesis using w state(1) by (simp add: schedule_file.load_eq)
qed

text \<open>
  An uninterrupted tick never changes the schedule, whatever becomes of its write: only the slots move.
\<close>

lemma tick_keeps_schedule:
  "load_schedule dir environ (fst (scheduler_tick ready f off dir environ now st)) = load_schedule dir environ st"
proof (cases "tick_decides ready off dir environ now st")
  case None
  then show ?thesis by (simp add: tick_halves tick_writes_def)
next
  case (Some p)
  obtain d fired where p: "p = (d, fired)" by fastforce
  let ?path = "state_path dir SCHEDULE_FILE"
  obtain st2 ok where w: "write_json f ?path (JDict d) st = (st2, ok)" by fastforce
  show ?thesis
  proof (cases "f = NoFault")
    case True
    with tick_write_schedule [of ready off dir environ now st d fired st] Some p show ?thesis
      by (simp add: tick_halves tick_writes_def)
  next
    case False
    with write_json_ok [OF w] have "persisted st2 ?path = persisted st ?path"
      using w by (simp add: persisted_written)
    with w Some p show ?thesis by (simp add: tick_halves tick_writes_def schedule_file.load_eq)
  qed
qed

text \<open>
  A tick may read before and write after a change of the schedule: \<open>raced_tick\<close> is the store after both, and
  the answer of the route.
\<close>

definition raced_tick ::
  "bool \<Rightarrow> int \<Rightarrow> string \<Rightarrow> (string \<Rightarrow> string option) \<Rightarrow> rat \<Rightarrow> json dict \<Rightarrow> store \<Rightarrow> (store \<times> outcome \<times> bool) option"
where
  "raced_tick ready off dir environ now values st =
     (case post_schedule NoFault NoFault dir environ values st of None \<Rightarrow> None
      | Some (st1, res, saved) \<Rightarrow>
          Some (fst (tick_writes NoFault dir (tick_decides ready off dir environ now st) st1), res, saved))"

section \<open>A collecting thread that comes late\<close>

lemma finished_not_running: "\<not> job_running alive (finished_job C job ok)"
  by (simp add: job_running_def finished_job_def dget_or_def)

section \<open>An overview that writes late\<close>

text \<open>What an overview is going to write is a lost job, whatever has happened since it read.\<close>

definition lost_job :: "json dict \<Rightarrow> bool" where
  "lost_job job = (job \<noteq> [] \<and> dget_or job ''state'' JNull = JStr ''lost'')"

lemma overview_reads_lost: "overview_reads alive st = Some lost \<Longrightarrow> lost_job lost"
proof -
  have "dset ''state'' v job \<noteq> []" for v and job :: "json dict" by (simp add: dset_def)
  then show "overview_reads alive st = Some lost \<Longrightarrow> lost_job lost"
    by (auto simp: overview_reads_def lost_job_def dget_or_def split: sum.splits if_splits)
qed

lemma looking_lost: "panel_runs h evs h' \<Longrightarrow> list_all lost_job (ho_looking h) \<Longrightarrow> list_all lost_job (ho_looking h')"
proof (induction rule: panel_runs.induct)
  case (one_more h evs h1 ev h2)
  then have "list_all lost_job (ho_looking h1)" by simp
  with \<open>panel_step h1 ev h2\<close> show ?case
    by cases (auto simp: list_all_iff overview_reads_lost dest: notin_set_remove1)
qed

text \<open>
  So after it has written, the job file names no running process, although every harness that lived before still
  lives, and the next start is not refused as already running.
\<close>

theorem late_look_frees_panel:
  assumes "panel_runs (fresh_host st tree) evs h" and "panel_step h (LookWrites NoFault) h'"
  shows "ho_live h' = ho_live h \<and> \<not> names_live (ho_store h') pid \<and>
    bcw_start_run E ov source (ho_store h') \<noteq> Inr (st'', AlreadyRunning run_id)"
proof -
  have "list_all lost_job (ho_looking h)" using looking_lost [OF assms(1)] by (simp add: fresh_host_def)
  with assms(2) obtain lost where l: "lost_job lost" "ho_store h' = save_job NoFault lost (ho_store h)" "ho_live h' = ho_live h"
    by (elim look_writes_stepE) (auto simp: list_all_iff)
  then have j: "load_job (ho_store h') = Inr lost" by (simp add: lost_job_def load_saved_job)
  have "\<not> job_running alive lost" for alive using l(1) by (simp add: lost_job_def job_running_def)
  with j have "bcw_start_run E ov source (ho_store h') \<noteq> Inr (st'', AlreadyRunning run_id)"
    by (auto simp: bcw_start_run_def launch_def Let_def split: prod.splits option.splits if_splits)
  with j l show ?thesis by (simp add: names_live_def lost_job_def)
qed

section \<open>Properties\<close>

text \<open>
  Property C26. A tick that writes never destroys more than the slots when it is alone, and loses a saved schedule
  when it is not: if the schedule route saves and answers between the two halves of a tick that writes,
  then the loader returns after the tick exactly the schedule from before the change.
\<close>

theorem saved_schedule_lost:
  assumes "raced_tick ready off dir environ now values st = Some (st', res, True)"
  shows "(tick_decides ready off dir environ now st = None \<longrightarrow> load_schedule dir environ st' = Some res) \<and>
    (tick_decides ready off dir environ now st \<noteq> None \<longrightarrow> load_schedule dir environ st' = load_schedule dir environ st)"
proof -
  obtain st1 where p: "post_schedule NoFault NoFault dir environ values st = Some (st1, res, True)"
    and st': "st' = fst (tick_writes NoFault dir (tick_decides ready off dir environ now st) st1)"
    using assms by (auto simp: raced_tick_def split: option.splits)
  from post_schedule_rearms [OF p] have saved: "load_schedule dir environ st1 = Some res" by blast
  show ?thesis
  proof (cases "tick_decides ready off dir environ now st")
    case None
    with st' saved show ?thesis by (simp add: tick_writes_def)
  next
    case (Some q)
    obtain d fired where "q = (d, fired)" by fastforce
    with tick_write_schedule [of ready off dir environ now st d fired st1] Some st' show ?thesis
      by (simp add: tick_writes_def)
  qed
qed

theorem saved_schedule_lost_witness:
  "\<exists>st st' res old. raced_tick True 0 ''/s'' (\<lambda>_. None) 100000 [(''at'', JStr ''07:00'')] st = Some (st', res, True) \<and>
    dget (fst res) ''at'' = Some (JStr ''07:00'') \<and> load_schedule ''/s'' (\<lambda>_. None) st' = Some old \<and>
    dget (fst old) ''at'' = Some (JStr ''04:00'')"
proof -
  let ?st = "(\<lambda>_. None)(state_path ''/s'' SCHEDULE_FILE \<mapsto> Json (JDict [(''enabled'', JBool True), (''at'', JStr ''04:00'')]))"
  have r: "(case raced_tick True 0 ''/s'' (\<lambda>_. None) 100000 [(''at'', JStr ''07:00'')] ?st of None \<Rightarrow> False
      | Some (st', res, saved) \<Rightarrow> saved \<and> dget (fst res) ''at'' = Some (JStr ''07:00''))"
    by code_simp
  have d: "tick_decides True 0 ''/s'' (\<lambda>_. None) 100000 ?st \<noteq> None" by code_simp
  have l: "(case load_schedule ''/s'' (\<lambda>_. None) ?st of None \<Rightarrow> False
      | Some old \<Rightarrow> dget (fst old) ''at'' = Some (JStr ''04:00''))"
    by code_simp
  from r obtain st' res where q: "raced_tick True 0 ''/s'' (\<lambda>_. None) 100000 [(''at'', JStr ''07:00'')] ?st = Some (st', res, True)"
    "dget (fst res) ''at'' = Some (JStr ''07:00'')"
    by (auto split: option.splits)
  from l obtain old where o: "load_schedule ''/s'' (\<lambda>_. None) ?st = Some old" "dget (fst old) ''at'' = Some (JStr ''04:00'')"
    by (auto split: option.splits)
  from saved_schedule_lost [OF q(1)] d o(1) have "load_schedule ''/s'' (\<lambda>_. None) st' = Some old" by simp
  with q o(2) show ?thesis by blast
qed

text \<open>
  Property C27. The thread that collects a run writes its own copy of the job, not the one in the job file: once it has written, the
  job file names no running process, whichever run was started in the meantime, and a start is not refused
  as already running.
\<close>

theorem late_collect_frees_panel:
  assumes "bcw_collect C job tree st = (tree', st', r)" and "collected_result C job st = JDict res"
    and "plain_tree tree" and "ce_f_job C = NoFault" and "ce_f_last C = NoFault"
  shows "\<not> names_live st' pid \<and>
    bcw_start_run E ov source st' \<noteq> Inr (st'', AlreadyRunning run_id)"
proof -
  let ?ok = "truthy (dget_or res ''ok'' JNull)"
  from collect_records_end [OF assms] have l: "load_job st' = Inr (finished_job C job ?ok)" by blast
  then have "\<not> names_live st' pid" by (simp add: names_live_def finished_job_def dget_or_def)
  moreover have "bcw_start_run E ov source st' \<noteq> Inr (st'', AlreadyRunning run_id)"
    using l by (auto simp: bcw_start_run_def finished_not_running launch_def Let_def
        split: prod.splits option.splits if_splits)
  ultimately show ?thesis by blast
qed

text \<open>
  A second start while the collecting thread of the first run is held up between its wait and its write, a late collection,
  and a third start: two harnesses live, none of them cancelled.
\<close>

definition later_start :: "int \<Rightarrow> (int \<Rightarrow> bool) \<Rightarrow> start_env" where
  "later_start pid alive = (sample_start pid)\<lparr>se_alive := alive\<rparr>"

definition late_script :: "event list" where
  "late_script = start_events (sample_start 7) None ''manual'' @ Reap 7 # start_events (later_start 8 (\<lambda>_. False)) None ''manual'' @
     Collect sample_collect # start_events (later_start 9 (\<lambda>p. p = 8)) None ''scheduled''"

lemma late_starts:
  "(case bcw_start_run (sample_start 7) None ''manual'' no_files of Inl e \<Rightarrow> False | Inr (st1, a) \<Rightarrow>
      (case bcw_start_run (later_start 8 (\<lambda>_. False)) None ''manual'' st1 of Inl e \<Rightarrow> False | Inr (st2, b) \<Rightarrow>
        starts_with_pid 8 (Inr (st2, b)) \<and>
        starts_with_pid 9 (bcw_start_run (later_start 9 (\<lambda>p. p = 8)) None ''scheduled''
          (fst (snd (bcw_collect sample_collect (started_job (sample_start 7) ''manual'' 7) [] st2))))))"
  by code_simp

theorem late_collect_frees_panel_witness:
  "\<exists>h st2 tree' st3 r. panel_runs (fresh_host no_files []) late_script h \<and> ho_live h = [9, 8] \<and>
    bcw_collect sample_collect (started_job (sample_start 7) ''manual'' 7) [] st2 = (tree', st3, r) \<and>
    names_live st2 8 \<and> \<not> names_live st3 8"
proof -
  let ?job = "started_job (sample_start 7) ''manual'' 7" and ?E8 = "later_start 8 (\<lambda>_. False)" and ?E9 = "later_start 9 (\<lambda>p. p = 8)"
  obtain st1 r1 s1 w1 where b1: "bcw_start_run (sample_start 7) None ''manual'' no_files = Inr (st1, RunStarted r1 7 s1 w1)"
    using sample_start_once by (rule starts_with_pidE)
  with late_starts have "starts_with_pid 8 (bcw_start_run ?E8 None ''manual'' st1)" by (auto split: sum.splits)
  then obtain st2 r2 s2 w2 where b2: "bcw_start_run ?E8 None ''manual'' st1 = Inr (st2, RunStarted r2 8 s2 w2)"
    by (rule starts_with_pidE)
  obtain tree' st3 r where c: "bcw_collect sample_collect ?job [] st2 = (tree', st3, r)" by (rule prod_cases3)
  from late_starts b1 b2 c have "starts_with_pid 9 (bcw_start_run ?E9 None ''scheduled'' st3)" by simp
  then obtain st4 r4 s4 w4 where b4: "bcw_start_run ?E9 None ''scheduled'' st3 = Inr (st4, RunStarted r4 9 s4 w4)"
    by (rule starts_with_pidE)
  have res: "collected_result sample_collect ?job st2 = JDict [(''ok'', JBool True), (''domains'', JInt 3)]"
    by (simp add: collected_result_def sample_collect_def)
  have free: "\<not> names_live st3 8"
    using late_collect_frees_panel [OF c res] by (simp add: plain_tree_def sample_collect_def)
  have live: "names_live st2 8"
  proof (rule start_cases [OF b2])
    fix s assume "launch ?E8 ''manual'' s2 w2 s = (st2, RunStarted r2 8 s2 w2)"
    then have "load_job st2 = Inr (started_job ?E8 ''manual'' 8)"
      by (rule launch_started) (simp add: later_start_def sample_start_def)
    then show ?thesis by (simp add: names_live_def)
  qed
  let ?h0 = "fresh_host no_files []"
  let ?h1 = "after_start ?h0 (sample_start 7) ''manual'' 7 st1"
  let ?h2 = "?h1\<lparr>ho_live := removeAll 7 (ho_live ?h1), ho_waiting := filter (\<lambda>x. fst x \<noteq> 7) (ho_waiting ?h1),
    ho_pending := ?job # ho_pending ?h1\<rparr>"
  let ?h3 = "after_start ?h2 ?E8 ''manual'' 8 st2"
  let ?h4 = "?h3\<lparr>ho_store := st3, ho_tree := tree', ho_pending := removeAll ?job (ho_pending ?h3)\<rparr>"
  let ?h5 = "after_start ?h4 ?E9 ''scheduled'' 9 st4"
  have r1: "panel_runs ?h0 (start_events (sample_start 7) None ''manual'') ?h1" by (rule start_from_fresh [OF b1]) simp
  have s2: "panel_step ?h1 (Reap 7) ?h2" by (rule reaped) (simp add: after_start_def)
  have r3: "panel_runs ?h2 (start_events ?E8 None ''manual'') ?h3"
    by (rule start_undisturbed) (use b2 in \<open>simp_all add: after_start_def fresh_host_def covers_def\<close>)
  have s4: "panel_step ?h3 (Collect sample_collect) ?h4"
    by (rule collected) (use c in \<open>simp_all add: after_start_def fresh_host_def\<close>)
  have r5: "panel_runs ?h4 (start_events ?E9 None ''scheduled'') ?h5"
    by (rule start_undisturbed) (use b4 in \<open>simp_all add: after_start_def fresh_host_def covers_def later_start_def\<close>)
  have "panel_runs ?h0 late_script ?h5"
    unfolding late_script_def by (rule runs_append [OF next_event [OF s2 runs_append [OF next_event [OF s4 r5] r3]] r1])
  moreover have "ho_live ?h5 = [9, 8]" by (simp add: after_start_def fresh_host_def)
  ultimately show ?thesis using c live free by blast
qed

text \<open>
  An overview that falls between the two writes of a start and is held up there: it overwrites the record of the
  living harness, and a second one starts.
\<close>

definition look_script :: "event list" where
  "look_script = [Begin (sample_start 7) None ''manual'', Spawn, LookReads (\<lambda>p. p = 7), Record, LookWrites NoFault]"

theorem late_look_frees_panel_witness:
  "\<exists>h h'. panel_runs (fresh_host no_files []) look_script h \<and> ho_live h = [7] \<and> \<not> names_live (ho_store h) 7 \<and>
    panel_runs h (start_events (sample_start 8) None ''manual'') h' \<and> ho_live h' = [8, 7]"
proof -
  let ?E = "sample_start 7"
  have all: "(case start_begins ?E None ''manual'' no_files of Inr (st1, Inr (s, w)) \<Rightarrow>
      (case overview_reads (\<lambda>p. p = 7) st1 of None \<Rightarrow> False | Some lost \<Rightarrow>
        starts_with_pid 8 (bcw_start_run (sample_start 8) None ''manual'' (save_job NoFault lost (start_records ?E ''manual'' 7 st1))))
     | _ \<Rightarrow> False)"
    by code_simp
  then obtain st1 r where r: "start_begins ?E None ''manual'' no_files = Inr (st1, r)"
    by (cases "start_begins ?E None ''manual'' no_files") auto
  with all obtain s w where b: "start_begins ?E None ''manual'' no_files = Inr (st1, Inr (s, w))" by (cases r) auto
  with all obtain lost where l: "overview_reads (\<lambda>p. p = 7) st1 = Some lost" by (auto split: option.splits)
  define st3 where "st3 = save_job NoFault lost (start_records ?E ''manual'' 7 st1)"
  from all b l have "starts_with_pid 8 (bcw_start_run (sample_start 8) None ''manual'' st3)" by (simp add: st3_def)
  then obtain st4 r4 s4 w4 where b4: "bcw_start_run (sample_start 8) None ''manual'' st3 = Inr (st4, RunStarted r4 8 s4 w4)"
    by (rule starts_with_pidE)
  let ?h0 = "fresh_host no_files []"
  let ?h1 = "?h0\<lparr>ho_store := st1, ho_starting := Some (?E, ''manual'', None)\<rparr>"
  let ?h2 = "?h1\<lparr>ho_live := 7 # ho_live ?h1, ho_starting := Some (?E, ''manual'', Some 7)\<rparr>"
  let ?h3 = "?h2\<lparr>ho_looking := lost # ho_looking ?h2\<rparr>"
  let ?h4 = "?h3\<lparr>ho_store := start_records ?E ''manual'' 7 (ho_store ?h3), ho_starting := None,
       ho_waiting := (7, started_job ?E ''manual'' 7) # ho_waiting ?h3\<rparr>"
  let ?h5 = "?h4\<lparr>ho_store := save_job NoFault lost (ho_store ?h4), ho_looking := remove1 lost (ho_looking ?h4)\<rparr>"
  have 1: "panel_step ?h0 (Begin ?E None ''manual'') ?h1"
    by (rule begun) (use b in \<open>simp_all add: fresh_host_def covers_def\<close>)
  have 2: "panel_step ?h1 Spawn ?h2" by (rule spawned) (simp_all add: sample_start_def fresh_host_def)
  have 3: "panel_step ?h2 (LookReads (\<lambda>p. p = 7)) ?h3" by (rule look_reads) (use l in \<open>simp_all add: fresh_host_def covers_def\<close>)
  have 4: "panel_step ?h3 Record ?h4" by (rule recorded) simp
  have 5: "panel_step ?h4 (LookWrites NoFault) ?h5" by (rule look_writes) simp
  have before_write: "panel_runs ?h0 [Begin ?E None ''manual'', Spawn, LookReads (\<lambda>p. p = 7), Record] ?h4"
    by (rule next_event [OF 1 next_event [OF 2 next_event [OF 3 one_event [OF 4]]]])
  have runs: "panel_runs ?h0 look_script ?h5"
    using runs_append [OF one_event [OF 5] before_write] by (simp add: look_script_def)
  have "panel_runs ?h5 (start_events (sample_start 8) None ''manual'') (after_start ?h5 (sample_start 8) ''manual'' 8 st4)"
    by (rule start_undisturbed) (use b4 in \<open>simp_all add: st3_def fresh_host_def covers_def sample_start_def\<close>)
  with runs late_look_frees_panel [OF before_write 5, of 7] show ?thesis
    by (intro exI [of _ ?h5] exI [of _ "after_start ?h5 (sample_start 8) ''manual'' 8 st4"])
      (simp add: after_start_def fresh_host_def)
qed

end
