(* ===== verification/Spec2Isabelle.thy ===== *)
theory Spec2Isabelle
  imports Pipeline Logs Translate Routes Activate Races
begin

text \<open>
  A verification library for web_zapret2, a gateway that runs a packet desynchronisation engine (nfqws2)
  and a web panel for it. The development models the Python part of the repository:
  \<^verbatim>\<open>src/strategy.py\<close> (the renderer), \<^verbatim>\<open>src/blockcheck.py\<close> (selection of strategies) and
  \<^verbatim>\<open>src/panel/panel.py\<close> (the panel).

  \<^bold>\<open>The program.\<close> The catalog \<^verbatim>\<open>config/strategies.json\<close> lists strategies. The renderer turns the entry with a
  given identifier into command line arguments of the engine; a shell script reads them, separated by NUL.
  The panel serves a small HTTP interface: it shows the status of the gateway, switches the strategy and the
  exit mode through a shell script, imports and deletes catalog entries, shows the logs, and drives the
  strategy selection. A selection run is a process of its own (the harness): it reads a copy of the settings,
  runs the engine \<open>blockcheckw\<close> for every domain (a scan, then a check of what the scan found), filters and
  ranks the strategies that work, and writes a result. The panel starts runs by hand or by a schedule,
  collects their results, and can import the accepted strategies into the catalog. Settings and schedule are
  overrides in JSON files, merged over the environment.

  \<^bold>\<open>Theories, bottom up.\<close>
  \<^item> \<open>Prelude\<close>, \<open>PyText\<close>, \<open>PyNumber\<close>, \<open>PyValue\<close>, \<open>Shlex\<close>, \<open>Lines\<close>, \<open>Codec\<close>, \<open>FloatText\<close>: the parts of the language and its
    standard library that the program uses. Exceptions are values (\<open>Inl\<close> of \<open>pyexn\<close>); JSON values are a
    datatype; dictionaries are association lists in insertion order; integers are unbounded; a float is
    \<open>pyfloat\<close> with exact rationals; a character is a code point below 256; bytes are words of eight bits.
    \<open>Codec\<close> has UTF-8 and base64 with their round trips, stated as the contract \<open>codec\<close>;
    \<open>FloatText\<close> shows that the printed text of a decimal float is read back as the same float.
  \<^item> \<open>Strategy\<close> (\<open>native_options\<close>, \<open>strategy_args\<close>) and \<open>Activate\<close> (the main part): the renderer.
  \<^item> \<open>Settings\<close> (\<open>coerce\<close>, \<open>env_defaults\<close>, \<open>normalize\<close>, \<open>normalize_schedule\<close>) and \<open>StateFiles\<close> (\<open>read_json\<close>,
    \<open>write_json\<close>, load, save and reset): the overrides. The store maps paths to parsed contents; what can go
    wrong in a write is the argument \<open>fault\<close>. \<open>override_file\<close> is the contract of the two pairs of functions.
  \<^item> \<open>LocalClock\<close>, \<open>Schedule\<close>: civil time with a constant offset, \<open>next_run_at\<close>, one tick of the scheduler
    loop, and the schedule route.
  \<^item> \<open>Command\<close> (command lines and file names of a run), \<open>Report\<close> (reports of the engine, filter and ranking),
    \<open>Runner\<close> (\<open>_run_step\<close>, \<open>run\<close>, \<open>prune_runs\<close>, \<open>summarize\<close>), \<open>Harness\<close> (\<open>settings_from_file\<close>, \<open>main\<close>).
  \<^item> \<open>Catalog\<close> (\<open>validate_args\<close>, \<open>plan_import\<close>, \<open>merge_catalog\<close>) and \<open>Pipeline\<close> (what a finished run can bring
    into the catalog).
  \<^item> \<open>PanelCatalog\<close> (catalog, active strategy, deletion, imports), \<open>Jobs\<close> (start, collect, cancel, overview of
    selection runs and their interleavings as the step relation \<open>panel_step\<close>, in which a start, a collection and an
    overview are not atomic), \<open>Logs\<close>, \<open>Translate\<close>.
  \<^item> \<open>Races\<close>: the two halves of a scheduler round with another request in between, and a collecting thread and
    an overview that write late.
  \<^item> \<open>Access\<close> (\<open>authed\<close>, \<open>_read_body\<close>, \<open>ss_uri\<close>), \<open>Gateway\<close> (devices, traffic, public address, services, status,
    availability, and the two scripts), \<open>Routes\<close> (\<open>do_GET\<close>, \<open>do_POST\<close>).

  Definitions carry the names of the functions they model. A record field has a prefix for its record.
  Messages for the operator are constructors where nothing depends on their text.

  \<^bold>\<open>What is shown.\<close> The properties are numbered in the theories.
  \<^item> Renderer: arguments are confined to options that are not denied; the legacy conversion equals a conversion
    profile by profile and accepts exactly the supported ones; the output can be read back.
  \<^item> Settings: normalization gives well-typed settings, without problems exactly when a run can use them; a
    save is all or nothing. The harness accepts what the panel accepted, and reads the same value for every setting.
  \<^item> Schedule: the next slot is the least admitted one; missed slots are skipped; a slot fires once. A round
    that is interrupted between its read and its write undoes a change of the schedule.
  \<^item> Runs: command lines keep the contract of the engine, files stay in the run directory, results report what
    the engine said, and time is bounded by the timeout and five seconds for each step.
  \<^item> Jobs: at most one harness lives while nothing is cancelled, no thread that writes the job file without
    the lock is held up, the panel is not restarted in the middle of a start and the process identifier gets
    written; a cancellation, a late collection and a late overview break this.
  \<^item> Logs: the merged view is exactly the lines of the module files, in order; the log route depends on files of
    the log directory only.
  \<^item> Catalog: imports are sound and all or nothing, imported entries render, an import acts on the renderer like
    the update of a map, and no sequence of requests takes the active strategy out of the catalog.
  \<^item> Panel: nothing happens without the credentials, every route stays within its files, and only the commands
    meant for them reach the scripts.

  \<^bold>\<open>Parameters and hypotheses.\<close> The engine, the JSON reader of its reports and of request bodies, the shell
  scripts, the processes alive, the clock readings, the faults of writes, the answers of network services
  and the contents of procfs are arguments. Two hypotheses name what is relied on in the apply script:
  \<open>quiet_scripts\<close> (it does not write the JSON files of the panel) and \<open>fair_script\<close> (called with a strategy of
  the catalog or an exit mode, it leaves a strategy active that the catalog has).

  \<^bold>\<open>Termination and fuel.\<close> No definition uses fuel: the loops recurse over lists or have a measure
  (\<open>catch_up\<close> over the distance to the present, \<open>show_pos\<close>, \<open>fresh_id\<close>, \<open>utf8_go\<close>). The endless loop of the
  scheduler thread is modelled by one round of it. \<open>first_slot\<close> looks at nine days, as the code does.

  \<^bold>\<open>Not modelled.\<close> The plumbing of the HTTP server (headers, status lines, the framing of connections; what a
  request leaves unread is modelled), printing, and the start of the threads. Requests run one after
  another in \<open>Routes\<close>; the interleavings that are modelled are those of \<open>Jobs\<close> and \<open>Races\<close>. The shell
  scripts, the UDP relay in C, the browser interface, the image and its configuration have no Python in
  them. A dash outside ASCII in a message is written as a hyphen. Code points above 255 occur in \<open>Codec\<close>
  and \<open>Access\<close> only. The offset of the local clock is constant, so changes to and from summer time are
  outside the model. Where a definition is simpler than the code, it says so where it stands, or it is one of
  these: the ranking of checked rows orders NaN last, where Python's sort has no order; an imported test whose
  latency is a text is refused even when it is the only one; workers and profiles that are no integers (possible
  only over an ill-typed base) count as not greater instead of raising; removing an empty run directory does not fail; and
  a JSON value is read back from a file as it was written.
\<close>

end
